(* ===== verification/Prelude.thy ===== *)
theory Prelude
  imports Main "HOL-Library.AList" "HOL-Library.List_Lexorder" "HOL-Library.Char_ord"
    "HOL-Library.Sublist" "HOL-Library.Multiset"
begin

text \<open>
  Shared vocabulary of the development: Go errors and results, Go maps as association
  lists, 32-bit integers, sorting by a key, and the generic lemmas that every component
  proof relies on.

  Conventions.
  \<^item> A Go \<^verbatim>\<open>string\<close> is a list of bytes (\<open>string\<close>, that is \<open>char list\<close>); Go's \<^verbatim>\<open><\<close> on strings is
    the bytewise lexicographic order of \<open>HOL-Library.List_Lexorder\<close> over \<open>Char_ord\<close>.
  \<^item> A Go map is an association list with distinct keys; \<open>map_of\<close> is the lookup,
    \<open>AList.update\<close> the store, \<open>AList.delete\<close> the \<^verbatim>\<open>delete\<close> builtin, \<open>length\<close> the \<^verbatim>\<open>len\<close>.
    The list order stands for the iteration order of \<^verbatim>\<open>range\<close>, which Go leaves unspecified;
    theorems about loops over a map hold for every order.
  \<^item> An \<^verbatim>\<open>int32\<close> value is an \<open>int\<close>; where the code computes with one, the wrap-around is written
    out with \<open>wrap32\<close>.
  \<^item> An \<^verbatim>\<open>error\<close> result is a sum: \<open>Inl\<close> carries the error, \<open>Inr\<close> the value.
\<close>

section \<open>Collections of facts\<close>

named_theorems map_facts \<open>lookups in Go maps after stores, deletes and filters\<close>
named_theorems result_facts \<open>success and failure of composed fallible steps\<close>

section \<open>Errors and results\<close>

text \<open>
  An error value. \<open>err_text\<close> is \<^verbatim>\<open>Error()\<close>. Wrapping with \<^verbatim>\<open>%w\<close> keeps the wrapped error reachable for
  \<^verbatim>\<open>errors.As\<close>: \<open>err_api\<close> is the code and the message of the API error in the chain, if there is one.
\<close>

record go_error =
  err_text :: string
  err_api :: "(string \<times> string) option"

type_synonym 'a result = "go_error + 'a"

definition errorf :: "string \<Rightarrow> go_error" where
  "errorf msg = \<lparr>err_text = msg, err_api = None\<rparr>"

definition wrap_error :: "string \<Rightarrow> go_error \<Rightarrow> go_error" where
  "wrap_error what e = e\<lparr>err_text := what @ '': '' @ err_text e\<rparr>"

lemma errorf_fields [simp]: "err_text (errorf m) = m" "err_api (errorf m) = None"
  by (simp_all add: errorf_def)

lemma wrap_error_fields [simp]:
  "err_text (wrap_error p e) = p @ '': '' @ err_text e"
  "err_api (wrap_error p e) = err_api e"
  by (simp_all add: wrap_error_def)

text \<open>The statement sequence of Go with the check \<^verbatim>\<open>if err != nil { return err }\<close> in between.\<close>

definition rbind :: "'e + 'a \<Rightarrow> ('a \<Rightarrow> 'e + 'b) \<Rightarrow> 'e + 'b" where
  "rbind m f = (case m of Inl e \<Rightarrow> Inl e | Inr x \<Rightarrow> f x)"

lemma rbind_simps [simp]: "rbind (Inl e) f = Inl e" "rbind (Inr x) f = f x"
  by (simp_all add: rbind_def)

lemma rbind_Inr_iff [result_facts]:
  "rbind m f = Inr y \<longleftrightarrow> (\<exists>x. m = Inr x \<and> f x = Inr y)"
  by (cases m) auto

lemma rbind_Inl_iff [result_facts]:
  "rbind m f = Inl e \<longleftrightarrow> m = Inl e \<or> (\<exists>x. m = Inr x \<and> f x = Inl e)"
  by (cases m) auto

definition is_ok :: "'e + 'a \<Rightarrow> bool" where
  "is_ok m = (case m of Inl _ \<Rightarrow> False | Inr _ \<Rightarrow> True)"

lemma is_ok_simps [simp]: "is_ok (Inl e) = False" "is_ok (Inr x) = True"
  by (simp_all add: is_ok_def)

lemma is_ok_iff: "is_ok m \<longleftrightarrow> (\<exists>x. m = Inr x)"
  by (cases m) auto

section \<open>Effects\<close>

text \<open>
  Code with effects passes the state of its environment explicitly. \<open>act\<close> is the type of a step that
  returns only an \<^verbatim>\<open>error\<close> (\<open>None\<close> is \<^verbatim>\<open>nil\<close>). \<open>act_then\<close> is sequencing with an early return on an
  error; \<open>act_each\<close> is a \<^verbatim>\<open>range\<close> loop whose body returns on an error.
\<close>

type_synonym 'w act = "'w \<Rightarrow> go_error option \<times> 'w"

definition act_skip :: "'w act" where
  "act_skip w = (None, w)"

definition act_then :: "'w act \<Rightarrow> 'w act \<Rightarrow> 'w act" where
  "act_then f g w = (case f w of (Some e, w') \<Rightarrow> (Some e, w') | (None, w') \<Rightarrow> g w')"

fun act_each :: "('a \<Rightarrow> 'w act) \<Rightarrow> 'a list \<Rightarrow> 'w act" where
  "act_each f [] w = (None, w)"
| "act_each f (x # xs) w =
     (case f x w of (Some e, w') \<Rightarrow> (Some e, w') | (None, w') \<Rightarrow> act_each f xs w')"

lemma act_each_invariant:
  assumes "\<And>x w. x \<in> set xs \<Longrightarrow> P w \<Longrightarrow> P (snd (f x w))" "P w"
  shows "P (snd (act_each f xs w))"
  using assms
proof (induction xs arbitrary: w)
  case (Cons x xs)
  obtain e w' where fx: "f x w = (e, w')" by force
  have "P w'" using Cons.prems(1) [of x w] Cons.prems(2) fx by simp
  then have "P (snd (act_each f xs w'))" by (intro Cons.IH Cons.prems(1)) simp_all
  then show ?case using fx \<open>P w'\<close> by (cases e) simp_all
qed simp

lemma act_each_append:
  "act_each f (xs @ ys) w = act_then (act_each f xs) (act_each f ys) w"
  by (induction xs arbitrary: w) (auto simp: act_then_def split: prod.splits option.splits)

section \<open>Machine integers\<close>

definition max_int32 :: int where "max_int32 = 2147483647"

definition wrap32 :: "int \<Rightarrow> int" where
  "wrap32 x = (x + 2147483648) mod 4294967296 - 2147483648"

definition is_int32 :: "int \<Rightarrow> bool" where
  "is_int32 x \<longleftrightarrow> -2147483648 \<le> x \<and> x \<le> 2147483647"

lemma wrap32_id [simp]: "is_int32 x \<Longrightarrow> wrap32 x = x"
  by (simp add: wrap32_def is_int32_def)

lemma wrap32_range: "is_int32 (wrap32 x)"
proof -
  have "0 \<le> (x + 2147483648) mod 4294967296" "(x + 2147483648) mod 4294967296 < 4294967296"
    by simp_all
  then show ?thesis by (simp add: wrap32_def is_int32_def)
qed

lemma wrap32_succ: "is_int32 x \<Longrightarrow> x < max_int32 \<Longrightarrow> wrap32 (x + 1) = x + 1"
  by (rule wrap32_id) (simp add: is_int32_def max_int32_def)

section \<open>Go maps as association lists\<close>

type_synonym ('k, 'v) gomap = "('k \<times> 'v) list"

abbreviation wf_map :: "('k, 'v) gomap \<Rightarrow> bool" where
  "wf_map m \<equiv> distinct (map fst m)"

lemma map_of_update [map_facts]: "map_of (AList.update k v m) = (map_of m)(k \<mapsto> v)"
  by (rule ext) (simp add: update_conv')

lemma map_of_delete [map_facts]: "map_of (AList.delete k m) = (map_of m)(k := None)"
  by (rule ext) (simp add: delete_conv')

lemma wf_map_update [simp, intro]: "wf_map m \<Longrightarrow> wf_map (AList.update k v m)"
  by (rule distinct_update)

lemma wf_map_delete [simp, intro]: "wf_map m \<Longrightarrow> wf_map (AList.delete k m)"
  by (rule distinct_delete)

lemma wf_map_filter [simp, intro]: "wf_map m \<Longrightarrow> wf_map (filter P m)"
  by (induction m) auto

lemma map_of_Some_keys: "map_of m k = Some v \<Longrightarrow> k \<in> fst ` set m"
  by (force dest: map_of_SomeD)

lemma map_le_Some: "m \<subseteq>\<^sub>m m' \<Longrightarrow> m k = Some v \<Longrightarrow> m' k = Some v"
  by (force simp: map_le_def dom_def)

lemma update_new: "map_of m k = None \<Longrightarrow> AList.update k v m = m @ [(k, v)]"
  by (induction m) (auto split: if_splits)

lemma keys_update [map_facts]: "fst ` set (AList.update k v m) = insert k (fst ` set m)"
  using dom_update [of k v m] by (simp add: insert_is_Un [symmetric])

lemma map_of_filter_wf [map_facts]:
  "wf_map m \<Longrightarrow> map_of (filter (\<lambda>(k, v). P k v) m) k =
    (case map_of m k of None \<Rightarrow> None | Some v \<Rightarrow> if P k v then Some v else None)"
proof (induction m)
  case (Cons x m)
  then show ?case
    by (cases x) (auto split: option.splits simp: map_of_eq_None_iff image_iff)
qed simp

lemma length_wf_map: "wf_map m \<Longrightarrow> length m = card (dom (map_of m))"
  by (metis distinct_card dom_map_of_conv_image_fst length_map list.set_map)

lemma map_of_Some_in_ran: "map_of m k = Some v \<Longrightarrow> (k, v) \<in> set m"
  by (rule map_of_SomeD)

lemma map_of_None_keys: "map_of m k = None \<longleftrightarrow> k \<notin> fst ` set m"
  by (simp add: map_of_eq_None_iff)

text \<open>A loop of stores.\<close>

abbreviation store_all :: "('k \<times> 'v) list \<Rightarrow> ('k, 'v) gomap \<Rightarrow> ('k, 'v) gomap" where
  "store_all kvs m \<equiv> fold (\<lambda>(k, v). AList.update k v) kvs m"

lemma dom_store_all: "dom (map_of (store_all kvs m)) = fst ` set kvs \<union> dom (map_of m)"
  by (induction kvs arbitrary: m) (auto simp: map_of_update)

lemma store_all_lookup: "map_of (store_all kvs m) k = Some v \<Longrightarrow> (k, v) \<in> set kvs \<or> map_of m k = Some v"
  by (induction kvs arbitrary: m) (fastforce simp: map_of_update split: if_splits)+

lemma wf_store_all: "wf_map m \<Longrightarrow> wf_map (store_all kvs m)"
  by (induction kvs arbitrary: m) (auto simp: wf_map_update)

section \<open>Lists\<close>

text \<open>
  Keep the first occurrence of every key: the loop with a \<^verbatim>\<open>seen\<close> set that \<^verbatim>\<open>continue\<close>s on a key it
  has met. The second argument is the set of keys seen so far.
\<close>

fun dedupe_on :: "('a \<Rightarrow> 'k) \<Rightarrow> 'k list \<Rightarrow> 'a list \<Rightarrow> 'a list" where
  "dedupe_on key seen [] = []"
| "dedupe_on key seen (x # xs) =
     (if key x \<in> set seen then dedupe_on key seen xs
      else x # dedupe_on key (key x # seen) xs)"

lemma dedupe_on_keys:
  "key ` set (dedupe_on key seen xs) = key ` set xs - set seen"
  by (induction xs arbitrary: seen) auto

lemma dedupe_on_subset: "set (dedupe_on key seen xs) \<subseteq> set xs"
  by (induction xs arbitrary: seen) (auto split: if_splits)

lemma dedupe_on_distinct: "distinct (map key (dedupe_on key seen xs))"
proof (induction xs arbitrary: seen)
  case (Cons x xs)
  have "key x \<notin> key ` set (dedupe_on key (key x # seen) xs)"
    by (simp add: dedupe_on_keys)
  then show ?case using Cons by simp
qed simp

lemma dedupe_on_id:
  "distinct (map key xs) \<Longrightarrow> key ` set xs \<inter> set seen = {} \<Longrightarrow> dedupe_on key seen xs = xs"
  by (induction xs arbitrary: seen) auto

lemma dedupe_on_find:
  "k \<notin> set seen \<Longrightarrow> find (\<lambda>x. key x = k) (dedupe_on key seen xs) = find (\<lambda>x. key x = k) xs"
  by (induction xs arbitrary: seen) auto

lemma find_distinct_key:
  "distinct (map key xs) \<Longrightarrow> x \<in> set xs \<Longrightarrow> find (\<lambda>y. key y = key x) xs = Some x"
  by (induction xs) (auto simp: image_iff)

lemma find_Some_set: "find P xs = Some x \<Longrightarrow> x \<in> set xs \<and> P x"
  by (induction xs) (auto split: if_splits)

text \<open>The elements that have no entry in a map yet.\<close>

definition missing :: "('a \<Rightarrow> 'k) \<Rightarrow> ('k, 'v) gomap \<Rightarrow> 'a list \<Rightarrow> 'a list" where
  "missing key m xs = filter (\<lambda>x. map_of m (key x) = None) xs"

lemma missing_simps [simp]:
  "missing key m [] = []"
  "missing key m (x # xs) = (if map_of m (key x) = None then x # missing key m xs else missing key m xs)"
  by (simp_all add: missing_def)

lemma missing_update:
  assumes "k \<notin> key ` set xs"
  shows "missing key (AList.update k v m) xs = missing key m xs"
  unfolding missing_def using assms
  by (intro filter_cong) (auto simp: map_of_update image_iff)

lemma missing_length:
  assumes "wf_map m" "fst ` set m \<subseteq> key ` set xs" "distinct (map key xs)"
  shows "length m + length (missing key m xs) = length xs"
proof -
  let ?taken = "filter (\<lambda>x. \<not> map_of m (key x) = None) xs"
  have "key ` {x \<in> set xs. key x \<in> K} = K" if "K \<subseteq> key ` set xs" for K
    using that by blast
  then have "set (map key ?taken) = fst ` set m"
    using assms(2) by (simp add: map_of_None_keys)
  moreover have "distinct (map key ?taken)"
    using assms(3) by (rule distinct_map_filter)
  ultimately have "length ?taken = card (fst ` set m)"
    by (metis distinct_card length_map)
  also have "\<dots> = length m"
    using assms(1) by (metis distinct_card length_map list.set_map)
  finally show ?thesis
    using sum_length_filter_compl [of "\<lambda>x. map_of m (key x) = None" xs]
    by (simp add: missing_def)
qed

lemma map_le_update: "map_of m k = None \<Longrightarrow> map_of m \<subseteq>\<^sub>m map_of (AList.update k v m)"
  by (simp add: map_le_def map_of_update dom_def)

text \<open>
  Sorting. \<^verbatim>\<open>slices.SortFunc\<close> and \<^verbatim>\<open>sort.Slice\<close> order by a comparison of keys; wherever the code sorts,
  the keys are distinct or equal elements are interchangeable, and then the sorted list is unique,
  whatever algorithm computed it. \<open>sort_key\<close> is the executable representative.
\<close>

lemma sort_key_unique:
  fixes f :: "'a \<Rightarrow> 'b::linorder"
  assumes "distinct (map f xs)" "mset ys = mset xs" "sorted (map f ys)"
  shows "ys = sort_key f xs"
proof -
  have sets: "set ys = set xs" using assms(2) by (metis set_mset_mset)
  have "mset (map f ys) = mset (map f xs)" using assms(2) by simp
  then have d: "distinct (map f ys)" using assms(1) by (metis mset_eq_imp_distinct_iff)
  have "map f ys = map f (sort_key f xs)"
  proof (rule sorted_distinct_set_unique)
    have "mset (map f (sort_key f xs)) = mset (map f xs)" by simp
    then show "distinct (map f (sort_key f xs))"
      using assms(1) by (metis mset_eq_imp_distinct_iff)
    show "set (map f ys) = set (map f (sort_key f xs))" by (simp add: sets)
  qed (simp_all add: assms(3) d)
  moreover have "inj_on f (set ys \<union> set (sort_key f xs))"
    using d by (simp add: sets distinct_map)
  ultimately show ?thesis by (metis map_inj_on)
qed

lemma sort_key_mset_cong:
  fixes f :: "'a \<Rightarrow> 'b::linorder"
  assumes "distinct (map f xs)" "mset ys = mset xs"
  shows "sort_key f ys = sort_key f xs"
  by (rule sort_key_unique [OF assms(1)]) (simp_all add: assms(2))

end
