(* ===== verification/Go_Strings.thy ===== *)
theory Go_Strings
  imports Prelude
begin

text \<open>
  The parts of Go's \<^verbatim>\<open>strings\<close>, \<^verbatim>\<open>strconv\<close> and \<^verbatim>\<open>fmt\<close> that the program uses, on byte strings.

  \<^item> \<open>trim_space\<close>: \<^verbatim>\<open>strings.TrimSpace\<close>, with every Unicode white-space rune as its UTF-8 bytes.
  \<^item> \<open>to_lower\<close>, \<open>to_upper\<close>, \<open>equal_fold\<close>: ASCII letters and the non-ASCII runes whose case mapping is
    an ASCII letter (U+0130, U+212A; U+0131, U+017F). Other non-ASCII runes are left as they are:
    the program compares the results with ASCII words only, and no other rune maps into ASCII.
  \<^item> \<open>show_int\<close>: the verb \<^verbatim>\<open>%d\<close>. The verb \<^verbatim>\<open>%q\<close> is in \<open>Go_Quote\<close>.

  The locale \<open>codec\<close> states what a printer with a parser promises; decimal numbers and quoted
  strings interpret it.
\<close>

section \<open>Printers with a parser\<close>

locale codec =
  fixes enc :: "'a \<Rightarrow> string" and dec :: "string \<Rightarrow> 'a option"
  assumes dec_enc: "dec (enc x) = Some x"
begin

lemma enc_inj: "enc x = enc y \<longleftrightarrow> x = y"
  by (metis dec_enc option.inject)

lemma enc_map_inj: "map enc xs = map enc ys \<longleftrightarrow> xs = ys"
  by (simp add: inj_map_eq_map inj_on_def enc_inj)

end

section \<open>Decimal numbers\<close>

definition digit_char :: "nat \<Rightarrow> char" where
  "digit_char d = char_of (48 + d)"

fun show_nat :: "nat \<Rightarrow> string" where
  "show_nat n = (if n < 10 then [digit_char n] else show_nat (n div 10) @ [digit_char (n mod 10)])"

declare show_nat.simps [simp del]

definition show_int :: "int \<Rightarrow> string" where
  "show_int i = (if i < 0 then CHR ''-'' # show_nat (nat (- i)) else show_nat (nat i))"

definition is_digit :: "char \<Rightarrow> bool" where
  "is_digit c \<longleftrightarrow> 48 \<le> (of_char c :: nat) \<and> (of_char c :: nat) \<le> 57"

definition digits_value :: "string \<Rightarrow> nat" where
  "digits_value s = foldl (\<lambda>a c. 10 * a + (of_char c - 48)) 0 s"

definition parse_nat :: "string \<Rightarrow> nat option" where
  "parse_nat s = (if s \<noteq> [] \<and> list_all is_digit s then Some (digits_value s) else None)"

definition parse_int :: "string \<Rightarrow> int option" where
  "parse_int s = (case s of
      [] \<Rightarrow> None
    | c # t \<Rightarrow> if c = CHR ''-'' then map_option (\<lambda>n. - int n) (parse_nat t)
               else map_option int (parse_nat s))"

lemma digit_char_value: "d < 10 \<Longrightarrow> (of_char (digit_char d) :: nat) = 48 + d"
  by (simp add: digit_char_def)

lemma digit_char_is_digit [simp]: "d < 10 \<Longrightarrow> is_digit (digit_char d)"
  by (simp add: is_digit_def digit_char_value)

lemma show_nat_digits: "show_nat n \<noteq> [] \<and> list_all is_digit (show_nat n)"
proof (induction n rule: show_nat.induct)
  case (1 n)
  then show ?case
    by (subst (1 2) show_nat.simps) simp
qed

lemma digits_value_show_nat: "digits_value (show_nat n) = n"
proof (induction n rule: show_nat.induct)
  case (1 n)
  then show ?case
    by (subst show_nat.simps) (simp add: digits_value_def digit_char_value)
qed

lemma parse_show_nat: "parse_nat (show_nat n) = Some n"
  by (simp add: parse_nat_def show_nat_digits digits_value_show_nat)

lemma show_nat_head: "\<exists>c s. show_nat n = c # s \<and> is_digit c"
  using show_nat_digits [of n] by (cases "show_nat n") auto

lemma parse_show_int: "parse_int (show_int i) = Some i"
proof (cases "i < 0")
  case True
  then show ?thesis by (simp add: show_int_def parse_int_def parse_show_nat)
next
  case False
  obtain c s where cs: "show_nat (nat i) = c # s" "is_digit c"
    using show_nat_head by blast
  have "c \<noteq> CHR ''-''" using cs(2) by (auto simp: is_digit_def)
  then show ?thesis using False cs(1) parse_show_nat [of "nat i"]
    by (simp add: show_int_def parse_int_def)
qed

interpretation decimal: codec show_int parse_int
  by unfold_locales (rule parse_show_int)

lemma show_int_nonempty [simp]: "show_int i \<noteq> []"
  using show_nat_digits by (simp add: show_int_def)

section \<open>White space and letter case\<close>

function trim_prefixes :: "string list \<Rightarrow> string \<Rightarrow> string" where
  "trim_prefixes W s = (case find (\<lambda>w. w \<noteq> [] \<and> prefix w s) W of
      None \<Rightarrow> s
    | Some w \<Rightarrow> trim_prefixes W (drop (length w) s))"
  by pat_completeness auto
termination
proof (relation "measure (\<lambda>(W, s). length s)", goal_cases)
  case (2 W s w)
  then have "w \<noteq> [] \<and> prefix w s" by (auto dest: find_Some_set)
  then show ?case by (cases s) (auto simp: prefix_def)
qed simp

declare trim_prefixes.simps [simp del]

lemma trim_prefixes_suffix: "suffix (trim_prefixes W s) s"
proof (induction W s rule: trim_prefixes.induct)
  case (1 W s)
  show ?case
  proof (cases "find (\<lambda>w. w \<noteq> [] \<and> prefix w s) W")
    case None
    then show ?thesis by (subst trim_prefixes.simps) simp
  next
    case (Some w)
    with 1 show ?thesis
      by (subst trim_prefixes.simps) (simp add: suffix_order.trans [OF _ suffix_drop])
  qed
qed

lemma trim_prefixes_stop: "w \<in> set W \<Longrightarrow> w \<noteq> [] \<Longrightarrow> \<not> prefix w (trim_prefixes W s)"
proof (induction W s rule: trim_prefixes.induct)
  case (1 W s)
  show ?case
  proof (cases "find (\<lambda>w. w \<noteq> [] \<and> prefix w s) W")
    case None
    then have "trim_prefixes W s = s" by (subst trim_prefixes.simps) simp
    with 1 None show ?thesis by (auto simp: find_None_iff)
  next
    case (Some w')
    with 1 show ?thesis by (subst trim_prefixes.simps) simp
  qed
qed

lemma trim_prefixes_id:
  "(\<And>w. w \<in> set W \<Longrightarrow> w \<noteq> [] \<Longrightarrow> \<not> prefix w s) \<Longrightarrow> trim_prefixes W s = s"
proof -
  assume "\<And>w. w \<in> set W \<Longrightarrow> w \<noteq> [] \<Longrightarrow> \<not> prefix w s"
  then have "find (\<lambda>w. w \<noteq> [] \<and> prefix w s) W = None" by (auto simp: find_None_iff)
  then show ?thesis by (subst trim_prefixes.simps) simp
qed

definition white_space :: "string list" where
  "white_space =
    [[CHR 0x20], [CHR 0x09], [CHR 0x0A], [CHR 0x0B], [CHR 0x0C], [CHR 0x0D],
     [CHR 0xC2, CHR 0x85], [CHR 0xC2, CHR 0xA0], [CHR 0xE1, CHR 0x9A, CHR 0x80],
     [CHR 0xE2, CHR 0x80, CHR 0x80], [CHR 0xE2, CHR 0x80, CHR 0x81],
     [CHR 0xE2, CHR 0x80, CHR 0x82], [CHR 0xE2, CHR 0x80, CHR 0x83],
     [CHR 0xE2, CHR 0x80, CHR 0x84], [CHR 0xE2, CHR 0x80, CHR 0x85],
     [CHR 0xE2, CHR 0x80, CHR 0x86], [CHR 0xE2, CHR 0x80, CHR 0x87],
     [CHR 0xE2, CHR 0x80, CHR 0x88], [CHR 0xE2, CHR 0x80, CHR 0x89],
     [CHR 0xE2, CHR 0x80, CHR 0x8A], [CHR 0xE2, CHR 0x80, CHR 0xA8],
     [CHR 0xE2, CHR 0x80, CHR 0xA9], [CHR 0xE2, CHR 0x80, CHR 0xAF],
     [CHR 0xE2, CHR 0x81, CHR 0x9F], [CHR 0xE3, CHR 0x80, CHR 0x80]]"

definition trim_left :: "string \<Rightarrow> string" where
  "trim_left s = trim_prefixes white_space s"

definition trim_right :: "string \<Rightarrow> string" where
  "trim_right s = rev (trim_prefixes (map rev white_space) (rev s))"

definition trim_space :: "string \<Rightarrow> string" where
  "trim_space s = trim_right (trim_left s)"

lemma trim_right_prefix: "prefix (trim_right s) s"
  using trim_prefixes_suffix [of "map rev white_space" "rev s"]
  by (simp add: trim_right_def suffix_to_prefix)

lemma trim_right_stop:
  "w \<in> set white_space \<Longrightarrow> w \<noteq> [] \<Longrightarrow> \<not> suffix w (trim_right s)"
  using trim_prefixes_stop [of "rev w" "map rev white_space" "rev s"]
  by (simp add: trim_right_def suffix_to_prefix)

lemma trim_space_starts:
  assumes "w \<in> set white_space" "w \<noteq> []"
  shows "\<not> prefix w (trim_space s)"
proof
  assume "prefix w (trim_space s)"
  then have "prefix w (trim_left s)"
    unfolding trim_space_def by (rule prefix_order.trans [OF _ trim_right_prefix])
  then show False using assms trim_prefixes_stop unfolding trim_left_def by blast
qed

lemma trim_space_id:
  assumes "\<And>w. w \<in> set white_space \<Longrightarrow> w \<noteq> [] \<Longrightarrow> \<not> prefix w s \<and> \<not> suffix w s"
  shows "trim_space s = s"
proof -
  have l: "trim_left s = s" unfolding trim_left_def
    by (rule trim_prefixes_id) (use assms in blast)
  have "trim_prefixes (map rev white_space) (rev s) = rev s"
  proof (rule trim_prefixes_id)
    fix w assume "w \<in> set (map rev white_space)" "w \<noteq> []"
    then obtain v where "v \<in> set white_space" "w = rev v" "v \<noteq> []" by auto
    then show "\<not> prefix w (rev s)" using assms [of v] by (simp add: suffix_to_prefix)
  qed
  then show ?thesis by (simp add: trim_space_def l trim_right_def)
qed

lemma trim_space_idem [simp]: "trim_space (trim_space s) = trim_space s"
  by (rule trim_space_id)
    (use trim_space_starts trim_right_stop [of _ "trim_left s"] in \<open>simp add: trim_space_def\<close>)

lemma trim_space_Nil [simp]: "trim_space [] = []"
  by (rule trim_space_id) simp

lemma trim_space_length: "length (trim_space s) \<le> length s"
proof -
  have "length (trim_space s) \<le> length (trim_left s)"
    unfolding trim_space_def by (rule prefix_length_le [OF trim_right_prefix])
  also have "\<dots> \<le> length s"
    unfolding trim_left_def by (rule suffix_length_le [OF trim_prefixes_suffix])
  finally show ?thesis .
qed

text \<open>A string that starts with a character of no white space sequence is not trimmed away.\<close>

lemma trim_prefixes_last:
  "\<forall>w \<in> set W. c \<notin> set w \<Longrightarrow> trim_prefixes W (xs @ [c]) \<noteq> []"
proof (induction W "xs @ [c]" arbitrary: xs rule: trim_prefixes.induct)
  case (1 W)
  show ?case
  proof (cases "find (\<lambda>w. w \<noteq> [] \<and> prefix w (xs @ [c])) W")
    case None
    then show ?thesis by (subst trim_prefixes.simps) simp
  next
    case (Some w)
    then have w: "w \<in> set W" "prefix w (xs @ [c])" using find_Some_set [OF Some] by simp_all
    then have "prefix w xs" using 1(2) by (auto simp: prefix_snoc)
    then obtain ys where "xs = w @ ys" by (rule prefixE)
    then have "drop (length w) (xs @ [c]) = ys @ [c]" by simp
    with 1(1) [OF Some this] 1(2) Some show ?thesis by (subst trim_prefixes.simps) simp
  qed
qed

lemma trim_space_starts_solid:
  assumes "\<forall>w \<in> set white_space. c \<notin> set w"
  shows "trim_space (c # s) \<noteq> []"
proof -
  have "trim_left (c # s) = c # s"
    unfolding trim_left_def using assms by (intro trim_prefixes_id) (auto simp: prefix_Cons)
  then show ?thesis
    using trim_prefixes_last [of "map rev white_space" c "rev s"] assms
    by (simp add: trim_space_def trim_right_def)
qed

abbreviation blank :: "string \<Rightarrow> bool" where
  "blank s \<equiv> trim_space s = []"

lemma not_blank_nonempty: "\<not> blank s \<Longrightarrow> s \<noteq> []"
  by auto

text \<open>Text search and replacement.\<close>

function replace_all :: "string \<Rightarrow> string \<Rightarrow> string \<Rightarrow> string" where
  "replace_all old new [] = []"
| "replace_all old new (c # s) =
     (if old \<noteq> [] \<and> prefix old (c # s) then new @ replace_all old new (drop (length old) (c # s))
      else c # replace_all old new s)"
  by pat_completeness auto
termination
  by (relation "measure (\<lambda>(old, new, s). length s)") auto

abbreviation contains :: "string \<Rightarrow> string \<Rightarrow> bool" where
  "contains s part \<equiv> sublist part s"

definition trim_char :: "char \<Rightarrow> string \<Rightarrow> string" where
  "trim_char c s = rev (dropWhile (\<lambda>x. x = c) (rev (dropWhile (\<lambda>x. x = c) s)))"

definition trim_right_char :: "char \<Rightarrow> string \<Rightarrow> string" where
  "trim_right_char c s = rev (dropWhile (\<lambda>x. x = c) (rev s))"

definition last_index :: "string \<Rightarrow> char \<Rightarrow> int" where
  "last_index s c =
     (if c \<in> set s then int (length s) - 1 - int (length (takeWhile (\<lambda>x. x \<noteq> c) (rev s))) else -1)"

fun join :: "string \<Rightarrow> string list \<Rightarrow> string" where
  "join sep [] = []"
| "join sep [x] = x"
| "join sep (x # y # xs) = x @ sep @ join sep (y # xs)"

definition ascii_lower :: "char \<Rightarrow> char" where
  "ascii_lower c = (if 65 \<le> (of_char c :: nat) \<and> (of_char c :: nat) \<le> 90
                    then char_of ((of_char c :: nat) + 32) else c)"

definition ascii_upper :: "char \<Rightarrow> char" where
  "ascii_upper c = (if 97 \<le> (of_char c :: nat) \<and> (of_char c :: nat) \<le> 122
                    then char_of ((of_char c :: nat) - 32) else c)"

definition to_lower :: "string \<Rightarrow> string" where
  "to_lower s = map ascii_lower
     (replace_all [CHR 0xE2, CHR 0x84, CHR 0xAA] ''k''
       (replace_all [CHR 0xC4, CHR 0xB0] ''i'' s))"

definition to_upper :: "string \<Rightarrow> string" where
  "to_upper s = map ascii_upper
     (replace_all [CHR 0xC5, CHR 0xBF] ''S'' (replace_all [CHR 0xC4, CHR 0xB1] ''I'' s))"

definition fold_case :: "string \<Rightarrow> string" where
  "fold_case s = map ascii_lower
     (replace_all [CHR 0xE2, CHR 0x84, CHR 0xAA] ''k''
       (replace_all [CHR 0xC5, CHR 0xBF] ''s'' s))"

definition equal_fold :: "string \<Rightarrow> string \<Rightarrow> bool" where
  "equal_fold s t \<longleftrightarrow> fold_case s = fold_case t"

section \<open>Quoted strings\<close>

definition hex_digit :: "nat \<Rightarrow> char" where
  "hex_digit n = (if n < 10 then char_of (48 + n) else char_of (87 + n))"

definition hex_value :: "char \<Rightarrow> nat option" where
  "hex_value c = (let n = (of_char c :: nat) in
     if 48 \<le> n \<and> n \<le> 57 then Some (n - 48)
     else if 97 \<le> n \<and> n \<le> 102 then Some (n - 87) else None)"

definition hex_byte :: "nat \<Rightarrow> string" where
  "hex_byte n = [hex_digit (n div 16), hex_digit (n mod 16)]"

lemma hex_value_digit: "n < 16 \<Longrightarrow> hex_value (hex_digit n) = Some n"
  by (auto simp: hex_value_def hex_digit_def Let_def)

end
