(* ===== verification/Go_Quote.thy ===== *)
theory Go_Quote
  imports Go_Strings Unicode_Print
begin

text \<open>
  The verb \<^verbatim>\<open>%q\<close> of \<^verbatim>\<open>fmt\<close> on strings, which is \<^verbatim>\<open>strconv.Quote\<close>: the string is read rune by rune as UTF-8.
  Quotes, backslashes and the control characters with a letter of their own are escaped with a backslash,
  printable runes are copied, other runes are written as \<^verbatim>\<open>\x\<close>, \<^verbatim>\<open>\u\<close> or \<^verbatim>\<open>\U\<close> with 2, 4 or 8 digits, and a byte
  that is not part of a UTF-8 sequence as \<^verbatim>\<open>\x\<close>. \<open>unquote\<close> reads such a text back: the part of
  \<^verbatim>\<open>strconv.Unquote\<close> for the escapes that quoting writes.
\<close>

section \<open>Runes\<close>

text \<open>
  The first rune of a list of bytes and its length, as \<^verbatim>\<open>utf8.DecodeRune\<close> finds them: no overlong forms, no
  surrogates, nothing beyond U+10FFFF. \<open>None\<close> stands for \<^verbatim>\<open>RuneError\<close> with the length 1.
\<close>

definition is_continuation :: "nat \<Rightarrow> bool" where
  "is_continuation b \<longleftrightarrow> 0x80 \<le> b \<and> b \<le> 0xBF"

definition decode_rune :: "nat list \<Rightarrow> (nat \<times> nat) option" where
  "decode_rune bs = (case bs of
      [] \<Rightarrow> None
    | a # rest \<Rightarrow>
        if a < 0x80 then Some (a, 1)
        else if 0xC2 \<le> a \<and> a \<le> 0xDF then (case rest of
            b # _ \<Rightarrow> if is_continuation b then Some ((a - 0xC0) * 64 + (b - 0x80), 2) else None
          | _ \<Rightarrow> None)
        else if 0xE0 \<le> a \<and> a \<le> 0xEF then (case rest of
            b # c # _ \<Rightarrow>
              if is_continuation b \<and> is_continuation c \<and> (a = 0xE0 \<longrightarrow> 0xA0 \<le> b) \<and> (a = 0xED \<longrightarrow> b \<le> 0x9F)
              then Some ((a - 0xE0) * 4096 + (b - 0x80) * 64 + (c - 0x80), 3) else None
          | _ \<Rightarrow> None)
        else if 0xF0 \<le> a \<and> a \<le> 0xF4 then (case rest of
            b # c # d # _ \<Rightarrow>
              if is_continuation b \<and> is_continuation c \<and> is_continuation d \<and> (a = 0xF0 \<longrightarrow> 0x90 \<le> b) \<and> (a = 0xF4 \<longrightarrow> b \<le> 0x8F)
              then Some ((a - 0xF0) * 262144 + (b - 0x80) * 4096 + (c - 0x80) * 64 + (d - 0x80), 4) else None
          | _ \<Rightarrow> None)
        else None)"

definition encode_rune :: "nat \<Rightarrow> nat list" where
  "encode_rune r =
     (if r < 0x80 then [r]
      else if r < 0x800 then [0xC0 + r div 64, 0x80 + r mod 64]
      else if r < 0x10000 then [0xE0 + r div 4096, 0x80 + r div 64 mod 64, 0x80 + r mod 64]
      else [0xF0 + r div 262144, 0x80 + r div 4096 mod 64, 0x80 + r div 64 mod 64, 0x80 + r mod 64])"

lemma encode_decoded:
  assumes "decode_rune bs = Some (r, k)"
  shows "encode_rune r = take k bs \<and> 0 < k \<and> k \<le> length bs \<and> r < 0x110000"
proof -
  obtain a rest where bs: "bs = a # rest" using assms by (cases bs) (simp_all add: decode_rune_def)
  consider (one) "a < 0x80" "r = a" "k = 1"
    | (two) b s where "rest = b # s" "0xC2 \<le> a" "a \<le> 0xDF" "is_continuation b" "r = (a - 0xC0) * 64 + (b - 0x80)" "k = 2"
    | (three) b c s where "rest = b # c # s" "0xE0 \<le> a" "a \<le> 0xEF" "is_continuation b" "is_continuation c" "a = 0xE0 \<longrightarrow> 0xA0 \<le> b"
        "r = (a - 0xE0) * 4096 + (b - 0x80) * 64 + (c - 0x80)" "k = 3"
    | (four) b c d s where "rest = b # c # d # s" "0xF0 \<le> a" "a \<le> 0xF4" "is_continuation b" "is_continuation c" "is_continuation d"
        "a = 0xF0 \<longrightarrow> 0x90 \<le> b" "a = 0xF4 \<longrightarrow> b \<le> 0x8F"
        "r = (a - 0xF0) * 262144 + (b - 0x80) * 4096 + (c - 0x80) * 64 + (d - 0x80)" "k = 4"
    using assms unfolding bs decode_rune_def by (auto split: if_splits list.splits)
  then show ?thesis
  proof cases
    case one
    then show ?thesis by (simp add: bs encode_rune_def)
  next
    case two
    then obtain x y where "a = 0xC0 + x" "b = 0x80 + y" "y < 64" "2 \<le> x" "x < 32"
      by (auto simp: is_continuation_def le_iff_add)
    then show ?thesis using two(1,5,6) by (simp add: bs encode_rune_def)
  next
    case three
    then obtain x y z where xyz: "a = 0xE0 + x" "b = 0x80 + y" "c = 0x80 + z" "y < 64" "z < 64" "x < 16"
      by (auto simp: is_continuation_def le_iff_add)
    have "x = 0 \<longrightarrow> 32 \<le> y" using three(6) xyz by auto
    then have "0x800 \<le> r" "r < 0x10000" "r div 4096 = x" "r div 64 = x * 64 + y"
      using xyz three(7) by auto
    moreover have "r = (x * 64 + y) * 64 + z" using xyz three(7) by simp
    then have "r mod 64 = z" using xyz(5) by (simp only: mod_mult_self3 mod_less)
    moreover note xyz
    ultimately have "0x800 \<le> r" "r < 0x10000" "r div 4096 = x" "r div 64 mod 64 = y" "r mod 64 = z"
      by simp_all
    then show ?thesis using three(1,8) xyz by (simp add: bs encode_rune_def)
  next
    case four
    then obtain x y z u where xyz: "a = 0xF0 + x" "b = 0x80 + y" "c = 0x80 + z" "d = 0x80 + u" "y < 64" "z < 64" "u < 64" "x < 5"
      by (auto simp: is_continuation_def le_iff_add)
    have "x = 0 \<longrightarrow> 16 \<le> y" "x = 4 \<longrightarrow> y < 16" using four(7,8) xyz by auto
    then have "0x10000 \<le> r" "r < 0x110000" "r div 262144 = x" "r div 4096 = x * 64 + y"
      "r div 64 = (x * 64 + y) * 64 + z"
      using xyz four(9) by auto
    moreover have "r = ((x * 64 + y) * 64 + z) * 64 + u" using xyz four(9) by simp
    then have "r mod 64 = u" using xyz(7) by (simp only: mod_mult_self3 mod_less)
    moreover have "((x * 64 + y) * 64 + z) mod 64 = z" using xyz(6) by (simp only: mod_mult_self3 mod_less)
    moreover note xyz
    ultimately have "0x10000 \<le> r" "r < 0x110000" "r div 262144 = x" "r div 4096 mod 64 = y" "r div 64 mod 64 = z" "r mod 64 = u"
      by simp_all
    then show ?thesis using four(1,10) xyz by (simp add: bs encode_rune_def)
  qed
qed

lemma decoded_bytes:
  assumes "decode_rune bs = Some (r, k)" "0x80 \<le> hd bs"
  shows "\<forall>b \<in> set (take k bs). 0x80 \<le> b"
proof -
  obtain a rest where bs: "bs = a # rest" using assms by (cases bs) (simp_all add: decode_rune_def)
  then show ?thesis
    using assms by (auto simp: decode_rune_def is_continuation_def split: if_splits list.splits)
qed

section \<open>Digits\<close>

text \<open>A number in \<open>k\<close> hexadecimal digits, and back.\<close>

fun hex_digits :: "nat \<Rightarrow> nat \<Rightarrow> string" where
  "hex_digits 0 n = []"
| "hex_digits (Suc k) n = hex_digit (n div 16 ^ k mod 16) # hex_digits k n"

fun read_hex :: "nat \<Rightarrow> nat \<Rightarrow> string \<Rightarrow> (nat \<times> string) option" where
  "read_hex 0 n s = Some (n, s)"
| "read_hex (Suc k) n [] = None"
| "read_hex (Suc k) n (c # s) = (case hex_value c of None \<Rightarrow> None | Some d \<Rightarrow> read_hex k (16 * n + d) s)"

lemma read_hex_length: "read_hex k n s = Some (m, t) \<Longrightarrow> length t \<le> length s"
  by (induction k n s rule: read_hex.induct) (auto split: option.splits)

lemma read_hex_digits: "read_hex k a (hex_digits k n @ t) = Some (a * 16 ^ k + n mod 16 ^ k, t)"
proof (induction k arbitrary: a)
  case (Suc k)
  have "n mod (16 ^ k * 16) = 16 ^ k * (n div 16 ^ k mod 16) + n mod 16 ^ k" by (rule mod_mult2_eq)
  then show ?case by (simp add: Suc.IH hex_value_digit algebra_simps)
qed simp

lemma hex_digits_line: "CHR 0x0A \<notin> set (hex_digits k n)"
proof (induction k)
  case (Suc k)
  have "hex_value (hex_digit (n div 16 ^ k mod 16)) \<noteq> None" by (simp add: hex_value_digit)
  then have "hex_digit (n div 16 ^ k mod 16) \<noteq> CHR 0x0A" by (auto simp: hex_value_def)
  with Suc show ?case by (simp add: eq_commute)
qed simp

section \<open>Quoting\<close>

text \<open>The characters with an escape of their own, and the letter of the escape.\<close>

definition escapes :: "(char \<times> char) list" where
  "escapes = [(CHR 0x22, CHR 0x22), (CHR 0x5C, CHR 0x5C), (CHR 0x07, CHR ''a''),
     (CHR 0x08, CHR ''b''), (CHR 0x0C, CHR ''f''), (CHR 0x0A, CHR ''n''), (CHR 0x0D, CHR ''r''),
     (CHR 0x09, CHR ''t''), (CHR 0x0B, CHR ''v'')]"

text \<open>A rune whose bytes are \<open>bs\<close>: \<^verbatim>\<open>appendEscapedRune\<close> of \<^verbatim>\<open>strconv\<close>.\<close>

definition quote_rune :: "nat \<Rightarrow> string \<Rightarrow> string" where
  "quote_rune r bs =
     (case (if r < 0x80 then map_of escapes (char_of r) else None) of
        Some e \<Rightarrow> [CHR 0x5C, e]
      | None \<Rightarrow>
          if is_print r then bs
          else if r < 0x20 \<or> r = 0x7F then CHR 0x5C # CHR ''x'' # hex_digits 2 r
          else if r < 0x10000 then CHR 0x5C # CHR ''u'' # hex_digits 4 r
          else CHR 0x5C # CHR ''U'' # hex_digits 8 r)"

fun quote_body :: "string \<Rightarrow> string" where
  "quote_body [] = []"
| "quote_body (c # s) =
     (case decode_rune (map of_char (take 4 (c # s))) of
        None \<Rightarrow> CHR 0x5C # CHR ''x'' # hex_digits 2 (of_char c) @ quote_body s
      | Some (r, k) \<Rightarrow> quote_rune r (take k (c # s)) @ quote_body (drop (k - 1) s))"

definition quote :: "string \<Rightarrow> string" where
  "quote s = CHR 0x22 # quote_body s @ [CHR 0x22]"

text \<open>The number of digits after the letter of an escape.\<close>

definition escape_digits :: "char \<Rightarrow> nat option" where
  "escape_digits c = map_of [(CHR ''x'', 2), (CHR ''u'', 4), (CHR ''U'', 8)] c"

function unquote_body :: "string \<Rightarrow> string option" where
  "unquote_body [] = None"
| "unquote_body (c # s) =
     (if c = CHR 0x22 then (if s = [] then Some [] else None)
      else if c \<noteq> CHR 0x5C then map_option (\<lambda>r. c # r) (unquote_body s)
      else (case s of
          [] \<Rightarrow> None
        | d # t \<Rightarrow>
            (case map_of (map (\<lambda>(a, b). (b, a)) escapes) d of
               Some e \<Rightarrow> map_option (\<lambda>r. e # r) (unquote_body t)
             | None \<Rightarrow>
                 (case escape_digits d of
                    None \<Rightarrow> None
                  | Some k \<Rightarrow>
                      (case read_hex k 0 t of
                         None \<Rightarrow> None
                       | Some (n, u) \<Rightarrow> map_option
                           (\<lambda>r. (if d = CHR ''x'' then [char_of n] else map char_of (encode_rune n)) @ r)
                           (unquote_body u))))))"
  by pat_completeness auto
termination
  by (relation "measure length") (auto dest: read_hex_length)

definition unquote :: "string \<Rightarrow> string option" where
  "unquote s = (case s of [] \<Rightarrow> None | c # t \<Rightarrow> if c = CHR 0x22 then unquote_body t else None)"

declare unquote_body.simps [simp del]

lemma unquote_plain:
  "c \<noteq> CHR 0x22 \<Longrightarrow> c \<noteq> CHR 0x5C \<Longrightarrow> unquote_body (c # s) = map_option (\<lambda>r. c # r) (unquote_body s)"
  by (simp add: unquote_body.simps)

lemma unquote_escape:
  "(c, e) \<in> set escapes \<Longrightarrow> unquote_body (CHR 0x5C # e # s) = map_option (\<lambda>r. c # r) (unquote_body s)"
  by (auto simp: unquote_body.simps escapes_def)

lemma unquote_digits:
  assumes "escape_digits d = Some k" "n < 16 ^ k"
  shows "unquote_body (CHR 0x5C # d # hex_digits k n @ s) =
    map_option (\<lambda>r. (if d = CHR ''x'' then [char_of n] else map char_of (encode_rune n)) @ r) (unquote_body s)"
proof -
  have "map_of (map (\<lambda>(a, b). (b, a)) escapes) d = None"
    using assms(1) by (auto simp: escape_digits_def escapes_def split: if_splits)
  then show ?thesis using assms by (simp add: unquote_body.simps read_hex_digits)
qed

lemma unquote_raw:
  "\<forall>c \<in> set bs. (0x80 :: nat) \<le> of_char c \<Longrightarrow> unquote_body (bs @ s) = map_option (\<lambda>r. bs @ r) (unquote_body s)"
proof (induction bs)
  case Nil
  show ?case by (simp add: option.map_ident)
next
  case (Cons c bs)
  then have "c \<noteq> CHR 0x22" "c \<noteq> CHR 0x5C" by auto
  with Cons show ?case by (simp add: unquote_plain option.map_comp comp_def)
qed

text \<open>Reading back what quoting wrote, rune by rune.\<close>

lemma map_char_of [simp]: "map (char_of :: nat \<Rightarrow> char) (map of_char s) = s"
  by (induction s) simp_all

lemma take_of_prefix: "k \<le> length (take m s) \<Longrightarrow> take k (take m s) = take k s \<and> k \<le> length s"
  by (simp add: min_absorb1)

lemma decoded_text:
  assumes "decode_rune (map of_char (take 4 s)) = Some (r, k)"
  shows "map char_of (encode_rune r) = take k s" "0 < k" "k \<le> length s" "r < 0x110000"
proof -
  have decoded: "encode_rune r = take k (map of_char (take 4 s))" "0 < k" "k \<le> length (take 4 s)" "r < 0x110000"
    using encode_decoded [OF assms] by simp_all
  then show "map char_of (encode_rune r) = take k s" "0 < k" "k \<le> length s" "r < 0x110000"
    using take_of_prefix [OF decoded(3)] by (simp_all add: take_map del: take_take)
qed

lemma decoded_ascii:
  assumes "decode_rune (map of_char (take 4 (c # s))) = Some (r, k)" "r < 0x80"
  shows "r = of_char c" "k = 1"
proof -
  have "length (encode_rune r) = 1" using assms(2) by (simp add: encode_rune_def)
  then have "length (take k (c # s)) = 1" using decoded_text(1) [OF assms(1)] by (metis length_map)
  then show k: "k = 1" using decoded_text(2,3) [OF assms(1)] by simp
  have "map char_of [r] = [c]" using decoded_text(1) [OF assms(1)] assms(2) k by (simp add: encode_rune_def)
  then show "r = of_char c" using assms(2) by (auto simp: of_char_of)
qed

lemma decoded_beyond_ascii:
  assumes "decode_rune (map of_char (take 4 s)) = Some (r, k)" "0x80 \<le> r"
  shows "\<forall>c \<in> set (take k s). (0x80 :: nat) \<le> of_char c"
proof -
  have "\<forall>b \<in> set (encode_rune r). 0x80 \<le> b" using assms(2) by (auto simp: encode_rune_def)
  moreover have "encode_rune r = take k (map of_char (take 4 s))"
    using encode_decoded [OF assms(1)] by simp
  moreover have "k \<le> length (take 4 s)" using encode_decoded [OF assms(1)] by simp
  then have "take k (map of_char (take 4 s)) = (map of_char (take k s) :: nat list)"
    using take_of_prefix [of k 4 s] by (simp add: take_map del: take_take)
  ultimately show ?thesis by auto
qed

lemma escape_of_digits [simp]:
  "escape_digits CHR ''x'' = Some 2" "escape_digits CHR ''u'' = Some 4" "escape_digits CHR ''U'' = Some 8"
  by (simp_all add: escape_digits_def)

lemma unquote_quote_rune:
  assumes "decode_rune (map of_char (take 4 (c # s))) = Some (r, k)"
  shows "unquote_body (quote_rune r (take k (c # s)) @ t) = map_option (\<lambda>x. take k (c # s) @ x) (unquote_body t)"
proof -
  note decoded = decoded_text [OF assms]
  consider (letter) e where "r < 0x80" "map_of escapes c = Some e"
    | (ascii) "r < 0x80" "map_of escapes c = None" | (beyond) "0x80 \<le> r"
    by fastforce
  then show ?thesis
  proof cases
    case letter
    then have "(c, e) \<in> set escapes" by (blast dest: map_of_SomeD)
    then show ?thesis using letter decoded_ascii [OF assms] by (simp add: quote_rune_def unquote_escape)
  next
    case ascii
    then have "c \<noteq> CHR 0x22" "c \<noteq> CHR 0x5C" by (auto simp: escapes_def)
    then show ?thesis using ascii decoded_ascii [OF assms]
      by (simp add: quote_rune_def unquote_plain unquote_digits encode_rune_def)
  next
    case beyond
    then show ?thesis using decoded decoded_beyond_ascii [OF assms]
      by (simp add: quote_rune_def unquote_raw unquote_digits)
  qed
qed

lemma unquote_quote_body: "unquote_body (quote_body s @ [CHR 0x22]) = Some s"
proof (induction s rule: quote_body.induct)
  case 1
  show ?case by (simp add: unquote_body.simps)
next
  case (2 c s)
  show ?case
  proof (cases "decode_rune (map of_char (take 4 (c # s)))")
    case None
    have "(of_char c :: nat) < 16 ^ 2" by simp
    with None 2(1) [OF None] show ?thesis by (simp add: unquote_digits del: take_Suc_Cons)
  next
    case (Some p)
    obtain r k where p: "p = (r, k)" by fastforce
    note decoded = Some [unfolded p]
    have "take k (c # s) @ drop (k - 1) s = c # s"
      using decoded_text(2) [OF decoded] by (cases k) simp_all
    then show ?thesis using decoded 2(2) [OF decoded refl]
      by (simp add: unquote_quote_rune [OF decoded] del: take_Suc_Cons)
  qed
qed

lemma unquote_quote: "unquote (quote s) = Some s"
  by (simp add: unquote_def quote_def unquote_quote_body)

interpretation quoted: codec quote unquote
  by unfold_locales (rule unquote_quote)

text \<open>A quoted string is one line.\<close>

lemma quote_rune_line:
  assumes "decode_rune (map of_char (take 4 (c # s))) = Some (r, k)"
  shows "CHR 0x0A \<notin> set (quote_rune r (take k (c # s)))"
proof (cases "r < 0x80")
  case True
  then show ?thesis using decoded_ascii [OF assms] hex_digits_line
    by (auto simp: quote_rune_def escapes_def split: if_splits)
next
  case False
  then have "CHR 0x0A \<notin> set (take k (c # s))" using decoded_beyond_ascii [OF assms] by auto
  with False show ?thesis using hex_digits_line by (auto simp: quote_rune_def)
qed

lemma quote_body_line: "CHR 0x0A \<notin> set (quote_body s)"
proof (induction s rule: quote_body.induct)
  case (2 c s)
  show ?case
  proof (cases "decode_rune (map of_char (take 4 (c # s)))")
    case None
    with 2(1) [OF None] hex_digits_line show ?thesis by (auto simp del: take_Suc_Cons)
  next
    case (Some p)
    obtain r k where p: "p = (r, k)" by fastforce
    note decoded = Some [unfolded p]
    show ?thesis using decoded 2(2) [OF decoded refl] quote_rune_line [OF decoded]
      by (simp del: take_Suc_Cons)
  qed
qed simp

lemma quote_line: "CHR 0x0A \<notin> set (quote s)"
  using quote_body_line by (auto simp: quote_def)

text \<open>A text of printable ASCII characters other than the quote and the backslash is quoted as it is.\<close>

definition plain_char :: "char \<Rightarrow> bool" where
  "plain_char c \<longleftrightarrow> 0x20 \<le> (of_char c :: nat) \<and> (of_char c :: nat) < 0x7F \<and> c \<noteq> CHR 0x22 \<and> c \<noteq> CHR 0x5C"

lemma quote_body_plain: "list_all plain_char s \<Longrightarrow> quote_body s = s"
proof (induction s)
  case (Cons c s)
  then have plain_char: "plain_char c" by simp
  then have c: "(of_char c :: nat) < 0x80" "is_print (of_char c)" by (simp_all add: plain_char_def is_print_def)
  have "(c, e) \<notin> set escapes" for e using plain_char by (auto simp: escapes_def plain_char_def)
  then have none: "map_of escapes c = None" by (metis map_of_SomeD not_None_eq)
  have "decode_rune (map of_char (take 4 (c # s))) = Some (of_char c, 1)"
    using c(1) by (simp add: decode_rune_def)
  moreover have "quote_rune (of_char c) [c] = [c]" using c none by (simp add: quote_rune_def)
  ultimately show ?case using Cons by simp
qed simp

lemma quote_plain: "list_all plain_char s \<Longrightarrow> quote s = CHR 0x22 # s @ [CHR 0x22]"
  by (simp add: quote_def quote_body_plain)

text \<open>
  Other examples: a printable rune beyond ASCII, which is copied; a no-break space, a zero width space and a
  byte that is not UTF-8, which are escaped.
\<close>

lemma hex_digits_2: "hex_digits 2 n = [hex_digit (n div 16 mod 16), hex_digit (n mod 16)]"
  by (simp add: numeral_2_eq_2)

lemma hex_digits_4:
  "hex_digits 4 n = [hex_digit (n div 4096 mod 16), hex_digit (n div 256 mod 16), hex_digit (n div 16 mod 16), hex_digit (n mod 16)]"
proof -
  have four: "(4 :: nat) = Suc (Suc (Suc (Suc 0)))" by simp
  show ?thesis unfolding four hex_digits.simps by simp
qed

lemma quote_examples:
  "quote [CHR 0xC3, CHR 0xA9] = [CHR 0x22, CHR 0xC3, CHR 0xA9, CHR 0x22]"
  "quote [CHR 0xC2, CHR 0xA0] = CHR 0x22 # CHR 0x5C # ''u00a0'' @ [CHR 0x22]"
  "quote [CHR 0xE2, CHR 0x80, CHR 0x8B] = CHR 0x22 # CHR 0x5C # ''u200b'' @ [CHR 0x22]"
  "quote [CHR 0xFF, CHR 0x0A] = CHR 0x22 # CHR 0x5C # ''xff'' @ [CHR 0x5C, CHR ''n'', CHR 0x22]"
  by (simp_all add: quote_def decode_rune_def is_continuation_def quote_rune_def is_print_def printable_ranges_def
    escapes_def hex_digit_def hex_digits_2 hex_digits_4 char_of_def bit_0)

end
