(* ===== verification/Sha256.thy ===== *)
theory Sha256
  imports Go_Strings "HOL-Library.Word"
begin

text \<open>
  Go's \<^verbatim>\<open>crypto/sha256\<close> (FIPS 180-4) and \<^verbatim>\<open>encoding/hex\<close>: the digest of a byte string and its
  lower-case hexadecimal text. The program uses both for the configuration hash of the agent, the
  hash of a resolved link, the image hash of an auto scaling group and the suffix of shortened
  resource names. The model computes the digest on 32-bit words; the published test vector of
  the standard is checked at the end.
\<close>

unbundle bit_operations_syntax

type_synonym word32 = "32 word"

definition round_constants :: "word32 list" where
  "round_constants =
    [1116352408, 1899447441, 3049323471, 3921009573, 961987163, 1508970993, 2453635748, 2870763221,
     3624381080, 310598401, 607225278, 1426881987, 1925078388, 2162078206, 2614888103, 3248222580,
     3835390401, 4022224774, 264347078, 604807628, 770255983, 1249150122, 1555081692, 1996064986,
     2554220882, 2821834349, 2952996808, 3210313671, 3336571891, 3584528711, 113926993, 338241895,
     666307205, 773529912, 1294757372, 1396182291, 1695183700, 1986661051, 2177026350, 2456956037,
     2730485921, 2820302411, 3259730800, 3345764771, 3516065817, 3600352804, 4094571909, 275423344,
     430227734, 506948616, 659060556, 883997877, 958139571, 1322822218, 1537002063, 1747873779,
     1955562222, 2024104815, 2227730452, 2361852424, 2428436474, 2756734187, 3204031479, 3329325298]"

definition initial_hash :: "word32 list" where
  "initial_hash =
    [1779033703, 3144134277, 1013904242, 2773480762, 1359893119, 2600822924, 528734635, 1541459225]"

definition big_sigma0 :: "word32 \<Rightarrow> word32" where
  "big_sigma0 x = word_rotr 2 x XOR word_rotr 13 x XOR word_rotr 22 x"

definition big_sigma1 :: "word32 \<Rightarrow> word32" where
  "big_sigma1 x = word_rotr 6 x XOR word_rotr 11 x XOR word_rotr 25 x"

definition small_sigma0 :: "word32 \<Rightarrow> word32" where
  "small_sigma0 x = word_rotr 7 x XOR word_rotr 18 x XOR drop_bit 3 x"

definition small_sigma1 :: "word32 \<Rightarrow> word32" where
  "small_sigma1 x = word_rotr 17 x XOR word_rotr 19 x XOR drop_bit 10 x"

definition ch_word :: "word32 \<Rightarrow> word32 \<Rightarrow> word32 \<Rightarrow> word32" where
  "ch_word x y z = (x AND y) XOR (NOT x AND z)"

definition maj_word :: "word32 \<Rightarrow> word32 \<Rightarrow> word32 \<Rightarrow> word32" where
  "maj_word x y z = (x AND y) XOR (x AND z) XOR (y AND z)"

text \<open>Padding: a one bit, zeros up to 56 bytes modulo 64, and the length in bits on 8 bytes.\<close>

fun bytes_be :: "nat \<Rightarrow> nat \<Rightarrow> nat list" where
  "bytes_be 0 n = []"
| "bytes_be (Suc k) n = bytes_be k (n div 256) @ [n mod 256]"

definition sha_padded :: "nat list \<Rightarrow> nat list" where
  "sha_padded m =
     m @ [128] @ replicate ((119 - length m mod 64) mod 64) 0 @ bytes_be 8 (8 * length m)"

fun words_be :: "nat list \<Rightarrow> word32 list" where
  "words_be (a # b # c # d # r) =
     word_of_nat (((a * 256 + b) * 256 + c) * 256 + d) # words_be r"
| "words_be _ = []"

text \<open>The message schedule, kept in reverse so that the sixteen latest words are in front.\<close>

fun schedule :: "nat \<Rightarrow> word32 list \<Rightarrow> word32 list" where
  "schedule 0 ws = rev ws"
| "schedule (Suc n) ws =
     schedule n ((small_sigma1 (ws ! 1) + ws ! 6 + small_sigma0 (ws ! 14) + ws ! 15) # ws)"

fun sha_shift :: "word32 list \<Rightarrow> word32 \<Rightarrow> word32 \<Rightarrow> word32 list" where
  "sha_shift [a, b, c, d, e, f, g, h] t1 t2 = [t1 + t2, a, b, c, d + t1, e, f, g]"
| "sha_shift s t1 t2 = s"

fun sha_round :: "word32 list \<Rightarrow> word32 \<times> word32 \<Rightarrow> word32 list" where
  "sha_round [a, b, c, d, e, f, g, h] (k, w) =
     sha_shift [a, b, c, d, e, f, g, h]
       (h + big_sigma1 e + ch_word e f g + k + w) (big_sigma0 a + maj_word a b c)"
| "sha_round s kw = s"

definition compress :: "word32 list \<Rightarrow> word32 list \<Rightarrow> word32 list" where
  "compress h block =
     map2 (+) h (foldl sha_round h (zip round_constants (schedule 48 (rev block))))"

function sha_blocks :: "word32 list \<Rightarrow> word32 list \<Rightarrow> word32 list" where
  "sha_blocks h ws = (if length ws < 16 then h else sha_blocks (compress h (take 16 ws)) (drop 16 ws))"
  by pat_completeness auto
termination
  by (relation "measure (\<lambda>(h, ws). length ws)") auto

declare sha_blocks.simps [simp del]

definition sum256 :: "string \<Rightarrow> string" where
  "sum256 s = map char_of (concat (map (\<lambda>w. bytes_be 4 (unat w))
      (sha_blocks initial_hash (words_be (sha_padded (map of_char s))))))"

definition hex_encode :: "string \<Rightarrow> string" where
  "hex_encode s = concat (map (\<lambda>c. hex_byte (of_char c)) s)"

section \<open>Length of a digest\<close>

lemma length_hex_encode [simp]: "length (hex_encode s) = 2 * length s"
  by (induction s) (simp_all add: hex_encode_def hex_byte_def)

lemma length_bytes_be [simp]: "length (bytes_be k n) = k"
  by (induction k arbitrary: n) auto

lemma length_sha_shift [simp]: "length (sha_shift s t1 t2) = length s"
  by (cases "(s, t1, t2)" rule: sha_shift.cases) simp_all

lemma length_sha_round [simp]: "length (sha_round s kw) = length s"
  by (cases "(s, kw)" rule: sha_round.cases) simp_all

lemma length_sha_rounds [simp]: "length (foldl sha_round s kws) = length s"
  by (induction kws arbitrary: s) auto

lemma length_sha_blocks [simp]: "length (sha_blocks h ws) = length h"
proof (induction h ws rule: sha_blocks.induct)
  case (1 h ws)
  then show ?case by (subst sha_blocks.simps) (simp add: compress_def)
qed

lemma length_sum256 [simp]: "length (sum256 s) = 32"
proof -
  have "length (concat (map (\<lambda>w. bytes_be 4 (unat w)) (ws :: word32 list))) = 4 * length ws" for ws
    by (induction ws) auto
  then show ?thesis by (simp add: sum256_def initial_hash_def)
qed

section \<open>Test vector of the standard\<close>

lemma sha_blocks_one:
  "length ws = 16 \<Longrightarrow> sha_blocks h ws = compress h ws"
  by (subst sha_blocks.simps, subst sha_blocks.simps) simp

lemma bytes_be_numeral:
  "bytes_be (numeral k) n = bytes_be (pred_numeral k) (n div 256) @ [n mod 256]"
  by (subst numeral_eq_Suc) (rule bytes_be.simps)

lemma replicate_numeral:
  "replicate (numeral k) x = x # replicate (pred_numeral k) x"
  by (subst numeral_eq_Suc) (rule replicate_Suc)

lemma padded_abc:
  "words_be (sha_padded (map of_char ''abc'')) = [0x61626380, 0, 0, 0, 0, 0, 0, 0, 0, 0, 0, 0, 0, 0, 0, 24]"
  by (simp add: sha_padded_def bytes_be_numeral replicate_numeral)

lemma compress_abc:
  "compress initial_hash [0x61626380, 0, 0, 0, 0, 0, 0, 0, 0, 0, 0, 0, 0, 0, 0, 24] =
     [0xba7816bf, 0x8f01cfea, 0x414140de, 0x5dae2223, 0xb00361a3, 0x96177a9c, 0xb410ff61, 0xf20015ad]"
  by code_simp

lemma sum256_abc:
  "map of_char (sum256 ''abc'') =
     [0xba, 0x78, 0x16, 0xbf, 0x8f, 0x01, 0xcf, 0xea, 0x41, 0x41, 0x40, 0xde, 0x5d, 0xae, 0x22, 0x23,
      0xb0, 0x03, 0x61, 0xa3, 0x96, 0x17, 0x7a, 0x9c, 0xb4, 0x10, 0xff, 0x61, 0xf2, 0x00, 0x15, 0xad :: nat]"
  unfolding sum256_def padded_abc
  by (simp add: sha_blocks_one compress_abc bytes_be_numeral)

end
