(* ===== verification/Api_Types.thy ===== *)
theory Api_Types
  imports Go_Quote
begin

text \<open>
  The API of package \<^verbatim>\<open>api/v1alpha1\<close>: the three custom resources as records, with the field names of
  the Go structs behind a short prefix, and the methods the package defines on them.

  Data of the Kubernetes libraries that the resources embed is kept as plain data: \<open>object_meta\<close> for
  \<^verbatim>\<open>metav1.ObjectMeta\<close>, \<open>condition\<close> for \<^verbatim>\<open>metav1.Condition\<close>, \<open>label_selector\<close> for \<^verbatim>\<open>metav1.LabelSelector\<close>,
  a byte string for \<^verbatim>\<open>runtime.RawExtension\<close> and a name for \<^verbatim>\<open>corev1.LocalObjectReference\<close>. A time is
  the number of nanoseconds since the zero time, which is 0. An optional pointer, and a slice or map
  whose nil value the code tells apart from the empty one, is an \<open>option\<close>.
\<close>

section \<open>Data\<close>

type_synonym time = int

record namespaced_name =
  nn_namespace :: string
  nn_name :: string

record object_meta =
  meta_name :: string
  meta_namespace :: string
  meta_uid :: string
  meta_generation :: int
  meta_deletion_timestamp :: "time option"
  meta_finalizers :: "string list"

record label_selector =
  sel_match_labels :: "(string, string) gomap"
  sel_match_expressions :: "(string \<times> string \<times> string list) list"

record condition =
  cond_type :: string
  cond_status :: string
  cond_generation :: int
  cond_transition :: time
  cond_reason :: string
  cond_message :: string

record object_reference =
  ref_name :: string
  ref_namespace :: string

record port_range =
  range_start :: int
  range_end :: int

record runtime_spec =
  rt_Image :: string
  rt_BaseImage :: string
  rt_Version :: string
  rt_Config :: "string option"
  rt_APIPort :: int
  rt_APIScheme :: string
  rt_ContainerName :: string
  rt_ConfigPath :: string
  rt_CertDir :: string
  rt_ExtraArgs :: "string list"

record scaling_spec =
  sc_MinReplicas :: "int option"
  sc_MaxReplicas :: "int option"

record placement_spec =
  pl_Region :: string
  pl_FailureDomains :: "string list"
  pl_SpreadPolicy :: string

record machine_spec =
  ms_Image :: string
  ms_Class :: string
  ms_IdentityRef :: string
  ms_SSHKeyName :: string

record network_spec =
  net_SubnetIDs :: "string list"
  net_SecurityGroupIDs :: "string list"

record resource_names_spec =
  rn_Group :: string
  rn_MachineTemplate :: string

record lb_exposure_spec =
  lbs_Name :: string
  lbs_Scope :: string
  lbs_LoadBalancerName :: string
  lbs_SubnetIDs :: "string list"

text \<open>\<open>None\<close> is the nil slice, for which the code substitutes a default; \<open>Some []\<close> disables exposure.\<close>

record exposure_spec =
  ex_LoadBalancers :: "lb_exposure_spec list option"

record remote_content_ref =
  rc_Backend :: string
  rc_Identifier :: string

record kubeconfig_bootstrap_spec =
  kc_Path :: string
  kc_Inline :: string
  kc_RemoteRef :: "remote_content_ref option"

record bootstrap_spec =
  bs_UserData :: string
  bs_Kubeconfig :: kubeconfig_bootstrap_spec

record lb_cloud_status =
  lcs_Name :: string
  lcs_Scope :: string
  lcs_LoadBalancerID :: string
  lcs_LoadBalancerAddress :: string

record cloud_status =
  cs_MachineGroupName :: string
  cs_MachineTemplateID :: string
  cs_MachineTemplateName :: string
  cs_MachineTemplateVer :: string
  cs_FrontendID :: string
  cs_FrontendAddress :: string
  cs_LoadBalancers :: "lb_cloud_status list"

record port_lb_cloud_status =
  pls_Name :: string
  pls_Scope :: string
  pls_LoadBalancerID :: string
  pls_LoadBalancerAddress :: string
  pls_ListenerID :: string
  pls_BackendID :: string

record port_cloud_status =
  pcs_FrontendID :: string
  pcs_FrontendAddress :: string
  pcs_ListenerID :: string
  pcs_BackendID :: string
  pcs_LoadBalancers :: "port_lb_cloud_status list"

definition empty_cloud_status :: cloud_status where
  "empty_cloud_status = \<lparr>cs_MachineGroupName = [], cs_MachineTemplateID = [],
     cs_MachineTemplateName = [], cs_MachineTemplateVer = [], cs_FrontendID = [],
     cs_FrontendAddress = [], cs_LoadBalancers = []\<rparr>"

definition empty_port_cloud_status :: port_cloud_status where
  "empty_port_cloud_status = \<lparr>pcs_FrontendID = [], pcs_FrontendAddress = [], pcs_ListenerID = [],
     pcs_BackendID = [], pcs_LoadBalancers = []\<rparr>"

record machine_group_spec =
  sp_Replicas :: "int option"
  sp_Scaling :: scaling_spec
  sp_Provider :: string
  sp_ProviderConfigRef :: "object_reference option"
  sp_PortRange :: port_range
  sp_LinkSelector :: "label_selector option"
  sp_Exposure :: exposure_spec
  sp_Placement :: placement_spec
  sp_ResourceNames :: resource_names_spec
  sp_Machine :: machine_spec
  sp_Network :: network_spec
  sp_Tags :: "(string, string) gomap"
  sp_Bootstrap :: bootstrap_spec
  sp_TiProxy :: runtime_spec

record resolved_link_status =
  rl_UID :: string
  rl_Name :: string
  rl_Namespace :: string
  rl_RouteNamespace :: string
  rl_FrontendUser :: string
  rl_Port :: int
  rl_ClusterName :: string
  rl_PDAddresses :: "string list"
  rl_NSServerAddr :: string
  rl_TLSSecretRef :: "string option"
  rl_ConfigHash :: string

record machine_status =
  mst_ObservedGeneration :: int
  mst_LastHeartbeatTime :: time
  mst_Phase :: string
  mst_ConfigHash :: string
  mst_TiProxyImage :: string
  mst_Message :: string

record machine_group_status =
  st_ObservedGeneration :: int
  st_AllocatedPorts :: "(string, int) gomap"
  st_ResolvedLinks :: "resolved_link_status list"
  st_Machines :: "(string, machine_status) gomap option"
  st_Cloud :: cloud_status
  st_Conditions :: "condition list"

record machine_group =
  mg_meta :: object_meta
  mg_Spec :: machine_group_spec
  mg_Status :: machine_group_status

record machine_port_spec =
  mps_MachineGroupRef :: object_reference
  mps_RequestedPort :: "int option"
  mps_Protocol :: string

record machine_port_status =
  mpt_ObservedGeneration :: int
  mpt_AssignedPort :: "int option"
  mpt_Phase :: string
  mpt_Cloud :: port_cloud_status
  mpt_Conditions :: "condition list"

record machine_port =
  mp_meta :: object_meta
  mp_Spec :: machine_port_spec
  mp_Status :: machine_port_status

record pool_link_spec =
  lks_MachineGroupRef :: object_reference
  lks_ClusterName :: string
  lks_RouteNamespace :: string
  lks_FrontendUser :: string
  lks_PDAddresses :: "string list"
  lks_NSServerAddr :: string
  lks_TLSSecretRef :: "string option"
  lks_Disabled :: bool

record pool_link_status =
  lkt_ObservedGeneration :: int
  lkt_Phase :: string
  lkt_Conditions :: "condition list"

record pool_link =
  lk_meta :: object_meta
  lk_Spec :: pool_link_spec
  lk_Status :: pool_link_status

abbreviation "mg_uid mg \<equiv> meta_uid (mg_meta mg)"
abbreviation "mp_uid p \<equiv> meta_uid (mp_meta p)"
abbreviation "lk_uid l \<equiv> meta_uid (lk_meta l)"

text \<open>The key \<^verbatim>\<open>namespace/name\<close> by which objects are sorted and matched.\<close>

definition meta_key :: "object_meta \<Rightarrow> string" where
  "meta_key m = meta_namespace m @ ''/'' @ meta_name m"

section \<open>Constants\<close>

definition ConditionReady :: string where
  "ConditionReady = ''Ready''"
definition ConditionPortAssigned :: string where
  "ConditionPortAssigned = ''PortAssigned''"
definition ConditionExposed :: string where
  "ConditionExposed = ''Exposed''"

definition MachinePhasePending :: string where
  "MachinePhasePending = ''Pending''"
definition MachinePhaseStarting :: string where
  "MachinePhaseStarting = ''Starting''"
definition MachinePhaseRunning :: string where
  "MachinePhaseRunning = ''Running''"
definition MachinePhaseFailed :: string where
  "MachinePhaseFailed = ''Failed''"

definition MachinePortPhasePending :: string where
  "MachinePortPhasePending = ''Pending''"
definition MachinePortPhaseAllocated :: string where
  "MachinePortPhaseAllocated = ''Allocated''"
definition MachinePortPhaseReady :: string where
  "MachinePortPhaseReady = ''Ready''"
definition MachinePortPhaseError :: string where
  "MachinePortPhaseError = ''Error''"

definition ConditionTrue :: string where
  "ConditionTrue = ''True''"
definition ConditionFalse :: string where
  "ConditionFalse = ''False''"

lemmas phase_defs = MachinePortPhasePending_def MachinePortPhaseAllocated_def
  MachinePortPhaseReady_def MachinePortPhaseError_def

lemmas condition_defs = ConditionReady_def ConditionPortAssigned_def ConditionExposed_def
  ConditionTrue_def ConditionFalse_def

section \<open>Methods\<close>

definition NamespacedName :: "object_reference \<Rightarrow> string \<Rightarrow> namespaced_name" where
  "NamespacedName r defaultNamespace =
     (let ns = ref_namespace r; ns = (if ns = [] then defaultNamespace else ns)
      in \<lparr>nn_namespace = ns, nn_name = ref_name r\<rparr>)"

definition Validate :: "port_range \<Rightarrow> unit result" where
  "Validate r =
     (if range_start r \<le> 0 then Inl (errorf ''port range start must be > 0'')
      else if range_end r < range_start r then Inl (errorf ''port range end must be >= start'')
      else Inr ())"

definition DesiredReplicas :: "machine_group_spec \<Rightarrow> int" where
  "DesiredReplicas s = (case sp_Replicas s of
      None \<Rightarrow> 1
    | Some r \<Rightarrow> if r < 0 then 0 else r)"

definition SetPrimaryLoadBalancerCompat_cloud :: "cloud_status \<Rightarrow> cloud_status" where
  "SetPrimaryLoadBalancerCompat_cloud s =
     (let s = s\<lparr>cs_FrontendID := [], cs_FrontendAddress := []\<rparr> in
      case cs_LoadBalancers s of
        [] \<Rightarrow> s
      | lb # _ \<Rightarrow> s\<lparr>cs_FrontendID := lcs_LoadBalancerID lb,
                    cs_FrontendAddress := lcs_LoadBalancerAddress lb\<rparr>)"

definition SetPrimaryLoadBalancerCompat_port :: "port_cloud_status \<Rightarrow> port_cloud_status" where
  "SetPrimaryLoadBalancerCompat_port s =
     (let s = s\<lparr>pcs_FrontendID := [], pcs_FrontendAddress := [], pcs_ListenerID := [],
                pcs_BackendID := []\<rparr> in
      case pcs_LoadBalancers s of
        [] \<Rightarrow> s
      | lb # _ \<Rightarrow> s\<lparr>pcs_FrontendID := pls_LoadBalancerID lb,
                    pcs_FrontendAddress := pls_LoadBalancerAddress lb,
                    pcs_ListenerID := pls_ListenerID lb,
                    pcs_BackendID := pls_BackendID lb\<rparr>)"

end
