(* ===== verification/Exposure.thy ===== *)
theory Exposure
  imports Api_Types
begin

text \<open>
  Load balancer exposure: \<^verbatim>\<open>EffectiveScope\<close> and \<^verbatim>\<open>NormalizeLoadBalancers\<close> of
  \<^verbatim>\<open>api/v1alpha1/types_common.go\<close>, which fill in the scope and the name of every declared load
  balancer. The lemmas characterise exactly when normalisation succeeds, what it keeps of each
  entry, and when the resulting names are distinct.
\<close>

section \<open>Definitions\<close>

definition EffectiveScope :: "lb_exposure_spec \<Rightarrow> string" where
  "EffectiveScope f =
     (let scope = trim_space (lbs_Scope f) in if scope = [] then ''internal'' else scope)"

text \<open>
  \<^verbatim>\<open>NormalizeLoadBalancers\<close>. The first loop carries the set \<^verbatim>\<open>usedExplicit\<close> and the counters \<^verbatim>\<open>usedNames\<close>
  (an absent counter reads as 0); the second loop checks the scopes in order.
\<close>

definition name_count :: "(string, int) gomap \<Rightarrow> string \<Rightarrow> int" where
  "name_count m k = (case map_of m k of None \<Rightarrow> 0 | Some n \<Rightarrow> n)"

fun normalize_names ::
  "string list \<Rightarrow> (string, int) gomap \<Rightarrow> lb_exposure_spec list \<Rightarrow> lb_exposure_spec list result" where
  "normalize_names usedExplicit usedNames [] = Inr []"
| "normalize_names usedExplicit usedNames (lb # rest) =
     (let out = lb\<lparr>lbs_Scope := EffectiveScope lb\<rparr>;
          explicitName = trim_space (lbs_Name out) in
      if explicitName \<noteq> [] then
        (if explicitName \<in> set usedExplicit
         then Inl (errorf (''duplicate exposure.loadBalancers name '' @ quote explicitName))
         else rbind (normalize_names (explicitName # usedExplicit)
                (AList.update explicitName (name_count usedNames explicitName + 1) usedNames) rest)
                (\<lambda>outs. Inr (out # outs)))
      else
        (let base = trim_space (lbs_Scope out);
             base = (if base = [] then ''load-balancer'' else base) in
         if name_count usedNames base = 0 then
           rbind (normalize_names usedExplicit (AList.update base 1 usedNames) rest)
             (\<lambda>outs. Inr (out\<lparr>lbs_Name := base\<rparr> # outs))
         else
           (let n = name_count usedNames base + 1 in
            rbind (normalize_names usedExplicit (AList.update base n usedNames) rest)
              (\<lambda>outs. Inr (out\<lparr>lbs_Name := base @ ''-'' @ show_int n\<rparr> # outs)))))"

definition supported_scope :: "string \<Rightarrow> bool" where
  "supported_scope scope \<longleftrightarrow> to_lower (trim_space scope) \<in> {''internal'', ''external''}"

fun check_scopes :: "nat \<Rightarrow> lb_exposure_spec list \<Rightarrow> unit result" where
  "check_scopes i [] = Inr ()"
| "check_scopes i (lb # rest) =
     (if supported_scope (lbs_Scope lb) then check_scopes (Suc i) rest
      else Inl (errorf (''unsupported exposure.loadBalancers['' @ show_int (int i) @ ''].scope '' @
                 quote (lbs_Scope lb))))"

definition NormalizeLoadBalancers :: "exposure_spec \<Rightarrow> lb_exposure_spec list result" where
  "NormalizeLoadBalancers s = (case ex_LoadBalancers s of
      None \<Rightarrow> Inr [\<lparr>lbs_Name = ''internal'', lbs_Scope = ''internal'',
                    lbs_LoadBalancerName = [], lbs_SubnetIDs = []\<rparr>]
    | Some lbs \<Rightarrow> rbind (normalize_names [] [] lbs) (\<lambda>out.
        rbind (check_scopes 0 out) (\<lambda>_. Inr out)))"


section \<open>What normalisation keeps and when it succeeds\<close>

definition explicit_names :: "lb_exposure_spec list \<Rightarrow> string list" where
  "explicit_names lbs = filter (\<lambda>n. n \<noteq> []) (map (\<lambda>lb. trim_space (lbs_Name lb)) lbs)"

lemma EffectiveScope_trimmed [simp]: "trim_space (EffectiveScope lb) = EffectiveScope lb"
proof -
  have "trim_space ''internal'' = ''internal''" by code_simp
  then show ?thesis by (simp add: EffectiveScope_def Let_def)
qed

lemma EffectiveScope_nonempty [simp]: "EffectiveScope lb \<noteq> []"
  by (simp add: EffectiveScope_def Let_def)

lemma normalize_names_ok:
  "is_ok (normalize_names ue un lbs) \<longleftrightarrow>
     distinct (explicit_names lbs) \<and> set (explicit_names lbs) \<inter> set ue = {}"
proof (induction ue un lbs rule: normalize_names.induct)
  case (2 ue un lb rest)
  then show ?case
    by (auto simp: Let_def is_ok_iff explicit_names_def rbind_Inr_iff)
qed (simp add: explicit_names_def)

text \<open>How one normalised entry relates to the declared one.\<close>

definition normalized_entry :: "lb_exposure_spec \<Rightarrow> lb_exposure_spec \<Rightarrow> bool" where
  "normalized_entry lb out \<longleftrightarrow>
     lbs_Scope out = EffectiveScope lb \<and> lbs_LoadBalancerName out = lbs_LoadBalancerName lb \<and>
     lbs_SubnetIDs out = lbs_SubnetIDs lb \<and>
     (if \<not> blank (lbs_Name lb) then lbs_Name out = lbs_Name lb
      else lbs_Name out = EffectiveScope lb \<or>
           (\<exists>n. lbs_Name out = EffectiveScope lb @ ''-'' @ show_int n))"

lemma entry_explicit:
  "\<not> blank (lbs_Name lb) \<Longrightarrow> normalized_entry lb (lb\<lparr>lbs_Scope := EffectiveScope lb\<rparr>)"
  by (simp add: normalized_entry_def)

lemma entry_base:
  "blank (lbs_Name lb) \<Longrightarrow>
     normalized_entry lb (lb\<lparr>lbs_Scope := EffectiveScope lb, lbs_Name := EffectiveScope lb\<rparr>)"
  by (simp add: normalized_entry_def)

lemma entry_numbered:
  "blank (lbs_Name lb) \<Longrightarrow>
     normalized_entry lb (lb\<lparr>lbs_Scope := EffectiveScope lb,
                             lbs_Name := EffectiveScope lb @ CHR ''-'' # show_int k\<rparr>)"
  by (auto simp: normalized_entry_def)

lemma normalize_names_entries:
  "normalize_names ue un lbs = Inr outs \<Longrightarrow> list_all2 normalized_entry lbs outs"
proof (induction ue un lbs arbitrary: outs rule: normalize_names.induct)
  case (2 ue un lb rest)
  show ?case
  proof (cases "blank (lbs_Name lb)")
    case True
    with 2 show ?thesis
      by (auto simp: Let_def rbind_Inr_iff entry_base entry_numbered split: if_splits)
  next
    case False
    with 2 show ?thesis
      by (auto simp: Let_def rbind_Inr_iff entry_explicit split: if_splits)
  qed
qed simp

lemma check_scopes_ok: "is_ok (check_scopes i lbs) \<longleftrightarrow> list_all (\<lambda>lb. supported_scope (lbs_Scope lb)) lbs"
  by (induction i lbs rule: check_scopes.induct) auto

lemma entries_scopes:
  "list_all2 normalized_entry lbs outs \<Longrightarrow> map lbs_Scope outs = map EffectiveScope lbs"
  by (induction rule: list_all2_induct) (auto simp: normalized_entry_def)

lemma entries_supported:
  assumes "list_all2 normalized_entry lbs outs"
  shows "list_all (\<lambda>lb. supported_scope (lbs_Scope lb)) outs \<longleftrightarrow>
         list_all (\<lambda>lb. supported_scope (EffectiveScope lb)) lbs"
proof -
  have "list_all supported_scope (map lbs_Scope outs) = list_all supported_scope (map EffectiveScope lbs)"
    by (simp only: entries_scopes [OF assms])
  then show ?thesis by (simp add: list.pred_map comp_def)
qed

lemma Normalize_Some:
  "NormalizeLoadBalancers s = Inr outs \<Longrightarrow> ex_LoadBalancers s = Some lbs \<Longrightarrow>
     normalize_names [] [] lbs = Inr outs \<and> is_ok (check_scopes 0 outs)"
  by (auto simp: NormalizeLoadBalancers_def rbind_Inr_iff is_ok_iff)

lemma Normalize_ok_iff:
  "is_ok (NormalizeLoadBalancers s) \<longleftrightarrow>
     (case ex_LoadBalancers s of None \<Rightarrow> True
      | Some lbs \<Rightarrow> distinct (explicit_names lbs) \<and>
                    list_all (\<lambda>lb. supported_scope (EffectiveScope lb)) lbs)"
proof (cases "ex_LoadBalancers s")
  case (Some lbs)
  show ?thesis
  proof (cases "normalize_names [] [] lbs")
    case (Inl e)
    then have "\<not> distinct (explicit_names lbs)" using normalize_names_ok [of "[]" "[]" lbs] by simp
    then show ?thesis using Inl Some by (simp add: NormalizeLoadBalancers_def)
  next
    case (Inr outs)
    then have d: "distinct (explicit_names lbs)" using normalize_names_ok [of "[]" "[]" lbs] by simp
    have "is_ok (NormalizeLoadBalancers s) = is_ok (check_scopes 0 outs)"
      using Inr Some by (cases "check_scopes 0 outs") (auto simp: NormalizeLoadBalancers_def)
    then show ?thesis
      using Some d check_scopes_ok entries_supported [OF normalize_names_entries [OF Inr]] by simp
  qed
qed (simp add: NormalizeLoadBalancers_def)

section \<open>Generated names\<close>

lemma replace_all_keeps: "c \<notin> set old \<Longrightarrow> c \<in> set s \<Longrightarrow> c \<in> set (replace_all old new s)"
proof (induction old new s rule: replace_all.induct)
  case (2 old new d s)
  show ?case
  proof (cases "old \<noteq> [] \<and> prefix old (d # s)")
    case True
    then obtain t where t: "d # s = old @ t" by (auto elim: prefixE)
    then have "c \<in> set t" using 2(3,4) by (metis Un_iff set_append)
    then have "c \<in> set (replace_all old new (drop (length old) (d # s)))"
      using 2(1) [OF True 2(3)] t by simp
    then show ?thesis using True by simp
  next
    case False
    then show ?thesis using 2(2) [OF False 2(3)] 2(4) by auto
  qed
qed simp

lemma supported_no_dash: "supported_scope b \<Longrightarrow> trim_space b = b \<Longrightarrow> CHR ''-'' \<notin> set b"
proof
  assume sup: "supported_scope b" "trim_space b = b" and "CHR ''-'' \<in> set b"
  then have "ascii_lower (CHR ''-'') \<in> set (to_lower b)"
    unfolding to_lower_def set_map by (intro imageI replace_all_keeps) simp_all
  moreover have "ascii_lower (CHR ''-'') = CHR ''-''" by code_simp
  ultimately have "CHR ''-'' \<in> set (to_lower b)" by simp
  with sup show False by (auto simp: supported_scope_def)
qed

text \<open>
  The names the counters still allow for a scope \<open>b\<close>: \<open>b\<close> itself while its counter is 0, and \<open>b-k\<close>
  for every \<open>k\<close> above the counter.
\<close>

definition free_name :: "(string, int) gomap \<Rightarrow> string \<Rightarrow> string \<Rightarrow> bool" where
  "free_name un b nm \<longleftrightarrow> nm = b \<and> name_count un b = 0 \<or>
     (\<exists>k. max 1 (name_count un b) < k \<and> nm = b @ CHR ''-'' # show_int k)"

lemma name_count_update [simp]:
  "name_count (AList.update b n un) b' = (if b' = b then n else name_count un b')"
  by (simp add: name_count_def map_of_update)

lemma name_count_Nil [simp]: "name_count [] b = 0"
  by (simp add: name_count_def)

lemma free_name_base: "free_name un b nm \<Longrightarrow> CHR ''-'' \<notin> set b \<Longrightarrow> takeWhile (\<lambda>c. c \<noteq> CHR ''-'') nm = b"
  by (auto simp: free_name_def takeWhile_tail takeWhile_append2 dest: takeWhile_eq_all_conv [THEN iffD2])

text \<open>Handing out the next name of a scope leaves only other names free.\<close>

lemma free_name_next:
  assumes "free_name (AList.update b n un) b' nm" "0 \<le> name_count un b"
    "CHR ''-'' \<notin> set b" "CHR ''-'' \<notin> set b'"
    "name_count un b = 0 \<and> n = 1 \<and> used = b \<or>
     0 < name_count un b \<and> n = name_count un b + 1 \<and> used = b @ CHR ''-'' # show_int n"
  shows "free_name un b' nm \<and> nm \<noteq> used"
proof (cases "b' = b")
  case True
  then obtain k where k: "nm = b @ CHR ''-'' # show_int k" "max 1 n < k"
    using assms(1,2,5) by (auto simp: free_name_def)
  then show ?thesis using True assms(5) by (auto simp: free_name_def decimal.enc_inj)
next
  case False
  then have free: "free_name un b' nm" using assms(1) by (simp add: free_name_def)
  have "free_name un b used" using assms(5)
  proof (elim disjE)
    assume "0 < name_count un b \<and> n = name_count un b + 1 \<and> used = b @ CHR ''-'' # show_int n"
    then have "max 1 (name_count un b) < n \<and> used = b @ CHR ''-'' # show_int n" by simp
    then show ?thesis unfolding free_name_def by blast
  qed (simp add: free_name_def)
  with free False assms(3,4) show ?thesis using free_name_base by metis
qed

lemma generated_names:
  assumes "normalize_names ue un lbs = Inr outs" "\<forall>lb \<in> set lbs. blank (lbs_Name lb)"
    "\<forall>lb \<in> set lbs. supported_scope (EffectiveScope lb)" "\<forall>b. 0 \<le> name_count un b"
  shows "distinct (map lbs_Name outs) \<and> (\<forall>out \<in> set outs. free_name un (lbs_Scope out) (lbs_Name out) \<and>
    CHR ''-'' \<notin> set (lbs_Scope out))"
  using assms
proof (induction lbs arbitrary: un outs)
  case (Cons lb lbs)
  let ?b = "EffectiveScope lb"
  let ?fresh = "name_count un ?b = 0"
  let ?n = "if ?fresh then 1 else name_count un ?b + 1"
  let ?used = "if ?fresh then ?b else ?b @ CHR ''-'' # show_int ?n"
  let ?un = "AList.update ?b ?n un"
  obtain outs' where rest: "normalize_names ue ?un lbs = Inr outs'"
    and outs: "outs = lb\<lparr>lbs_Scope := ?b, lbs_Name := ?used\<rparr> # outs'"
    using Cons.prems(1,2) by (auto simp: Let_def rbind_Inr_iff split: if_splits)
  have dash: "CHR ''-'' \<notin> set ?b" using Cons.prems(3) by (intro supported_no_dash) simp_all
  have pos: "0 \<le> name_count un ?b" using Cons.prems(4) by simp
  have "\<forall>b. 0 \<le> name_count ?un b" using Cons.prems(4) pos by simp
  from Cons.IH [OF rest _ _ this] Cons.prems(2,3)
  have ih: "distinct (map lbs_Name outs')"
    "\<forall>out \<in> set outs'. free_name ?un (lbs_Scope out) (lbs_Name out) \<and> CHR ''-'' \<notin> set (lbs_Scope out)"
    by simp_all
  have step: "free_name un (lbs_Scope out) (lbs_Name out) \<and> lbs_Name out \<noteq> ?used"
    if "out \<in> set outs'" for out
    using ih(2) that pos dash by (intro free_name_next [of ?b ?n un]) auto
  have "free_name un ?b ?used" 
    using pos by (cases ?fresh) (auto simp: free_name_def decimal.enc_inj)
  moreover have "?used \<notin> lbs_Name ` set outs'" using step by fastforce
  ultimately show ?case using ih(1) step ih(2) dash by (simp add: outs)
qed simp

lemma explicit_kept:
  assumes "list_all2 normalized_entry lbs outs" "\<forall>lb \<in> set lbs. \<not> blank (lbs_Name lb)"
  shows "map lbs_Name outs = map lbs_Name lbs"
  using assms by (induction rule: list_all2_induct) (auto simp: normalized_entry_def)

lemma explicit_distinct:
  assumes "distinct (explicit_names lbs)" "\<forall>lb \<in> set lbs. \<not> blank (lbs_Name lb)"
  shows "distinct (map lbs_Name lbs)"
proof -
  have "explicit_names lbs = map trim_space (map lbs_Name lbs)"
    using assms(2) by (induction lbs) (auto simp: explicit_names_def)
  then show ?thesis using assms(1) by (metis distinct_map)
qed

section \<open>Properties\<close>

text \<open>
  Normalisation succeeds exactly when no two non-blank names are equal up to surrounding blanks
  and every scope, a missing one read as \<^verbatim>\<open>internal\<close>, is \<^verbatim>\<open>internal\<close> or \<^verbatim>\<open>external\<close> in any case.
\<close>

theorem NormalizeLoadBalancers_succeeds_iff:
  "is_ok (NormalizeLoadBalancers s) \<longleftrightarrow>
     (case ex_LoadBalancers s of None \<Rightarrow> True
      | Some lbs \<Rightarrow> distinct (explicit_names lbs) \<and>
                    list_all (\<lambda>lb. supported_scope (EffectiveScope lb)) lbs)"
  by (rule Normalize_ok_iff)

text \<open>
  The normalised load balancers are uniquely named when the declared ones are either all named or
  all unnamed; entry by entry the declared scope, cloud name and subnets are kept, and so is every
  name that is not blank.
\<close>

theorem NormalizeLoadBalancers_unique_names:
  assumes "NormalizeLoadBalancers s = Inr outs" "ex_LoadBalancers s = Some lbs"
    "(\<forall>lb \<in> set lbs. blank (lbs_Name lb)) \<or> (\<forall>lb \<in> set lbs. \<not> blank (lbs_Name lb))"
  shows "distinct (map lbs_Name outs) \<and> list_all2 normalized_entry lbs outs"
proof -
  have names: "normalize_names [] [] lbs = Inr outs"
    using Normalize_Some [OF assms(1,2)] by simp
  have "is_ok (NormalizeLoadBalancers s)" using assms(1) by simp
  then have ok: "distinct (explicit_names lbs)" "\<forall>lb \<in> set lbs. supported_scope (EffectiveScope lb)"
    using assms(2) by (simp_all add: Normalize_ok_iff list_all_iff)
  note entries = normalize_names_entries [OF names]
  from assms(3) have "distinct (map lbs_Name outs)"
  proof
    assume "\<forall>lb \<in> set lbs. blank (lbs_Name lb)"
    from generated_names [OF names this ok(2)] show ?thesis by simp
  next
    assume a: "\<forall>lb \<in> set lbs. \<not> blank (lbs_Name lb)"
    from explicit_distinct [OF ok(1) a] show ?thesis by (simp only: explicit_kept [OF entries a])
  qed
  with entries show ?thesis by simp
qed

text \<open>Three unnamed load balancers, and one whose name is that of the generated name before it.\<close>

definition sample_lb :: "string \<Rightarrow> string \<Rightarrow> lb_exposure_spec" where
  "sample_lb name scope = \<lparr>lbs_Name = name, lbs_Scope = scope, lbs_LoadBalancerName = [],
     lbs_SubnetIDs = []\<rparr>"

definition unnamed_exposure :: exposure_spec where
  "unnamed_exposure = \<lparr>ex_LoadBalancers =
  Some [sample_lb [] ''internal'', sample_lb [] ''external'', sample_lb [] []]\<rparr>"

definition unnamed_result :: "lb_exposure_spec list" where
  "unnamed_result =
  [sample_lb ''internal'' ''internal'', sample_lb ''external'' ''external'',
   sample_lb ''internal-2'' ''internal'']"

lemma unnamed_normalized: "NormalizeLoadBalancers unnamed_exposure = Inr unnamed_result"
  by code_simp

theorem NormalizeLoadBalancers_unique_names_witness:
  "distinct (map lbs_Name unnamed_result)"
  using NormalizeLoadBalancers_unique_names [OF unnamed_normalized,
      of "[sample_lb [] ''internal'', sample_lb [] ''external'', sample_lb [] []]"]
  by (simp add: unnamed_exposure_def sample_lb_def)

text \<open>
  A name generated for an unnamed load balancer is not checked against the explicit names that
  follow it: an unnamed internal load balancer followed by one named \<^verbatim>\<open>internal\<close> gives two load balancers
  named \<^verbatim>\<open>internal\<close> and no error, although in the other order the second is named \<^verbatim>\<open>internal-2\<close>.
\<close>

theorem NormalizeLoadBalancers_name_collision:
  "NormalizeLoadBalancers \<lparr>ex_LoadBalancers = Some [sample_lb [] ''internal'', sample_lb ''internal'' ''external'']\<rparr> =
     Inr [sample_lb ''internal'' ''internal'', sample_lb ''internal'' ''external''] \<and>
   NormalizeLoadBalancers \<lparr>ex_LoadBalancers = Some [sample_lb ''internal'' ''external'', sample_lb [] ''internal'']\<rparr> =
     Inr [sample_lb ''internal'' ''external'', sample_lb ''internal-2'' ''internal'']"
  by code_simp

end
