(* ===== verification/Port_Allocator.thy ===== *)
theory Port_Allocator
  imports Prelude Go_Strings "HOL-Library.Product_Lexorder"
begin

text \<open>
  Package \<^verbatim>\<open>internal/portallocator\<close>: \<^verbatim>\<open>ReconcilePorts\<close> assigns one frontend port to every requesting
  object. It runs three passes over the requests in the order of their names: requested ports are
  pinned, ports of the previous allocation are kept where they are still free, and the remaining
  requests get the next free port.

  The ports are \<^verbatim>\<open>int32\<close>. The search for the next free port increments a counter of that width, so the
  increment is written with \<open>wrap32\<close>, and a search is a \<^theory_text>\<open>partial_function\<close>: \<open>None\<close> is a loop that
  does not end. The facts about a single search hold for every range that ends below the largest
  \<^verbatim>\<open>int32\<close>; at that bound the counter wraps.

  The locale \<open>port_allocation\<close> states the contract the controller relies on, and derives from it that
  a second reconciliation with the same requests changes nothing.
\<close>

section \<open>Definitions\<close>

record link_port_request =
  req_UID :: string
  req_Name :: string
  req_RequestedPort :: "int option"

definition named_request :: "link_port_request \<Rightarrow> link_port_request" where
  "named_request r = (if req_Name r = [] then r\<lparr>req_Name := req_UID r\<rparr> else r)"

definition request_key :: "link_port_request \<Rightarrow> string \<times> string" where
  "request_key r = (req_Name r, req_UID r)"

text \<open>The requests without repeated UIDs, named, in the order of their names and UIDs.\<close>

definition prepare_requests :: "link_port_request list \<Rightarrow> link_port_request list" where
  "prepare_requests reqs = sort_key request_key (map named_request (dedupe_on req_UID [] reqs))"

definition in_range :: "int \<Rightarrow> int \<Rightarrow> int \<Rightarrow> bool" where
  "in_range start end port \<longleftrightarrow> \<not> (port < start \<or> port > end)"

fun pin_ports ::
  "int \<Rightarrow> int \<Rightarrow> (int, link_port_request) gomap \<Rightarrow> (string, int) gomap \<Rightarrow> int list \<Rightarrow>
   link_port_request list \<Rightarrow> ((string, int) gomap \<times> int list) result" where
  "pin_ports start end requestedByPort result used [] = Inr (result, used)"
| "pin_ports start end requestedByPort result used (req # reqs) =
     (case req_RequestedPort req of
        None \<Rightarrow> pin_ports start end requestedByPort result used reqs
      | Some port \<Rightarrow>
          if \<not> in_range start end port then
            Inl (errorf (''link '' @ req_Name req @ '' requests port '' @ show_int port @
              '' outside range '' @ show_int start @ ''-'' @ show_int end))
          else (case map_of requestedByPort port of
              Some prev \<Rightarrow> Inl (errorf (''requested port '' @ show_int port @
                '' conflicts between '' @ req_Name prev @ '' and '' @ req_Name req))
            | None \<Rightarrow> pin_ports start end (AList.update port req requestedByPort)
                (AList.update (req_UID req) port result) (port # used) reqs))"

fun keep_existing ::
  "int \<Rightarrow> int \<Rightarrow> (string, int) gomap \<Rightarrow> (string, int) gomap \<Rightarrow> int list \<Rightarrow>
   link_port_request list \<Rightarrow> (string, int) gomap \<times> int list" where
  "keep_existing start end existing result used [] = (result, used)"
| "keep_existing start end existing result used (req # reqs) =
     (let uid = req_UID req in
      if map_of result uid \<noteq> None then keep_existing start end existing result used reqs
      else (case map_of existing uid of
          None \<Rightarrow> keep_existing start end existing result used reqs
        | Some port \<Rightarrow>
            if \<not> in_range start end port then keep_existing start end existing result used reqs
            else if port \<in> set used then keep_existing start end existing result used reqs
            else keep_existing start end existing (AList.update uid port result) (port # used) reqs))"

text \<open>
  \<^verbatim>\<open>findNext\<close>: the port found, if any, and the new value of the counter \<^verbatim>\<open>next\<close>.
\<close>

partial_function (option) find_next :: "int \<Rightarrow> int list \<Rightarrow> int \<Rightarrow> (int option \<times> int) option" where
  "find_next end used next =
     (if next \<le> end then
        (if next \<notin> set used then Some (Some next, wrap32 (next + 1))
         else find_next end used (wrap32 (next + 1)))
      else Some (None, next))"

fun allocate_new ::
  "int \<Rightarrow> int \<Rightarrow> nat \<Rightarrow> (string, int) gomap \<Rightarrow> int list \<Rightarrow> int \<Rightarrow> link_port_request list \<Rightarrow>
   (string, int) gomap result option" where
  "allocate_new start end n result used next [] = Some (Inr result)"
| "allocate_new start end n result used next (req # reqs) =
     (if map_of result (req_UID req) \<noteq> None then allocate_new start end n result used next reqs
      else (case find_next end used next of
          None \<Rightarrow> None
        | Some (None, _) \<Rightarrow> Some (Inl (errorf (''insufficient ports in range '' @ show_int start @
            ''-'' @ show_int end @ '' for '' @ show_int (int n) @ '' links'')))
        | Some (Some port, next') \<Rightarrow>
            allocate_new start end n (AList.update (req_UID req) port result) (port # used) next' reqs))"

definition ReconcilePorts ::
  "(string, int) gomap \<Rightarrow> link_port_request list \<Rightarrow> int \<Rightarrow> int \<Rightarrow>
   (string, int) gomap result option" where
  "ReconcilePorts existing linkRequests start end =
     (if start \<le> 0 then
        Some (Inl (errorf (''invalid port range start: '' @ show_int start)))
      else if end < start then
        Some (Inl (errorf (''invalid port range: '' @ show_int start @ ''-'' @ show_int end)))
      else
        (let requests = prepare_requests linkRequests in
         case pin_ports start end [] [] [] requests of
           Inl e \<Rightarrow> Some (Inl e)
         | Inr (result, used) \<Rightarrow>
             (case keep_existing start end existing result used requests of
                (result, used) \<Rightarrow>
                  allocate_new start end (length requests) result used start requests)))"

section \<open>The prepared requests\<close>

lemma named_request_simps [simp]:
  "req_UID (named_request r) = req_UID r"
  "req_RequestedPort (named_request r) = req_RequestedPort r"
  by (simp_all add: named_request_def)

lemma prepare_uids: "req_UID ` set (prepare_requests reqs) = req_UID ` set reqs"
  using dedupe_on_keys [of req_UID "[]" reqs]
  by (simp add: prepare_requests_def image_image)

lemma prepare_distinct: "distinct (map req_UID (prepare_requests reqs))"
proof -
  have "mset (map req_UID (prepare_requests reqs)) = mset (map req_UID (dedupe_on req_UID [] reqs))"
    by (simp add: prepare_requests_def multiset.map_comp comp_def)
  then show ?thesis
    using dedupe_on_distinct [of req_UID "[]" reqs] by (metis mset_eq_imp_distinct_iff)
qed

lemma prepare_request:
  assumes "r \<in> set (prepare_requests reqs)"
  shows "\<exists>r0 \<in> set reqs. req_UID r0 = req_UID r \<and> req_RequestedPort r0 = req_RequestedPort r"
proof -
  obtain r0 where "r0 \<in> set (dedupe_on req_UID [] reqs)" "r = named_request r0"
    using assms by (auto simp: prepare_requests_def)
  then show ?thesis using dedupe_on_subset [of req_UID "[]" reqs] by auto
qed

lemma prepare_first:
  assumes "find (\<lambda>r. req_UID r = u) reqs = Some r"
  shows "named_request r \<in> set (prepare_requests reqs)"
proof -
  have "find (\<lambda>r. req_UID r = u) (dedupe_on req_UID [] reqs) = Some r"
    using assms by (simp add: dedupe_on_find)
  then have "r \<in> set (dedupe_on req_UID [] reqs)" by (auto dest: find_Some_set)
  then show ?thesis by (simp add: prepare_requests_def)
qed

lemma prepare_perm:
  assumes "mset reqs' = mset reqs" "distinct (map req_UID reqs)"
  shows "prepare_requests reqs' = prepare_requests reqs"
proof -
  have d': "distinct (map req_UID reqs')"
    using assms by (metis mset_eq_imp_distinct_iff mset_map)
  have "inj_on request_key (named_request ` set reqs)"
    using assms(2) by (auto simp: inj_on_def request_key_def distinct_map)
  moreover have "distinct (map named_request reqs)"
    using assms(2) by (auto simp: distinct_map inj_on_def) (metis named_request_simps(1))
  ultimately have "distinct (map request_key (map named_request reqs))"
    by (simp add: distinct_map comp_inj_on)
  then show ?thesis
    unfolding prepare_requests_def using assms d'
    by (simp add: dedupe_on_id sort_key_mset_cong)
qed

section \<open>Searching the next free port\<close>

lemma find_next_spec:
  assumes "is_int32 next" "end < max_int32"
  shows "(\<exists>p. find_next end used next = Some (Some p, p + 1) \<and> next \<le> p \<and> p \<le> end \<and>
             p \<notin> set used \<and> {next..<p} \<subseteq> set used) \<or>
         (\<exists>next'. find_next end used next = Some (None, next') \<and> {next..end} \<subseteq> set used)"
  using assms
proof (induction "nat (end + 1 - next)" arbitrary: "next" rule: less_induct)
  case less
  show ?case
  proof (cases "next \<le> end \<and> next \<in> set used")
    case True
    have w: "wrap32 (next + 1) = next + 1"
      using less.prems True by (intro wrap32_succ) auto
    then have step: "find_next end used next = find_next end used (next + 1)"
      using True by (subst find_next.simps) simp
    have "is_int32 (next + 1)" using w by (metis wrap32_range)
    moreover have "nat (end + 1 - (next + 1)) < nat (end + 1 - next)" using True by simp
    ultimately consider
      (found) p where "find_next end used (next + 1) = Some (Some p, p + 1)" "next + 1 \<le> p" "p \<le> end"
        "p \<notin> set used" "{next + 1..<p} \<subseteq> set used"
      | (none) next' where "find_next end used (next + 1) = Some (None, next')"
        "{next + 1..end} \<subseteq> set used"
      using less.hyps less.prems(2) by meson
    then show ?thesis
    proof cases
      case found
      have "{next..<p} \<subseteq> insert next {next + 1..<p}" by auto
      with found True step show ?thesis by auto
    next
      case none
      have "{next..end} \<subseteq> insert next {next + 1..end}" by auto
      with none True step show ?thesis by auto
    qed
  next
    case False
    then consider "\<not> next \<le> end" | "next \<le> end" "next \<notin> set used" by blast
    then show ?thesis
    proof cases
      case 1
      then show ?thesis by (subst (1 2) find_next.simps) auto
    next
      case 2
      then have "wrap32 (next + 1) = next + 1"
        using less.prems by (intro wrap32_succ) auto
      with 2 show ?thesis by (subst (1 2) find_next.simps) auto
    qed
  qed
qed

text \<open>
  The search returns for every \<^verbatim>\<open>int32\<close> bound, wrap-around included, as soon as some port up to the
  bound is free: the distance to that port, modulo \<open>2 ^ 32\<close>, shrinks.
\<close>

lemma wrap32_cong: "(p - wrap32 (x + 1)) mod 4294967296 = (p - (x + 1)) mod 4294967296"
proof -
  define k where "k = (x + 1 + 2147483648) div 4294967296"
  have "wrap32 (x + 1) = (x + 1) - 4294967296 * k"
    by (simp add: wrap32_def k_def minus_mult_div_eq_mod [symmetric])
  then have "p - wrap32 (x + 1) = (p - (x + 1)) + 4294967296 * k" by simp
  then show ?thesis by (simp only: mod_mult_self2)
qed

lemma find_next_returns:
  assumes "is_int32 next" "is_int32 p" "p \<le> end" "p \<notin> set used"
  shows "\<exists>r. find_next end used next = Some r"
  using assms(1)
proof (induction "nat ((p - next) mod 4294967296)" arbitrary: "next" rule: less_induct)
  case less
  show ?case
  proof (cases "next \<le> end \<and> next \<in> set used")
    case True
    then have ne: "next \<noteq> p" using assms(4) by auto
    have "(p - next) mod 4294967296 \<noteq> 0"
    proof
      assume "(p - next) mod 4294967296 = 0"
      then have "4294967296 dvd (p - next)" by (simp add: dvd_eq_mod_eq_0)
      moreover have "\<bar>p - next\<bar> < 4294967296"
        using assms(2) less.prems by (auto simp: is_int32_def)
      ultimately show False using ne dvd_imp_le_int [of "p - next" 4294967296] by simp
    qed
    moreover have "(p - (next + 1)) mod 4294967296 = ((p - next) mod 4294967296 - 1) mod 4294967296"
      by (simp add: mod_simps algebra_simps)
    moreover have "0 \<le> (p - next) mod 4294967296" "(p - next) mod 4294967296 < 4294967296"
      by simp_all
    ultimately have "nat ((p - wrap32 (next + 1)) mod 4294967296) < nat ((p - next) mod 4294967296)"
      by (simp add: wrap32_cong)
    then show ?thesis
      using less.hyps [of "wrap32 (next + 1)"] wrap32_range True
      by (subst find_next.simps) simp
  next
    case False
    then show ?thesis by (subst find_next.simps) auto
  qed
qed

section \<open>The three passes\<close>

text \<open>
  The invariant of the allocation under construction: \<open>used\<close> holds exactly the assigned ports, no two
  UIDs share a port, and every port lies in the range.
\<close>

definition alloc_inv :: "int \<Rightarrow> int \<Rightarrow> (string, int) gomap \<Rightarrow> int list \<Rightarrow> bool" where
  "alloc_inv start end result used \<longleftrightarrow>
     wf_map result \<and> distinct (map snd result) \<and> set used = snd ` set result \<and>
     (\<forall>p \<in> set used. in_range start end p)"

lemma alloc_inv_Nil [simp]: "alloc_inv start end [] []"
  by (simp add: alloc_inv_def)

lemma alloc_inv_update:
  assumes "alloc_inv start end result used" "map_of result u = None"
    "in_range start end p" "p \<notin> set used"
  shows "alloc_inv start end (AList.update u p result) (p # used)"
  using assms by (auto simp: alloc_inv_def update_new map_of_None_keys)

lemma alloc_inv_card:
  "alloc_inv start end result used \<Longrightarrow> card (set used) = length result"
  by (metis alloc_inv_def distinct_card length_map list.set_map)

definition pinned :: "link_port_request list \<Rightarrow> int list" where
  "pinned reqs = List.map_filter req_RequestedPort reqs"

lemma pinned_simps [simp]:
  "pinned [] = []"
  "pinned (r # rs) = (case req_RequestedPort r of None \<Rightarrow> pinned rs | Some p \<Rightarrow> p # pinned rs)"
  by (simp_all add: pinned_def map_filter_simps split: option.split)

lemma set_pinned: "set (pinned reqs) = {p. \<exists>r \<in> set reqs. req_RequestedPort r = Some p}"
  by (induction reqs) (auto split: option.splits)

lemma pin_ports_ok:
  "is_ok (pin_ports start end rbp result used reqs) \<longleftrightarrow>
     (\<forall>p \<in> set (pinned reqs). in_range start end p) \<and> distinct (pinned reqs) \<and>
     set (pinned reqs) \<inter> fst ` set rbp = {}"
proof (induction reqs arbitrary: rbp result used)
  case (Cons r rs)
  then show ?case
    by (cases "req_RequestedPort r")
      (auto simp: keys_update map_of_None_keys split: option.splits dest: map_of_Some_keys)
qed simp

lemma pin_ports_inv:
  assumes "pin_ports start end rbp result used reqs = Inr (result', used')"
    "alloc_inv start end result used" "distinct (map req_UID reqs)"
    "\<forall>r \<in> set reqs. map_of result (req_UID r) = None" "fst ` set rbp = set used"
  shows "alloc_inv start end result' used' \<and> map_of result \<subseteq>\<^sub>m map_of result' \<and>
    (\<forall>r \<in> set reqs. map_of result' (req_UID r) = req_RequestedPort r) \<and>
    fst ` set result' \<subseteq> fst ` set result \<union> req_UID ` set reqs \<and>
    length used' \<le> length used + length reqs"
  using assms
proof (induction reqs arbitrary: rbp result used)
  case (Cons r rs)
  let ?u = "req_UID r"
  have fresh: "?u \<notin> req_UID ` set rs" "map_of result ?u = None" "distinct (map req_UID rs)"
    using Cons.prems(3,4) by auto
  show ?case
  proof (cases "req_RequestedPort r")
    case None
    then have ih: "alloc_inv start end result' used' \<and> map_of result \<subseteq>\<^sub>m map_of result' \<and>
        (\<forall>r \<in> set rs. map_of result' (req_UID r) = req_RequestedPort r) \<and>
        fst ` set result' \<subseteq> fst ` set result \<union> req_UID ` set rs \<and>
        length used' \<le> length used + length rs"
      using Cons.prems by (intro Cons.IH [of rbp result used]) auto
    moreover have "map_of result' ?u = None"
      using ih fresh by (auto simp: map_of_None_keys)
    ultimately show ?thesis using None by auto
  next
    case (Some p)
    let ?res = "AList.update ?u p result"
    have ok: "in_range start end p" "map_of rbp p = None"
      "pin_ports start end (AList.update p r rbp) ?res (p # used) rs = Inr (result', used')"
      using Cons.prems(1) Some by (auto split: if_splits option.splits)
    have "p \<notin> set used" using ok(2) Cons.prems(5) by (auto simp: map_of_None_keys)
    then have inv: "alloc_inv start end ?res (p # used)"
      using alloc_inv_update Cons.prems(2) fresh(2) ok(1) by blast
    have ih: "alloc_inv start end result' used' \<and> map_of ?res \<subseteq>\<^sub>m map_of result' \<and>
        (\<forall>r \<in> set rs. map_of result' (req_UID r) = req_RequestedPort r) \<and>
        fst ` set result' \<subseteq> fst ` set ?res \<union> req_UID ` set rs \<and>
        length used' \<le> length (p # used) + length rs"
      using Cons.prems(4,5) fresh
      by (intro Cons.IH [OF ok(3) inv]) (auto simp: map_of_update keys_update image_iff)
    have "map_of result \<subseteq>\<^sub>m map_of result'"
      using ih map_le_update [of result ?u p] fresh(2) map_le_trans by blast
    moreover have "map_of result' ?u = Some p"
      using ih by (auto intro: map_le_Some simp: map_of_update)
    ultimately show ?thesis using ih Some by (auto simp: keys_update)
  qed
qed simp

lemma keep_existing_inv:
  assumes "keep_existing start end existing result used reqs = (result', used')"
    "alloc_inv start end result used"
  shows "alloc_inv start end result' used' \<and> map_of result \<subseteq>\<^sub>m map_of result' \<and>
    fst ` set result' \<subseteq> fst ` set result \<union> req_UID ` set reqs \<and>
    length used' \<le> length used + length reqs"
  using assms
proof (induction reqs arbitrary: result used)
  case (Cons r rs)
  let ?u = "req_UID r"
  show ?case
  proof (cases "\<exists>p. map_of result ?u = None \<and> map_of existing ?u = Some p \<and>
                     in_range start end p \<and> p \<notin> set used")
    case True
    then obtain p where p: "map_of result ?u = None" "map_of existing ?u = Some p"
      "in_range start end p" "p \<notin> set used" by blast
    then have "keep_existing start end existing (AList.update ?u p result) (p # used) rs =
        (result', used')"
      using Cons.prems(1) by (simp add: Let_def)
    from Cons.IH [OF this alloc_inv_update [OF Cons.prems(2) p(1,3,4)]]
    have ih: "alloc_inv start end result' used'" "map_of (AList.update ?u p result) \<subseteq>\<^sub>m map_of result'"
      "fst ` set result' \<subseteq> insert ?u (fst ` set result) \<union> req_UID ` set rs"
      "length used' \<le> length (p # used) + length rs"
      by (auto simp only: keys_update)
    have "map_of result \<subseteq>\<^sub>m map_of result'"
      by (rule map_le_trans [OF map_le_update [OF p(1)] ih(2)])
    with ih(1,3,4) show ?thesis by auto
  next
    case False
    then have "keep_existing start end existing result used rs = (result', used')"
      using Cons.prems(1) by (auto simp: Let_def split: option.splits if_splits)
    from Cons.IH [OF this Cons.prems(2)] show ?thesis by auto
  qed
qed simp

text \<open>
  Stability: a request that has no port yet keeps its previous one, if that lies in the range, is not
  used so far, and no other waiting request held it before.
\<close>

lemma keep_existing_kept:
  assumes "keep_existing start end existing result used reqs = (result', used')"
    "alloc_inv start end result used"
    "r \<in> set reqs" "map_of result (req_UID r) = None"
    "map_of existing (req_UID r) = Some p" "in_range start end p" "p \<notin> set used"
    "\<forall>r' \<in> set reqs. map_of existing (req_UID r') = Some p \<longrightarrow>
        map_of result (req_UID r') = None \<longrightarrow> req_UID r' = req_UID r"
  shows "map_of result' (req_UID r) = Some p"
  using assms
proof (induction reqs arbitrary: result used)
  case (Cons q rs)
  let ?u = "req_UID q"
  show ?case
  proof (cases "\<exists>p'. map_of result ?u = None \<and> map_of existing ?u = Some p' \<and>
                     in_range start end p' \<and> p' \<notin> set used")
    case True
    then obtain p' where p': "map_of result ?u = None" "map_of existing ?u = Some p'"
      "in_range start end p'" "p' \<notin> set used" by blast
    let ?res = "AList.update ?u p' result"
    have step: "keep_existing start end existing ?res (p' # used) rs = (result', used')"
      using Cons.prems(1) p' by (simp add: Let_def)
    have inv: "alloc_inv start end ?res (p' # used)"
      by (rule alloc_inv_update [OF Cons.prems(2) p'(1,3,4)])
    show ?thesis
    proof (cases "?u = req_UID r")
      case True
      then have got: "map_of ?res (req_UID r) = Some p"
        using p'(2) Cons.prems(5) by (simp add: map_of_update)
      have "map_of ?res \<subseteq>\<^sub>m map_of result'" using keep_existing_inv [OF step inv] by simp
      then show ?thesis using got by (rule map_le_Some)
    next
      case False
      then have "p' \<noteq> p" using Cons.prems(8) p'(1,2) by auto
      show ?thesis
      proof (rule Cons.IH [OF step inv])
        show "r \<in> set rs" using False Cons.prems(3) by auto
        show "map_of ?res (req_UID r) = None" using False Cons.prems(4) by (simp add: map_of_update)
        show "p \<notin> set (p' # used)" using \<open>p' \<noteq> p\<close> Cons.prems(7) by simp
        show "\<forall>r' \<in> set rs. map_of existing (req_UID r') = Some p \<longrightarrow>
          map_of ?res (req_UID r') = None \<longrightarrow> req_UID r' = req_UID r"
        proof (intro ballI impI)
          fix r' assume a: "r' \<in> set rs" "map_of existing (req_UID r') = Some p"
            "map_of ?res (req_UID r') = None"
          have "map_of result (req_UID r') = None"
            using a(3) by (simp add: map_of_update split: if_splits)
          then show "req_UID r' = req_UID r"
            using Cons.prems(8) a(1,2) by (meson list.set_intros(2))
        qed
      qed (rule Cons.prems)+
    qed
  next
    case False
    then have step: "keep_existing start end existing result used rs = (result', used')"
      using Cons.prems(1) by (auto simp: Let_def split: option.splits if_splits)
    have "r \<noteq> q" using False Cons.prems(4-7) by blast
    then have "r \<in> set rs" using Cons.prems(3) by simp
    moreover have "\<forall>r' \<in> set rs. map_of existing (req_UID r') = Some p \<longrightarrow>
          map_of result (req_UID r') = None \<longrightarrow> req_UID r' = req_UID r"
      using Cons.prems(8) by (meson list.set_intros(2))
    ultimately show ?thesis
      using Cons.IH [OF step Cons.prems(2) _ Cons.prems(4-7)] by blast
  qed
qed simp

text \<open>
  The last pass. \<open>waiting\<close> counts the requests without a port; every port below the counter is used,
  so a failed search means that the range is full.
\<close>

definition waiting :: "(string, int) gomap \<Rightarrow> link_port_request list \<Rightarrow> nat" where
  "waiting result reqs = length (missing req_UID result reqs)"

definition scan_inv :: "int \<Rightarrow> int \<Rightarrow> int list \<Rightarrow> int \<Rightarrow> bool" where
  "scan_inv start end used next \<longleftrightarrow>
     start \<le> next \<and> next \<le> end + 1 \<and> {start..<next} \<subseteq> set used \<and> is_int32 next"

lemma find_next_cases:
  assumes "scan_inv start end used next" "end < max_int32"
  obtains (found) p where "find_next end used next = Some (Some p, p + 1)" "in_range start end p"
      "p \<notin> set used" "{start..<p} \<subseteq> set used" "scan_inv start end (p # used) (p + 1)"
  | (full) next' where "find_next end used next = Some (None, next')" "{start..end} \<subseteq> set used"
proof -
  have i: "is_int32 next" using assms(1) by (simp add: scan_inv_def)
  from find_next_spec [OF i assms(2), of used] show ?thesis
  proof (elim disjE exE conjE)
    fix p assume p: "find_next end used next = Some (Some p, p + 1)" "next \<le> p" "p \<le> end"
      "p \<notin> set used" "{next..<p} \<subseteq> set used"
    have "{start..<p} \<subseteq> {start..<next} \<union> {next..<p}" by auto
    then have below: "{start..<p} \<subseteq> set used" using p(5) assms(1) by (auto simp: scan_inv_def)
    have "{start..<p + 1} \<subseteq> insert p {start..<p}" by auto
    then have "scan_inv start end (p # used) (p + 1)"
      using p below assms by (auto simp: scan_inv_def is_int32_def max_int32_def)
    then show thesis using p below assms(1) by (intro found) (auto simp: scan_inv_def in_range_def)
  next
    fix next' assume n: "find_next end used next = Some (None, next')" "{next..end} \<subseteq> set used"
    have "{start..end} \<subseteq> {start..<next} \<union> {next..end}" by auto
    then show thesis using n assms(1) by (intro full) (auto simp: scan_inv_def)
  qed
qed

lemma full_range_card:
  assumes "alloc_inv start end result used" "{start..end} \<subseteq> set used"
  shows "end + 1 - start \<le> int (length result)"
proof -
  have "card {start..end} \<le> card (set used)" by (rule card_mono) (simp_all add: assms)
  then show ?thesis using alloc_inv_card [OF assms(1)] by simp
qed

lemma allocate_new_inv:
  assumes "allocate_new start end n result used next reqs = Some (Inr result')"
    "alloc_inv start end result used" "scan_inv start end used next" "end < max_int32"
  shows "\<exists>used'. alloc_inv start end result' used' \<and> map_of result \<subseteq>\<^sub>m map_of result' \<and>
    fst ` set result' = fst ` set result \<union> req_UID ` set reqs"
  using assms
proof (induction reqs arbitrary: result used "next")
  case (Cons r rs)
  let ?u = "req_UID r"
  show ?case
  proof (cases "map_of result ?u")
    case (Some p)
    then have "allocate_new start end n result used next rs = Some (Inr result')"
      using Cons.prems(1) by simp
    from Cons.IH [OF this Cons.prems(2-4)] show ?thesis using map_of_Some_keys [OF Some] by auto
  next
    case None
    from Cons.prems(3,4) show ?thesis
    proof (cases rule: find_next_cases)
      case (found p)
      let ?res = "AList.update ?u p result"
      have "allocate_new start end n ?res (p # used) (p + 1) rs = Some (Inr result')"
        using Cons.prems(1) None found(1) by simp
      from Cons.IH [OF this alloc_inv_update [OF Cons.prems(2) None found(2,3)] found(5) Cons.prems(4)]
      obtain used' where ih: "alloc_inv start end result' used'" "map_of ?res \<subseteq>\<^sub>m map_of result'"
        "fst ` set result' = insert ?u (fst ` set result) \<union> req_UID ` set rs"
        by (auto simp only: keys_update)
      have "map_of result \<subseteq>\<^sub>m map_of result'"
        by (rule map_le_trans [OF map_le_update [OF None] ih(2)])
      with ih(1,3) show ?thesis by auto
    next
      case (full next')
      then show ?thesis using Cons.prems(1) None by simp
    qed
  qed
qed auto

lemma allocate_new_succeeds:
  assumes "alloc_inv start end result used" "scan_inv start end used next" "end < max_int32"
    "distinct (map req_UID reqs)" "int (length result + waiting result reqs) \<le> end + 1 - start"
  shows "\<exists>result'. allocate_new start end n result used next reqs = Some (Inr result')"
  using assms
proof (induction reqs arbitrary: result used "next")
  case (Cons r rs)
  let ?u = "req_UID r"
  show ?case
  proof (cases "map_of result ?u")
    case (Some p)
    then show ?thesis using Cons by (simp add: waiting_def)
  next
    case None
    from Cons.prems(2,3) show ?thesis
    proof (cases rule: find_next_cases)
      case (found p)
      let ?res = "AList.update ?u p result"
      have "waiting ?res rs = waiting result rs"
        using Cons.prems(4) by (simp add: waiting_def missing_update)
      then have "int (length ?res + waiting ?res rs) \<le> end + 1 - start"
        using Cons.prems(5) None by (simp add: update_new waiting_def)
      then have "\<exists>result'. allocate_new start end n ?res (p # used) (p + 1) rs = Some (Inr result')"
        using Cons.prems(3,4)
        by (intro Cons.IH [OF alloc_inv_update [OF Cons.prems(1) None found(2,3)] found(5)]) simp_all
      then show ?thesis using None found(1) by simp
    next
      case (full next')
      then show ?thesis
        using full_range_card [OF Cons.prems(1) full(2)] Cons.prems(5) None
        by (simp add: waiting_def)
    qed
  qed
qed simp

section \<open>Termination for every 32-bit range\<close>

lemma find_next_int32:
  assumes "find_next end used next = Some r" "is_int32 next"
  shows "is_int32 (snd r)"
proof -
  have "is_int32 next \<longrightarrow> is_int32 (snd r)"
  proof (rule find_next.raw_induct
      [where P = "\<lambda>e u n r. is_int32 n \<longrightarrow> is_int32 (snd r)", OF _ assms(1)])
    fix f e u n r
    assume IH: "\<And>e u n r. f e u n = Some r \<Longrightarrow> is_int32 n \<longrightarrow> is_int32 (snd r)"
      and eq: "(if n \<le> e then if n \<notin> set u then Some (Some n, wrap32 (n + 1))
                else f e u (wrap32 (n + 1)) else Some (None, n)) = Some r"
    show "is_int32 n \<longrightarrow> is_int32 (snd r)"
      using eq IH wrap32_range by (auto split: if_splits)
  qed
  with assms(2) show ?thesis by blast
qed

lemma free_port:
  assumes "0 < e" "e \<le> 2147483647" "length used \<le> 2147483648"
  shows "\<exists>p. is_int32 p \<and> p \<le> e \<and> p \<notin> set used"
proof -
  have "card (set used) \<le> length used" by (rule card_length)
  also have "\<dots> < card {-2147483648..e}" using assms by simp
  finally have "\<not> {-2147483648..e} \<subseteq> set used" by (meson List.finite_set card_mono not_le)
  then show ?thesis using assms(2) by (auto simp: is_int32_def)
qed

lemma allocate_new_returns:
  assumes "is_int32 next" "is_int32 end" "0 < end" "length used + length reqs \<le> 2147483648"
  shows "\<exists>r. allocate_new start end n result used next reqs = Some r"
  using assms
proof (induction reqs arbitrary: result used "next")
  case (Cons r rs)
  obtain p where p: "is_int32 p" "p \<le> end" "p \<notin> set used"
    using free_port [of "end" used] Cons.prems by (auto simp: is_int32_def)
  obtain q next' where found: "find_next end used next = Some (q, next')"
    using find_next_returns [OF Cons.prems(1) p] by auto
  then have "is_int32 next'" using find_next_int32 Cons.prems(1) by fastforce
  then have "\<exists>z. allocate_new start end n (AList.update (req_UID r) port result) (port # used) next' rs = Some z"
    for port using Cons.prems by (intro Cons.IH) simp_all
  moreover have "\<exists>r. allocate_new start end n result used next rs = Some r"
    using Cons.prems by (intro Cons.IH) simp_all
  ultimately show ?case using found by (auto split: option.splits)
qed simp

section \<open>The allocation as a whole\<close>

text \<open>An allocation that is complete, conflict free and inside the range.\<close>

definition valid_allocation :: "string set \<Rightarrow> int \<Rightarrow> int \<Rightarrow> (string, int) gomap \<Rightarrow> bool" where
  "valid_allocation uids start end m \<longleftrightarrow>
     wf_map m \<and> fst ` set m = uids \<and> distinct (map snd m) \<and>
     (\<forall>p \<in> snd ` set m. in_range start end p)"

text \<open>When the requests can be satisfied; only the first request of a UID counts.\<close>

definition satisfiable :: "int \<Rightarrow> int \<Rightarrow> link_port_request list \<Rightarrow> bool" where
  "satisfiable start end reqs \<longleftrightarrow>
     (let first = dedupe_on req_UID [] reqs in
      (\<forall>p \<in> set (pinned first). in_range start end p) \<and> distinct (pinned first) \<and>
      int (length first) \<le> end + 1 - start)"

lemma mset_pinned:
  "mset (pinned reqs) = image_mset the (filter_mset (\<lambda>p. p \<noteq> None) (image_mset req_RequestedPort (mset reqs)))"
  by (induction reqs) (auto split: option.splits)

lemma mset_pinned_prepare: "mset (pinned (prepare_requests reqs)) = mset (pinned (dedupe_on req_UID [] reqs))"
  by (simp add: mset_pinned prepare_requests_def multiset.map_comp comp_def)

lemma pinned_prepare:
  "set (pinned (prepare_requests reqs)) = set (pinned (dedupe_on req_UID [] reqs))"
  "distinct (pinned (prepare_requests reqs)) \<longleftrightarrow> distinct (pinned (dedupe_on req_UID [] reqs))"
  using mset_pinned_prepare [of reqs] by (metis set_mset_mset, metis mset_eq_imp_distinct_iff)

lemma length_prepare: "length (prepare_requests reqs) = length (dedupe_on req_UID [] reqs)"
  by (simp add: prepare_requests_def)

lemma length_dedupe: "length (dedupe_on req_UID [] reqs) = card (req_UID ` set reqs)"
  using dedupe_on_distinct [of req_UID "[]" reqs] dedupe_on_keys [of req_UID "[]" reqs]
  by (metis Diff_empty distinct_card length_map list.set(1) list.set_map)

text \<open>The three passes of a run, with the invariant after each.\<close>

lemma passes_pin:
  assumes "pin_ports start end [] [] [] (prepare_requests reqs) = Inr (res, used)"
  shows "alloc_inv start end res used \<and>
    (\<forall>r \<in> set (prepare_requests reqs). map_of res (req_UID r) = req_RequestedPort r) \<and>
    fst ` set res \<subseteq> req_UID ` set (prepare_requests reqs) \<and>
    length used \<le> length (prepare_requests reqs)"
  using pin_ports_inv [OF assms] prepare_distinct [of reqs] by auto

lemma passes_waiting:
  assumes "alloc_inv start end res used" "fst ` set res \<subseteq> req_UID ` set rs" "distinct (map req_UID rs)"
  shows "length res + waiting res rs = length rs"
  using missing_length [OF _ assms(2,3)] assms(1) by (simp add: waiting_def alloc_inv_def)

lemma ReconcilePorts_passes:
  assumes "ReconcilePorts existing reqs start end = Some (Inr m)" "end < max_int32"
  obtains res1 used1 res2 used2 used3 where
    "0 < start" "start \<le> end"
    "pin_ports start end [] [] [] (prepare_requests reqs) = Inr (res1, used1)"
    "alloc_inv start end res1 used1"
    "keep_existing start end existing res1 used1 (prepare_requests reqs) = (res2, used2)"
    "map_of res1 \<subseteq>\<^sub>m map_of m" "map_of res2 \<subseteq>\<^sub>m map_of m"
    "alloc_inv start end m used3" "fst ` set m = req_UID ` set reqs"
proof -
  let ?rs = "prepare_requests reqs"
  from assms(1) have range: "0 < start" "start \<le> end" by (auto simp: ReconcilePorts_def split: if_splits)
  from assms(1) range obtain res1 used1 where
    pin: "pin_ports start end [] [] [] ?rs = Inr (res1, used1)"
    by (auto simp: ReconcilePorts_def Let_def split: sum.splits)
  obtain res2 used2 where
    keep: "keep_existing start end existing res1 used1 ?rs = (res2, used2)" by force
  have new: "allocate_new start end (length ?rs) res2 used2 start ?rs = Some (Inr m)"
    using assms(1) range pin keep by (simp add: ReconcilePorts_def Let_def)
  have inv1: "alloc_inv start end res1 used1" "fst ` set res1 \<subseteq> req_UID ` set ?rs"
    using passes_pin [OF pin] by blast+
  from keep_existing_inv [OF keep inv1(1)] have
    inv2: "alloc_inv start end res2 used2" "map_of res1 \<subseteq>\<^sub>m map_of res2"
      "fst ` set res2 \<subseteq> fst ` set res1 \<union> req_UID ` set ?rs" by blast+
  have "scan_inv start end used2 start"
    using range assms(2) by (simp add: scan_inv_def is_int32_def max_int32_def)
  from allocate_new_inv [OF new inv2(1) this assms(2)] obtain used3 where
    inv3: "alloc_inv start end m used3" "map_of res2 \<subseteq>\<^sub>m map_of m"
      "fst ` set m = fst ` set res2 \<union> req_UID ` set ?rs" by blast
  have "fst ` set res2 \<subseteq> req_UID ` set ?rs"
    by (rule order_trans [OF inv2(3)]) (simp add: inv1(2))
  then have "fst ` set m = req_UID ` set reqs"
    by (simp only: inv3(3) prepare_uids Un_absorb1)
  then show thesis
    by (rule that [OF range pin inv1(1) keep map_le_trans [OF inv2(2) inv3(2)] inv3(2,1)])
qed

lemma Reconcile_valid:
  assumes "ReconcilePorts existing reqs start end = Some (Inr m)" "end < max_int32"
  shows "valid_allocation (req_UID ` set reqs) start end m"
  using assms by (rule ReconcilePorts_passes) (auto simp: valid_allocation_def alloc_inv_def)

lemma Reconcile_pinned:
  assumes "ReconcilePorts existing reqs start end = Some (Inr m)" "end < max_int32"
    "find (\<lambda>r. req_UID r = u) reqs = Some r" "req_RequestedPort r = Some p"
  shows "map_of m u = Some p"
proof -
  have r: "named_request r \<in> set (prepare_requests reqs)" by (rule prepare_first [OF assms(3)])
  have u: "req_UID r = u" using find_Some_set [OF assms(3)] by simp
  from assms(1,2) show ?thesis
  proof (rule ReconcilePorts_passes)
    fix res1 used1
    assume pin: "pin_ports start end [] [] [] (prepare_requests reqs) = Inr (res1, used1)"
      and le: "map_of res1 \<subseteq>\<^sub>m map_of m"
    have "map_of res1 (req_UID (named_request r)) = req_RequestedPort (named_request r)"
      using passes_pin [OF pin] r by blast
    then show ?thesis using le assms(4) u by (auto intro: map_le_Some)
  qed
qed

lemma Reconcile_kept:
  assumes "ReconcilePorts existing reqs start end = Some (Inr m)" "end < max_int32"
    "find (\<lambda>r. req_UID r = u) reqs = Some r" "req_RequestedPort r = None"
    "map_of existing u = Some p" "in_range start end p"
    "p \<notin> set (pinned (dedupe_on req_UID [] reqs))"
    "\<forall>u' \<in> req_UID ` set reqs. map_of existing u' = Some p \<longrightarrow> u' = u"
  shows "map_of m u = Some p"
proof -
  let ?rs = "prepare_requests reqs"
  have r: "named_request r \<in> set ?rs" by (rule prepare_first [OF assms(3)])
  have u: "req_UID (named_request r) = u" using find_Some_set [OF assms(3)] by simp
  from assms(1,2) show ?thesis
  proof (rule ReconcilePorts_passes)
    fix res1 used1 res2 used2
    assume pin: "pin_ports start end [] [] [] ?rs = Inr (res1, used1)"
      and inv: "alloc_inv start end res1 used1"
      and keep: "keep_existing start end existing res1 used1 ?rs = (res2, used2)"
      and le: "map_of res2 \<subseteq>\<^sub>m map_of m"
    have res1: "map_of res1 (req_UID q) = req_RequestedPort q" if "q \<in> set ?rs" for q
      using passes_pin [OF pin] that by blast
    have "p \<notin> set used1"
    proof
      assume "p \<in> set used1"
      then obtain k where "(k, p) \<in> set res1" using inv by (auto simp: alloc_inv_def)
      then have k: "map_of res1 k = Some p" using inv by (simp add: alloc_inv_def)
      then have "k \<in> fst ` set res1" by (rule map_of_Some_keys)
      then have "k \<in> req_UID ` set ?rs" using passes_pin [OF pin] by blast
      then obtain q where "q \<in> set ?rs" "req_RequestedPort q = Some p" using k res1 by auto
      then have "p \<in> set (pinned ?rs)" by (auto simp: set_pinned)
      then show False using assms(7) by (simp add: pinned_prepare)
    qed
    moreover have "map_of res1 u = None" using res1 [OF r] assms(4) u by simp
    moreover have "\<forall>q \<in> set ?rs. map_of existing (req_UID q) = Some p \<longrightarrow>
        map_of res1 (req_UID q) = None \<longrightarrow> req_UID q = u"
      using assms(8) prepare_uids [of reqs] by (metis imageI)
    ultimately have "map_of res2 u = Some p"
      using keep_existing_kept [OF keep inv r, unfolded u, OF _ assms(5,6)] by simp
    then show ?thesis by (rule map_le_Some [OF le])
  qed
qed

lemma Reconcile_ok_iff:
  assumes "0 < start" "start \<le> end" "end < max_int32"
  shows "(\<exists>m. ReconcilePorts existing reqs start end = Some (Inr m)) \<longleftrightarrow> satisfiable start end reqs"
proof
  let ?rs = "prepare_requests reqs"
  assume "\<exists>m. ReconcilePorts existing reqs start end = Some (Inr m)"
  then obtain m where m: "ReconcilePorts existing reqs start end = Some (Inr m)" by blast
  then have "is_ok (pin_ports start end [] [] [] ?rs)"
    using assms by (auto simp: ReconcilePorts_def Let_def split: sum.splits)
  moreover have "int (length ?rs) \<le> end + 1 - start"
  proof -
    have v: "valid_allocation (req_UID ` set reqs) start end m" by (rule Reconcile_valid [OF m assms(3)])
    then have "snd ` set m \<subseteq> {start..end}" by (auto simp: valid_allocation_def in_range_def)
    then have "card (snd ` set m) \<le> card {start..end}" by (rule card_mono [rotated]) simp
    moreover have "card (snd ` set m) = length m" "card (fst ` set m) = length m"
      using v by (metis distinct_card length_map list.set_map valid_allocation_def)+
    ultimately show ?thesis
      using v assms(2) by (simp add: length_prepare length_dedupe valid_allocation_def)
  qed
  ultimately show "satisfiable start end reqs"
    by (simp add: satisfiable_def Let_def pin_ports_ok pinned_prepare length_prepare)
next
  let ?rs = "prepare_requests reqs"
  assume sat: "satisfiable start end reqs"
  then have "is_ok (pin_ports start end [] [] [] ?rs)"
    by (simp add: satisfiable_def Let_def pin_ports_ok pinned_prepare)
  then obtain res1 used1 where pin: "pin_ports start end [] [] [] ?rs = Inr (res1, used1)"
    by (auto simp: is_ok_iff)
  obtain res2 used2 where
    keep: "keep_existing start end existing res1 used1 ?rs = (res2, used2)" by force
  have inv1: "alloc_inv start end res1 used1" "fst ` set res1 \<subseteq> req_UID ` set ?rs"
    using passes_pin [OF pin] by blast+
  have inv2: "alloc_inv start end res2 used2" "fst ` set res2 \<subseteq> req_UID ` set ?rs"
    using keep_existing_inv [OF keep inv1(1)] inv1(2) by blast+
  have "int (length res2 + waiting res2 ?rs) \<le> end + 1 - start"
    using passes_waiting [OF inv2 prepare_distinct] sat
    by (simp add: satisfiable_def Let_def length_prepare)
  moreover have "scan_inv start end used2 start"
    using assms by (simp add: scan_inv_def is_int32_def max_int32_def)
  ultimately obtain m where
    "allocate_new start end (length ?rs) res2 used2 start ?rs = Some (Inr m)"
    using allocate_new_succeeds [OF inv2(1) _ assms(3) prepare_distinct] by blast
  then show "\<exists>m. ReconcilePorts existing reqs start end = Some (Inr m)"
    using assms pin keep by (simp add: ReconcilePorts_def Let_def)
qed

section \<open>The contract\<close>

text \<open>
  What the controller relies on. A successful allocation is valid; the first request of a UID decides
  whether its port is pinned; a request without a pin keeps the port it had; a request list that can
  be satisfied is satisfied.
\<close>

locale port_allocation =
  fixes allocate :: "(string, int) gomap \<Rightarrow> link_port_request list \<Rightarrow> int \<Rightarrow> int \<Rightarrow>
    (string, int) gomap result option"
  assumes valid: "allocate existing reqs start end = Some (Inr m) \<Longrightarrow> end < max_int32 \<Longrightarrow>
      valid_allocation (req_UID ` set reqs) start end m"
    and honours: "allocate existing reqs start end = Some (Inr m) \<Longrightarrow> end < max_int32 \<Longrightarrow>
      find (\<lambda>r. req_UID r = u) reqs = Some r \<Longrightarrow> req_RequestedPort r = Some p \<Longrightarrow> map_of m u = Some p"
    and keeps: "allocate existing reqs start end = Some (Inr m) \<Longrightarrow> end < max_int32 \<Longrightarrow>
      find (\<lambda>r. req_UID r = u) reqs = Some r \<Longrightarrow> req_RequestedPort r = None \<Longrightarrow>
      map_of existing u = Some p \<Longrightarrow> in_range start end p \<Longrightarrow>
      p \<notin> set (pinned (dedupe_on req_UID [] reqs)) \<Longrightarrow>
      \<forall>u' \<in> req_UID ` set reqs. map_of existing u' = Some p \<longrightarrow> u' = u \<Longrightarrow> map_of m u = Some p"
    and rejects: "start \<le> 0 \<or> end < start \<Longrightarrow> \<exists>e. allocate existing reqs start end = Some (Inl e)"
    and succeeds: "0 < start \<Longrightarrow> start \<le> end \<Longrightarrow> end < max_int32 \<Longrightarrow>
      (\<exists>m. allocate existing reqs start end = Some (Inr m)) \<longleftrightarrow> satisfiable start end reqs"
begin

lemma range_ok:
  "allocate existing reqs start end = Some (Inr m) \<Longrightarrow> 0 < start \<and> start \<le> end"
  using rejects [of start "end" existing reqs] by force

lemma positive:
  "allocate existing reqs start end = Some (Inr m) \<Longrightarrow> end < max_int32 \<Longrightarrow>
     map_of m u = Some p \<Longrightarrow> 0 < p"
  using valid [of existing reqs start "end" m] range_ok [of existing reqs start "end" m]
  by (force simp: valid_allocation_def in_range_def dest: map_of_SomeD)

lemma conflict_free:
  assumes "allocate existing reqs start end = Some (Inr m)" "end < max_int32"
    "map_of m u = Some p" "map_of m v = Some p"
  shows "u = v"
proof -
  have "distinct (map snd m)" using valid [OF assms(1,2)] by (simp add: valid_allocation_def)
  moreover have "(u, p) \<in> set m" "(v, p) \<in> set m" using assms(3,4) by (auto dest: map_of_SomeD)
  ultimately show ?thesis by (fastforce simp: distinct_map inj_on_def)
qed

lemma finds_request:
  assumes "u \<in> req_UID ` set reqs"
  obtains r where "find (\<lambda>r. req_UID r = u) reqs = Some r" "r \<in> set (dedupe_on req_UID [] reqs)"
proof -
  obtain r where r: "find (\<lambda>r. req_UID r = u) reqs = Some r"
    using assms by (cases "find (\<lambda>r. req_UID r = u) reqs") (auto simp: find_None_iff)
  then have "find (\<lambda>r. req_UID r = u) (dedupe_on req_UID [] reqs) = Some r"
    by (simp add: dedupe_on_find)
  from that [OF r] find_Some_set [OF this] show thesis by simp
qed

text \<open>A second run with the same requests, starting from the result of the first, changes nothing.\<close>

lemma idempotent:
  assumes m: "allocate existing reqs start end = Some (Inr m)" and e: "end < max_int32"
  shows "\<exists>m'. allocate m reqs start end = Some (Inr m') \<and> map_of m' = map_of m"
proof -
  have range: "0 < start" "start \<le> end" using range_ok [OF m] by auto
  obtain m' where m': "allocate m reqs start end = Some (Inr m')"
    using succeeds [OF range e] m by blast
  have v: "valid_allocation (req_UID ` set reqs) start end m" by (rule valid [OF m e])
  have v': "valid_allocation (req_UID ` set reqs) start end m'" by (rule valid [OF m' e])
  have "map_of m' u = map_of m u" for u
  proof (cases "u \<in> req_UID ` set reqs")
    case False
    then have "map_of m u = None" "map_of m' u = None"
      using v v' by (simp_all add: valid_allocation_def map_of_None_keys)
    then show ?thesis by simp
  next
    case True
    then obtain r where r: "find (\<lambda>r. req_UID r = u) reqs = Some r" "r \<in> set (dedupe_on req_UID [] reqs)"
      by (rule finds_request)
    show ?thesis
    proof (cases "req_RequestedPort r")
      case (Some p)
      then show ?thesis using honours [OF m e r(1)] honours [OF m' e r(1)] by simp
    next
      case None
      obtain p where p: "map_of m u = Some p"
        using True v by (cases "map_of m u") (auto simp: valid_allocation_def map_of_None_keys)
      have "p \<notin> set (pinned (dedupe_on req_UID [] reqs))"
      proof
        assume "p \<in> set (pinned (dedupe_on req_UID [] reqs))"
        then obtain q where q: "q \<in> set (dedupe_on req_UID [] reqs)" "req_RequestedPort q = Some p"
          by (auto simp: set_pinned)
        have "find (\<lambda>r. req_UID r = req_UID q) (dedupe_on req_UID [] reqs) = Some q"
          by (rule find_distinct_key [OF dedupe_on_distinct q(1)])
        then have f: "find (\<lambda>r. req_UID r = req_UID q) reqs = Some q" by (simp add: dedupe_on_find)
        have "req_UID q = u" by (rule conflict_free [OF m e honours [OF m e f q(2)] p])
        then show False using f r(1) q(2) None by simp
      qed
      moreover have "in_range start end p"
        using v map_of_SomeD [OF p] by (force simp: valid_allocation_def)
      moreover have "\<forall>u' \<in> req_UID ` set reqs. map_of m u' = Some p \<longrightarrow> u' = u"
        using conflict_free [OF m e _ p] by blast
      ultimately show ?thesis using keeps [OF m' e r(1) None p] p by simp
    qed
  qed
  then show ?thesis using m' by blast
qed

end

lemma Reconcile_rejects:
  "start \<le> 0 \<or> end < start \<Longrightarrow> \<exists>e. ReconcilePorts existing reqs start end = Some (Inl e)"
  by (auto simp: ReconcilePorts_def)

interpretation allocator: port_allocation ReconcilePorts
  by (rule port_allocation.intro)
    (fact Reconcile_valid, fact Reconcile_pinned, fact Reconcile_kept, fact Reconcile_rejects,
     fact Reconcile_ok_iff)

text \<open>The allocator always returns.\<close>

lemma Reconcile_total:
  assumes "is_int32 start" "is_int32 end" "length reqs \<le> 715827882"
  shows "\<exists>r. ReconcilePorts existing reqs start end = Some r"
proof (cases "start \<le> 0 \<or> end < start")
  case True
  then show ?thesis using Reconcile_rejects by blast
next
  case False
  let ?rs = "prepare_requests reqs"
  show ?thesis
  proof (cases "pin_ports start end [] [] [] ?rs")
    case (Inl e)
    then show ?thesis using False by (simp add: ReconcilePorts_def Let_def)
  next
    case (Inr r)
    obtain res1 used1 where pin: "pin_ports start end [] [] [] ?rs = Inr (res1, used1)"
      using Inr by (cases r) auto
    obtain res2 used2 where
      keep: "keep_existing start end existing res1 used1 ?rs = (res2, used2)" by force
    have "length ?rs \<le> length reqs"
      using card_image_le [of "set reqs" req_UID] card_length [of reqs]
      by (simp add: length_prepare length_dedupe)
    then have "length used2 + length ?rs \<le> 2147483648"
      using passes_pin [OF pin] keep_existing_inv [OF keep] assms(3) by fastforce
    then obtain z where "allocate_new start end (length ?rs) res2 used2 start ?rs = Some z"
      using allocate_new_returns [OF assms(1,2)] False by fastforce
    then show ?thesis using False pin keep by (simp add: ReconcilePorts_def Let_def)
  qed
qed

section \<open>Properties\<close>

text \<open>
  C8: A successful \<^verbatim>\<open>ReconcilePorts\<close> gives every requesting UID, and no other, exactly one port; no
  two UIDs share a port and every port lies in the range, for ranges that end below the largest
  \<^verbatim>\<open>int32\<close>.
\<close>

theorem ReconcilePorts_valid:
  assumes "ReconcilePorts existing reqs start end = Some (Inr m)" "end < max_int32"
  shows "fst ` set m = req_UID ` set reqs \<and> distinct (map fst m) \<and> distinct (map snd m) \<and>
    (\<forall>p \<in> snd ` set m. start \<le> p \<and> p \<le> end)"
  using allocator.valid [OF assms] by (auto simp: valid_allocation_def in_range_def)

definition sample_requests :: "link_port_request list" where
  "sample_requests =
    [\<lparr>req_UID = ''a'', req_Name = ''ns/a'', req_RequestedPort = None\<rparr>,
     \<lparr>req_UID = ''b'', req_Name = ''ns/b'', req_RequestedPort = Some 4002\<rparr>,
     \<lparr>req_UID = ''c'', req_Name = ''ns/c'', req_RequestedPort = None\<rparr>]"

lemma sample_prepared: "prepare_requests sample_requests = sample_requests"
  by (simp add: sample_requests_def prepare_requests_def named_request_def request_key_def)

lemma sample_run:
  "ReconcilePorts [(''a'', 4001)] sample_requests 4000 4002 =
     Some (Inr [(''b'', 4002), (''a'', 4001), (''c'', 4000)])"
  unfolding ReconcilePorts_def sample_prepared
  by (simp add: sample_requests_def in_range_def find_next.simps)

theorem ReconcilePorts_valid_witness:
  "fst ` set [(''b'', 4002 :: int), (''a'', 4001), (''c'', 4000)] = req_UID ` set sample_requests"
proof -
  have "(4002 :: int) < max_int32" by (simp add: max_int32_def)
  from ReconcilePorts_valid [OF sample_run this] show ?thesis by blast
qed

text \<open>
  C9: With a valid range below the largest \<^verbatim>\<open>int32\<close>, \<^verbatim>\<open>ReconcilePorts\<close> succeeds exactly when the requested
  ports lie in the range, are pairwise different, and there are at most as many UIDs as ports; the
  previous allocation never makes it fail.
\<close>

theorem ReconcilePorts_succeeds_iff:
  assumes "0 < start" "start \<le> end" "end < max_int32"
  shows "(\<exists>m. ReconcilePorts existing reqs start end = Some (Inr m)) \<longleftrightarrow>
    (let first = dedupe_on req_UID [] reqs in
      (\<forall>p \<in> set (pinned first). start \<le> p \<and> p \<le> end) \<and> distinct (pinned first) \<and>
      int (length first) \<le> end + 1 - start)"
proof -
  have "in_range start end p \<longleftrightarrow> start \<le> p \<and> p \<le> end" for p by (auto simp: in_range_def)
  then show ?thesis
    using allocator.succeeds [OF assms, of existing reqs] by (simp add: satisfiable_def Let_def)
qed

theorem ReconcilePorts_succeeds_iff_witness:
  "\<exists>m. ReconcilePorts [(''a'', 1)] sample_requests 4000 4002 = Some (Inr m)"
proof -
  have "(0 :: int) < 4000" "(4000 :: int) \<le> 4002" "(4002 :: int) < max_int32"
    by (simp_all add: max_int32_def)
  from ReconcilePorts_succeeds_iff [OF this, of "[(''a'', 1)]" sample_requests]
  show ?thesis by (simp add: sample_requests_def Let_def)
qed

text \<open>
  C23: A requested port is honoured: the first request of a UID that pins a port gets that port,
  whatever was allocated before.
\<close>

theorem ReconcilePorts_honours_requested_port:
  assumes "ReconcilePorts existing reqs start end = Some (Inr m)" "end < max_int32"
    "find (\<lambda>r. req_UID r = u) reqs = Some r" "req_RequestedPort r = Some p"
  shows "map_of m u = Some p"
  by (rule allocator.honours [OF assms])

theorem ReconcilePorts_honours_requested_port_witness:
  "map_of [(''b'', 4002 :: int), (''a'', 4001), (''c'', 4000)] ''b'' = Some 4002"
  by (rule ReconcilePorts_honours_requested_port [OF sample_run,
        of _ "\<lparr>req_UID = ''b'', req_Name = ''ns/b'', req_RequestedPort = Some 4002\<rparr>"])
    (simp_all add: sample_requests_def max_int32_def)

text \<open>
  C22: Allocations are stable: a UID without a requested port keeps the port it had, as long as that
  port is in the range, is not requested by another UID, and was not also held by another requester.
\<close>

theorem ReconcilePorts_keeps_existing_port:
  assumes "ReconcilePorts existing reqs start end = Some (Inr m)" "end < max_int32"
    "find (\<lambda>r. req_UID r = u) reqs = Some r" "req_RequestedPort r = None"
    "map_of existing u = Some p" "start \<le> p" "p \<le> end"
    "\<forall>q \<in> set reqs. req_RequestedPort q \<noteq> Some p"
    "\<forall>u' \<in> req_UID ` set reqs. map_of existing u' = Some p \<longrightarrow> u' = u"
  shows "map_of m u = Some p"
proof -
  have "p \<notin> set (pinned (dedupe_on req_UID [] reqs))"
    using assms(8) dedupe_on_subset [of req_UID "[]" reqs] by (auto simp: set_pinned)
  moreover have "in_range start end p" using assms(6,7) by (simp add: in_range_def)
  ultimately show ?thesis using allocator.keeps [OF assms(1-5)] assms(9) by blast
qed

theorem ReconcilePorts_keeps_existing_port_witness:
  "map_of [(''b'', 4002 :: int), (''a'', 4001), (''c'', 4000)] ''a'' = Some 4001"
  by (rule ReconcilePorts_keeps_existing_port [OF sample_run,
        of _ "\<lparr>req_UID = ''a'', req_Name = ''ns/a'', req_RequestedPort = None\<rparr>"])
    (simp_all add: sample_requests_def max_int32_def)

text \<open>
  Reconciling again with the same requests, from the allocation of the first run, succeeds and
  allocates the same port to every UID.
\<close>

theorem ReconcilePorts_idempotent:
  assumes "ReconcilePorts existing reqs start end = Some (Inr m)" "end < max_int32"
  shows "\<exists>m'. ReconcilePorts m reqs start end = Some (Inr m') \<and> map_of m' = map_of m"
  by (rule allocator.idempotent [OF assms])

theorem ReconcilePorts_idempotent_witness:
  "\<exists>m'. ReconcilePorts [(''b'', 4002), (''a'', 4001), (''c'', 4000)] sample_requests 4000 4002 =
      Some (Inr m') \<and> map_of m' = map_of [(''b'', 4002), (''a'', 4001), (''c'', 4000)]"
  by (rule ReconcilePorts_idempotent [OF sample_run]) (simp add: max_int32_def)

text \<open>
  C38: The result does not depend on the order in which the requests are listed, provided their UIDs
  are distinct, as the UIDs of listed objects are.
\<close>

theorem ReconcilePorts_order_independent:
  assumes "mset reqs' = mset reqs" "distinct (map req_UID reqs)"
  shows "ReconcilePorts existing reqs' start end = ReconcilePorts existing reqs start end"
  by (simp only: ReconcilePorts_def prepare_perm [OF assms])

theorem ReconcilePorts_order_independent_witness:
  "ReconcilePorts [] (rev sample_requests) 4000 4002 = ReconcilePorts [] sample_requests 4000 4002"
  by (rule ReconcilePorts_order_independent) (simp_all add: sample_requests_def)

text \<open>
  \<^verbatim>\<open>ReconcilePorts\<close> returns for every \<^verbatim>\<open>int32\<close> range, the largest bound included, where the counter
  wraps around: the search for a free port always ends.
\<close>

theorem ReconcilePorts_returns:
  assumes "is_int32 start" "is_int32 end" "length reqs \<le> 715827882"
  shows "\<exists>r. ReconcilePorts existing reqs start end = Some r"
  using assms by (rule Reconcile_total)

theorem ReconcilePorts_returns_witness:
  "\<exists>r. ReconcilePorts [] sample_requests 2147483646 2147483647 = Some r"
  by (rule ReconcilePorts_returns) (simp_all add: is_int32_def sample_requests_def)

text \<open>
  At the largest \<^verbatim>\<open>int32\<close> bound the counter wraps: with one port left in the range
  2147483647-2147483647 a second request is not refused but gets the port -2147483648.
\<close>

theorem ReconcilePorts_counter_wraps:
  "ReconcilePorts [] [\<lparr>req_UID = ''a'', req_Name = ''ns/a'', req_RequestedPort = None\<rparr>,
       \<lparr>req_UID = ''b'', req_Name = ''ns/b'', req_RequestedPort = None\<rparr>] 2147483647 2147483647 =
     Some (Inr [(''a'', 2147483647), (''b'', -2147483648)])"
  by (simp add: ReconcilePorts_def prepare_requests_def named_request_def request_key_def
      find_next.simps wrap32_def)

end
