(* ===== verification/Sample_Objects.thy ===== *)
theory Sample_Objects
  imports Api_Types
begin

text \<open>
  Small concrete objects on which the witnesses evaluate the definitions: a group \<^verbatim>\<open>ns/g\<close> without a
  cloud, its machine ports \<^verbatim>\<open>ns/a\<close> and \<^verbatim>\<open>ns/b\<close>, and its links \<^verbatim>\<open>ns/b\<close>, \<^verbatim>\<open>ns/c\<close> and \<^verbatim>\<open>ns/d\<close>.
\<close>

definition sample_meta :: "string \<Rightarrow> string \<Rightarrow> object_meta" where
  "sample_meta uid name = \<lparr>meta_name = name, meta_namespace = ''ns'', meta_uid = uid,
     meta_generation = 1, meta_deletion_timestamp = None, meta_finalizers = []\<rparr>"

definition sample_link :: "string \<Rightarrow> string \<Rightarrow> pool_link" where
  "sample_link uid name = \<lparr>lk_meta = sample_meta uid name,
     lk_Spec = \<lparr>lks_MachineGroupRef = \<lparr>ref_name = ''g'', ref_namespace = []\<rparr>, lks_ClusterName = [],
       lks_RouteNamespace = [], lks_FrontendUser = [], lks_PDAddresses = [''pd:2379''],
       lks_NSServerAddr = [], lks_TLSSecretRef = None, lks_Disabled = False\<rparr>,
     lk_Status = \<lparr>lkt_ObservedGeneration = 0, lkt_Phase = [], lkt_Conditions = []\<rparr>\<rparr>"

definition sample_port :: "string \<Rightarrow> string \<Rightarrow> machine_port" where
  "sample_port uid name = \<lparr>mp_meta = sample_meta uid name,
     mp_Spec = \<lparr>mps_MachineGroupRef = \<lparr>ref_name = ''g'', ref_namespace = []\<rparr>,
       mps_RequestedPort = None, mps_Protocol = []\<rparr>,
     mp_Status = \<lparr>mpt_ObservedGeneration = 0, mpt_AssignedPort = None, mpt_Phase = [],
       mpt_Cloud = empty_port_cloud_status, mpt_Conditions = []\<rparr>\<rparr>"

definition sample_links :: "pool_link list" where
  "sample_links = [sample_link ''l1'' ''b'', sample_link ''l2'' ''c'', sample_link ''l3'' ''d'']"

definition sample_ports :: "machine_port list" where
  "sample_ports = [sample_port ''p1'' ''a'', sample_port ''p2'' ''b'']"

definition sample_allocation :: "(string, int) gomap" where
  "sample_allocation = [(''p1'', 10000), (''p2'', 10001)]"

definition sample_spec :: machine_group_spec where
  "sample_spec = \<lparr>sp_Replicas = Some 2,
     sp_Scaling = \<lparr>sc_MinReplicas = None, sc_MaxReplicas = None\<rparr>, sp_Provider = ''noop'',
     sp_ProviderConfigRef = None, sp_PortRange = \<lparr>range_start = 10000, range_end = 10010\<rparr>,
     sp_LinkSelector = None, sp_Exposure = \<lparr>ex_LoadBalancers = None\<rparr>,
     sp_Placement = \<lparr>pl_Region = [], pl_FailureDomains = [], pl_SpreadPolicy = []\<rparr>,
     sp_ResourceNames = \<lparr>rn_Group = [], rn_MachineTemplate = []\<rparr>,
     sp_Machine = \<lparr>ms_Image = ''ami-1'', ms_Class = ''c5.large'', ms_IdentityRef = [], ms_SSHKeyName = []\<rparr>,
     sp_Network = \<lparr>net_SubnetIDs = [''subnet-1''], net_SecurityGroupIDs = []\<rparr>,
     sp_Tags = [],
     sp_Bootstrap = \<lparr>bs_UserData = [],
       bs_Kubeconfig = \<lparr>kc_Path = [], kc_Inline = [], kc_RemoteRef = None\<rparr>\<rparr>,
     sp_TiProxy = \<lparr>rt_Image = [], rt_BaseImage = [], rt_Version = [], rt_Config = None,
       rt_APIPort = 0, rt_APIScheme = [], rt_ContainerName = [], rt_ConfigPath = [],
       rt_CertDir = [], rt_ExtraArgs = []\<rparr>\<rparr>"

definition sample_status :: machine_group_status where
  "sample_status = \<lparr>st_ObservedGeneration = 0, st_AllocatedPorts = [], st_ResolvedLinks = [],
     st_Machines = None, st_Cloud = empty_cloud_status, st_Conditions = []\<rparr>"

definition sample_mg :: machine_group where
  "sample_mg = \<lparr>mg_meta = sample_meta ''g1'' ''g'', mg_Spec = sample_spec, mg_Status = sample_status\<rparr>"

lemmas sample_group = sample_meta_def sample_link_def sample_port_def sample_links_def
  sample_ports_def sample_allocation_def sample_spec_def sample_status_def sample_mg_def

lemma sample_distinct:
  "distinct (map lk_uid sample_links)" "distinct (map (\<lambda>l. meta_key (lk_meta l)) sample_links)"
  "distinct (map mp_uid sample_ports)" "distinct (map (\<lambda>mp. meta_key (mp_meta mp)) sample_ports)"
  "distinct (map snd sample_allocation)"
  by (simp_all add: sample_group meta_key_def)

end
