(* ===== verification/Cloud_Manager.thy ===== *)
theory Cloud_Manager
  imports Exposure Sample_Objects
begin

text \<open>
  The cloud provider interface \<^verbatim>\<open>internal/cloud/manager.go\<close> and its implementation without a cloud,
  \<^verbatim>\<open>internal/cloud/noop/manager.go\<close>.

  A \<open>cloud_manager\<close> is the value of the Go interface: the two operations, over an environment \<open>'w\<close> that
  a provider may read and change. The locale \<open>cloud_provider\<close> states what the controller relies on when
  \<^verbatim>\<open>EnsureMachineGroup\<close> succeeds: the group is reported under its resolved names, with one status per
  normalised load balancer, and each machine port that has a port is reported on every one of them.
\<close>

section \<open>The interface\<close>

type_synonym ensure_result = "cloud_status \<times> (string, port_cloud_status) gomap \<times> go_error option"

type_synonym 'w ensure_op =
  "machine_group \<Rightarrow> machine_port list \<Rightarrow> (string, int) gomap \<Rightarrow> 'w \<Rightarrow> ensure_result \<times> 'w"

record 'w cloud_manager =
  EnsureMachineGroup :: "'w ensure_op"
  DeleteMachineGroup :: "machine_group \<Rightarrow> 'w act"

definition ResolveNames :: "machine_group \<Rightarrow> string \<times> string" where
  "ResolveNames mg =
     (let names = sp_ResourceNames (mg_Spec mg);
          full = meta_namespace (mg_meta mg) @ ''-'' @ meta_name (mg_meta mg);
          launchTemplateName = rn_MachineTemplate names;
          launchTemplateName = (if launchTemplateName = [] then full @ ''-lt'' else launchTemplateName);
          asgName = rn_Group names;
          asgName = (if asgName = [] then full @ ''-asg'' else asgName)
      in (launchTemplateName, asgName))"

section \<open>The provider without a cloud\<close>

definition noop_load_balancer :: "machine_group \<Rightarrow> lb_exposure_spec \<Rightarrow> lb_cloud_status" where
  "noop_load_balancer mg lb = \<lparr>lcs_Name = lbs_Name lb, lcs_Scope = lbs_Scope lb,
     lcs_LoadBalancerID = ''noop://'' @ meta_name (mg_meta mg) @ ''/'' @ lbs_Name lb,
     lcs_LoadBalancerAddress = lbs_Name lb @ ''.noop.local''\<rparr>"

definition noop_listener :: "int \<Rightarrow> lb_cloud_status \<Rightarrow> port_lb_cloud_status" where
  "noop_listener port lb = \<lparr>pls_Name = lcs_Name lb, pls_Scope = lcs_Scope lb,
     pls_LoadBalancerID = lcs_LoadBalancerID lb, pls_LoadBalancerAddress = lcs_LoadBalancerAddress lb,
     pls_ListenerID = ''noop-listener://'' @ lcs_Name lb @ ''/'' @ show_int port,
     pls_BackendID = ''noop-backend://'' @ lcs_Name lb @ ''/'' @ show_int port\<rparr>"

fun noop_ports ::
  "lb_cloud_status list \<Rightarrow> (string, int) gomap \<Rightarrow> machine_port list \<Rightarrow>
   (string, port_cloud_status) gomap \<Rightarrow> (string, port_cloud_status) gomap" where
  "noop_ports lbs allocated [] cloudByUID = cloudByUID"
| "noop_ports lbs allocated (mp # mps) cloudByUID =
     (case map_of allocated (mp_uid mp) of
        None \<Rightarrow> noop_ports lbs allocated mps cloudByUID
      | Some port \<Rightarrow>
          if port \<le> 0 then noop_ports lbs allocated mps cloudByUID
          else
            (let entry = empty_port_cloud_status\<lparr>pcs_LoadBalancers := map (noop_listener port) lbs\<rparr>;
                 entry = SetPrimaryLoadBalancerCompat_port entry
             in noop_ports lbs allocated mps (AList.update (mp_uid mp) entry cloudByUID)))"

definition noop_Ensure :: "'w ensure_op" where
  "noop_Ensure mg machinePorts allocated w =
     (let (lt, asg) = ResolveNames mg in
      case NormalizeLoadBalancers (sp_Exposure (mg_Spec mg)) of
        Inl e \<Rightarrow> ((empty_cloud_status, [], Some e), w)
      | Inr loadBalancers \<Rightarrow>
          (let status = empty_cloud_status\<lparr>cs_MachineGroupName := asg, cs_MachineTemplateName := lt\<rparr> in
           if loadBalancers = [] then ((status, [], None), w)
           else
             (let lbs = map (noop_load_balancer mg) loadBalancers;
                  status = status\<lparr>cs_LoadBalancers := lbs\<rparr>;
                  status = SetPrimaryLoadBalancerCompat_cloud status
              in ((status, noop_ports lbs allocated machinePorts [], None), w))))"

definition noop_Delete :: "machine_group \<Rightarrow> 'w act" where
  "noop_Delete mg = act_skip"

definition noop_manager :: "'w cloud_manager" where
  "noop_manager = \<lparr>EnsureMachineGroup = noop_Ensure, DeleteMachineGroup = noop_Delete\<rparr>"

section \<open>The contract of a provider\<close>

text \<open>The machine ports a provider has to serve: those whose UID has a positive port.\<close>

definition served_uids :: "machine_port list \<Rightarrow> (string, int) gomap \<Rightarrow> string set" where
  "served_uids mps allocated =
     {mp_uid mp | mp. mp \<in> set mps \<and> (\<exists>p. map_of allocated (mp_uid mp) = Some p \<and> 0 < p)}"

locale cloud_provider =
  fixes ensure :: "'w ensure_op"
  assumes rejects: "NormalizeLoadBalancers (sp_Exposure (mg_Spec mg)) = Inl e \<Longrightarrow>
      ensure mg mps allocated w = ((empty_cloud_status, [], Some e), w)"
    and names: "ensure mg mps allocated w = ((s, ports, None), w') \<Longrightarrow>
      (cs_MachineTemplateName s, cs_MachineGroupName s) = ResolveNames mg"
    and primary: "ensure mg mps allocated w = ((s, ports, None), w') \<Longrightarrow>
      SetPrimaryLoadBalancerCompat_cloud s = s"
    and balancers: "ensure mg mps allocated w = ((s, ports, None), w') \<Longrightarrow>
      NormalizeLoadBalancers (sp_Exposure (mg_Spec mg)) = Inr lbs \<Longrightarrow>
      mset (map (\<lambda>b. (lcs_Name b, lcs_Scope b)) (cs_LoadBalancers s)) =
      mset (map (\<lambda>b. (lbs_Name b, lbs_Scope b)) lbs)"
    and served: "ensure mg mps allocated w = ((s, ports, None), w') \<Longrightarrow>
      NormalizeLoadBalancers (sp_Exposure (mg_Spec mg)) = Inr lbs \<Longrightarrow> lbs \<noteq> [] \<Longrightarrow>
      dom (map_of ports) = served_uids mps allocated"
    and listeners: "ensure mg mps allocated w = ((s, ports, None), w') \<Longrightarrow>
      NormalizeLoadBalancers (sp_Exposure (mg_Spec mg)) = Inr lbs \<Longrightarrow> lbs \<noteq> [] \<Longrightarrow>
      map_of ports u = Some entry \<Longrightarrow>
      mset (map pls_Name (pcs_LoadBalancers entry)) = mset (map lbs_Name lbs)"
begin

lemma accepts_only_normalizable:
  assumes "ensure mg mps allocated w = ((s, ports, None), w')"
  obtains lbs where "NormalizeLoadBalancers (sp_Exposure (mg_Spec mg)) = Inr lbs"
proof (cases "NormalizeLoadBalancers (sp_Exposure (mg_Spec mg))")
  case (Inl e)
  from rejects [OF this, of mps allocated w] assms show thesis by simp
qed (rule that)

lemma balancer_count:
  assumes "ensure mg mps allocated w = ((s, ports, None), w')"
    "NormalizeLoadBalancers (sp_Exposure (mg_Spec mg)) = Inr lbs"
  shows "length (cs_LoadBalancers s) = length lbs"
  using balancers [OF assms] by (metis length_map size_mset)

text \<open>A machine port with a port is reported on every normalised load balancer.\<close>

lemma reported:
  assumes "ensure mg mps allocated w = ((s, ports, None), w')"
    "NormalizeLoadBalancers (sp_Exposure (mg_Spec mg)) = Inr lbs" "lbs \<noteq> []"
    "mp \<in> set mps" "map_of allocated (mp_uid mp) = Some p" "0 < p"
  obtains entry where "map_of ports (mp_uid mp) = Some entry"
    "pls_Name ` set (pcs_LoadBalancers entry) = lbs_Name ` set lbs"
proof -
  have "mp_uid mp \<in> dom (map_of ports)"
    unfolding served [OF assms(1-3)] served_uids_def using assms(4-6) by blast
  then obtain entry where e: "map_of ports (mp_uid mp) = Some entry" by blast
  from listeners [OF assms(1-3) e] have "pls_Name ` set (pcs_LoadBalancers entry) = lbs_Name ` set lbs"
    by (metis image_set set_mset_mset)
  with e show thesis by (rule that)
qed

end

text \<open>A provider whose listeners are identified as soon as it reports success.\<close>

locale listening_provider = cloud_provider +
  assumes listener_ids: "ensure mg mps allocated w = ((s, ports, None), w') \<Longrightarrow>
      map_of ports u = Some entry \<Longrightarrow> l \<in> set (pcs_LoadBalancers entry) \<Longrightarrow> \<not> blank (pls_ListenerID l)"

section \<open>The provider without a cloud satisfies the contract\<close>

text \<open>The entry the loop stores for a machine port.\<close>

definition noop_entry :: "lb_cloud_status list \<Rightarrow> int \<Rightarrow> port_cloud_status" where
  "noop_entry lbs p = SetPrimaryLoadBalancerCompat_port
     (empty_port_cloud_status\<lparr>pcs_LoadBalancers := map (noop_listener p) lbs\<rparr>)"

definition noop_stores ::
  "lb_cloud_status list \<Rightarrow> (string, int) gomap \<Rightarrow> machine_port list \<Rightarrow> (string \<times> port_cloud_status) list" where
  "noop_stores lbs allocated mps = List.map_filter (\<lambda>mp. case map_of allocated (mp_uid mp) of
       None \<Rightarrow> None
     | Some p \<Rightarrow> if p \<le> 0 then None else Some (mp_uid mp, noop_entry lbs p)) mps"

lemma noop_stores_simps [simp]:
  "noop_stores lbs allocated [] = []"
  "noop_stores lbs allocated (mp # mps) = (case map_of allocated (mp_uid mp) of
     None \<Rightarrow> noop_stores lbs allocated mps
   | Some p \<Rightarrow> if p \<le> 0 then noop_stores lbs allocated mps
               else (mp_uid mp, noop_entry lbs p) # noop_stores lbs allocated mps)"
  by (simp_all add: noop_stores_def map_filter_simps split: option.split)

lemma noop_ports_stores: "noop_ports lbs allocated mps acc = store_all (noop_stores lbs allocated mps) acc"
  by (induction mps arbitrary: acc) (auto simp: Let_def noop_entry_def split: option.split)

lemma set_noop_stores:
  "set (noop_stores lbs allocated mps) =
     {(mp_uid mp, noop_entry lbs p) | mp p. mp \<in> set mps \<and> map_of allocated (mp_uid mp) = Some p \<and> 0 < p}"
proof (induction mps)
  case (Cons mp mps)
  show ?case
  proof (cases "\<exists>p. map_of allocated (mp_uid mp) = Some p \<and> 0 < p")
    case True
    then obtain p where p: "map_of allocated (mp_uid mp) = Some p" "0 < p" by blast
    then have "set (noop_stores lbs allocated (mp # mps)) =
        insert (mp_uid mp, noop_entry lbs p) (set (noop_stores lbs allocated mps))" by simp
    then show ?thesis unfolding Cons using p by auto
  next
    case False
    then have "set (noop_stores lbs allocated (mp # mps)) = set (noop_stores lbs allocated mps)"
      by (auto split: option.split)
    then show ?thesis unfolding Cons using False by auto
  qed
qed simp

lemma noop_entry_balancers [simp]:
  "pcs_LoadBalancers (noop_entry lbs p) = map (noop_listener p) lbs"
  by (simp add: noop_entry_def SetPrimaryLoadBalancerCompat_port_def Let_def split: list.split)

lemma noop_listener_names [simp]:
  "pls_Name (noop_listener p (noop_load_balancer mg lb)) = lbs_Name lb"
  by (simp add: noop_listener_def noop_load_balancer_def)

lemma noop_listener_solid: "\<not> blank (pls_ListenerID (noop_listener p lb))"
proof -
  have "\<forall>w \<in> set white_space. CHR ''n'' \<notin> set w" by (simp add: white_space_def)
  from trim_space_starts_solid [OF this] show ?thesis by (simp add: noop_listener_def)
qed

lemma SetPrimary_cloud_idem [simp]:
  "SetPrimaryLoadBalancerCompat_cloud (SetPrimaryLoadBalancerCompat_cloud s) =
     SetPrimaryLoadBalancerCompat_cloud s"
  by (cases "cs_LoadBalancers s") (simp_all add: SetPrimaryLoadBalancerCompat_cloud_def Let_def)

lemma SetPrimary_cloud_fields [simp]:
  "cs_LoadBalancers (SetPrimaryLoadBalancerCompat_cloud s) = cs_LoadBalancers s"
  "cs_MachineGroupName (SetPrimaryLoadBalancerCompat_cloud s) = cs_MachineGroupName s"
  "cs_MachineTemplateName (SetPrimaryLoadBalancerCompat_cloud s) = cs_MachineTemplateName s"
  by (simp_all add: SetPrimaryLoadBalancerCompat_cloud_def Let_def split: list.split)

text \<open>The two successful outcomes.\<close>

lemma noop_Ensure_cases:
  assumes "noop_Ensure mg mps allocated w = ((s, ports, None), w')"
  obtains (disabled) "NormalizeLoadBalancers (sp_Exposure (mg_Spec mg)) = Inr []" "ports = []" "w' = w"
      "s = empty_cloud_status\<lparr>cs_MachineGroupName := snd (ResolveNames mg),
        cs_MachineTemplateName := fst (ResolveNames mg)\<rparr>"
  | (exposed) lbs where "NormalizeLoadBalancers (sp_Exposure (mg_Spec mg)) = Inr lbs" "lbs \<noteq> []" "w' = w"
      "ports = noop_ports (map (noop_load_balancer mg) lbs) allocated mps []"
      "s = SetPrimaryLoadBalancerCompat_cloud (empty_cloud_status\<lparr>
        cs_MachineGroupName := snd (ResolveNames mg), cs_MachineTemplateName := fst (ResolveNames mg),
        cs_LoadBalancers := map (noop_load_balancer mg) lbs\<rparr>)"
proof (cases "NormalizeLoadBalancers (sp_Exposure (mg_Spec mg))")
  case (Inl e)
  then show thesis using assms by (simp add: noop_Ensure_def split: prod.splits)
next
  case (Inr lbs)
  then show thesis
    using assms that by (cases "lbs = []") (auto simp: noop_Ensure_def Let_def split: prod.splits)
qed

interpretation noop: listening_provider noop_Ensure
proof unfold_locales
  fix mg :: machine_group and mps :: "machine_port list" and allocated and w :: 'w and e
  assume "NormalizeLoadBalancers (sp_Exposure (mg_Spec mg)) = Inl e"
  then show "noop_Ensure mg mps allocated w = ((empty_cloud_status, [], Some e), w)"
    by (simp add: noop_Ensure_def split: prod.split)
next
  fix mg :: machine_group and mps :: "machine_port list" and allocated and w w' :: 'w and s ports
  assume run: "noop_Ensure mg mps allocated w = ((s, ports, None), w')"
  from run show "(cs_MachineTemplateName s, cs_MachineGroupName s) = ResolveNames mg"
    by (cases rule: noop_Ensure_cases) simp_all
  from run show "SetPrimaryLoadBalancerCompat_cloud s = s"
  proof (cases rule: noop_Ensure_cases)
    case disabled
    then show ?thesis by (simp add: SetPrimaryLoadBalancerCompat_cloud_def empty_cloud_status_def)
  qed simp
  {
    fix lbs assume lbs: "NormalizeLoadBalancers (sp_Exposure (mg_Spec mg)) = Inr lbs"
    from run show "mset (map (\<lambda>b. (lcs_Name b, lcs_Scope b)) (cs_LoadBalancers s)) =
        mset (map (\<lambda>b. (lbs_Name b, lbs_Scope b)) lbs)"
      by (cases rule: noop_Ensure_cases)
        (use lbs in \<open>simp_all add: empty_cloud_status_def noop_load_balancer_def comp_def\<close>)
    assume ne: "lbs \<noteq> []"
    from run have ports: "ports = noop_ports (map (noop_load_balancer mg) lbs) allocated mps []"
      by (cases rule: noop_Ensure_cases) (use lbs ne in simp_all)
    show "dom (map_of ports) = served_uids mps allocated"
      unfolding ports noop_ports_stores dom_store_all set_noop_stores served_uids_def by force
    fix u entry assume "map_of ports u = Some entry"
    then have "\<exists>p. entry = noop_entry (map (noop_load_balancer mg) lbs) p"
      using store_all_lookup unfolding ports noop_ports_stores by (fastforce simp: set_noop_stores)
    then show "mset (map pls_Name (pcs_LoadBalancers entry)) = mset (map lbs_Name lbs)"
      by (auto simp: multiset.map_comp comp_def)
  }
  fix u entry l assume "map_of ports u = Some entry" "l \<in> set (pcs_LoadBalancers entry)"
  from run this show "\<not> blank (pls_ListenerID l)"
    by (cases rule: noop_Ensure_cases)
      (auto simp: noop_ports_stores set_noop_stores noop_listener_solid dest!: store_all_lookup)
qed

section \<open>Properties\<close>

text \<open>
  When the provider without a cloud succeeds, it reports one load balancer per normalised one under
  the group's resolved names, and every machine port with a positive port on each of them, with a
  listener.
\<close>

theorem noop_Ensure_serves:
  assumes "noop_Ensure mg mps allocated w = ((s, ports, None), w')"
    "NormalizeLoadBalancers (sp_Exposure (mg_Spec mg)) = Inr lbs" "lbs \<noteq> []"
    "mp \<in> set mps" "map_of allocated (mp_uid mp) = Some p" "0 < p"
  shows "length (cs_LoadBalancers s) = length lbs \<and>
    (cs_MachineTemplateName s, cs_MachineGroupName s) = ResolveNames mg \<and>
    (\<exists>entry. map_of ports (mp_uid mp) = Some entry \<and>
       pls_Name ` set (pcs_LoadBalancers entry) = lbs_Name ` set lbs \<and>
       (\<forall>l \<in> set (pcs_LoadBalancers entry). \<not> blank (pls_ListenerID l)))"
proof -
  from noop.reported [OF assms] obtain entry where e: "map_of ports (mp_uid mp) = Some entry"
    "pls_Name ` set (pcs_LoadBalancers entry) = lbs_Name ` set lbs" .
  with noop.listener_ids [OF assms(1) e(1)] noop.balancer_count [OF assms(1,2)] noop.names [OF assms(1)]
  show ?thesis by blast
qed

theorem noop_Ensure_serves_witness:
  "\<exists>entry. map_of (fst (snd (fst (noop_Ensure sample_mg sample_ports sample_allocation ())))) ''p1'' =
     Some entry"
proof -
  let ?lb = "\<lparr>lbs_Name = ''internal'', lbs_Scope = ''internal'', lbs_LoadBalancerName = [],
    lbs_SubnetIDs = []\<rparr>"
  obtain s ports e w' where run:
    "noop_Ensure sample_mg sample_ports sample_allocation () = ((s, ports, e), w')"
    by (metis surj_pair)
  have lbs: "NormalizeLoadBalancers (sp_Exposure (mg_Spec sample_mg)) = Inr [?lb]"
    by (simp add: sample_mg_def sample_spec_def NormalizeLoadBalancers_def)
  then have "e = None"
    using run by (auto simp: noop_Ensure_def Let_def split: prod.splits)
  moreover have "sample_port ''p1'' ''a'' \<in> set sample_ports" "(0 :: int) < 10000"
    "map_of sample_allocation (mp_uid (sample_port ''p1'' ''a'')) = Some 10000"
    by (simp_all add: sample_group)
  ultimately have "\<exists>entry. map_of ports (mp_uid (sample_port ''p1'' ''a'')) = Some entry"
    using noop_Ensure_serves [of sample_mg sample_ports sample_allocation "()" s ports w' "[?lb]"
        "sample_port ''p1'' ''a''" 10000] run lbs by blast
  then show ?thesis by (simp add: run sample_port_def sample_meta_def)
qed

end
