(* ===== verification/Kube_Client.thy ===== *)
theory Kube_Client
  imports Cloud_Manager
begin

text \<open>
  What the operator uses of the Kubernetes libraries, as parameters: \<open>kube_client\<close> holds the calls of
  \<^verbatim>\<open>client.Client\<close> and the clock, \<open>kube_lib\<close> the functions without effects (conditions, finalizers,
  selectors, error classification). None of them is defined here; what a theorem needs of them is one
  of the named predicates below, which state their documentation.

  A call acts on an environment \<open>'w\<close>. Reading the clock is a function of the environment: readings with
  no call in between are equal. \<^verbatim>\<open>Patch\<close> takes the object before and after the change, the two from which
  \<^verbatim>\<open>client.MergeFrom\<close> computes the patch; the code never uses the object a patch returns.

  \<open>recorded\<close> wraps a client, and \<open>recorded_manager\<close> a cloud manager, so that each call, with what it
  answered, is also appended to a log; theorems about the order of calls are theorems about that log.
\<close>

section \<open>The client and the library\<close>

record 'w kube_client =
  k_get_group :: "namespaced_name \<Rightarrow> 'w \<Rightarrow> machine_group result \<times> 'w"
  k_list_links :: "string \<Rightarrow> label_selector option \<Rightarrow> 'w \<Rightarrow> pool_link list result \<times> 'w"
  k_list_ports :: "string \<Rightarrow> 'w \<Rightarrow> machine_port list result \<times> 'w"
  k_patch_group :: "machine_group \<Rightarrow> machine_group \<Rightarrow> 'w act"
  k_patch_group_status :: "machine_group \<Rightarrow> machine_group \<Rightarrow> 'w act"
  k_patch_port_status :: "machine_port \<Rightarrow> machine_port \<Rightarrow> 'w act"
  k_patch_link_status :: "pool_link \<Rightarrow> pool_link \<Rightarrow> 'w act"
  k_now :: "'w \<Rightarrow> time"

record kube_lib =
  lib_is_not_found :: "go_error \<Rightarrow> bool"
  lib_selector_error :: "label_selector \<Rightarrow> go_error option"
  lib_contains_finalizer :: "object_meta \<Rightarrow> string \<Rightarrow> bool"
  lib_add_finalizer :: "object_meta \<Rightarrow> string \<Rightarrow> object_meta"
  lib_remove_finalizer :: "object_meta \<Rightarrow> string \<Rightarrow> object_meta"
  lib_set_condition :: "condition list \<Rightarrow> condition \<Rightarrow> condition list"

definition condition_of :: "string \<Rightarrow> condition list \<Rightarrow> condition option" where
  "condition_of t cs = find (\<lambda>c. cond_type c = t) cs"

text \<open>
  The documentation of \<^verbatim>\<open>meta.SetStatusCondition\<close>: afterwards the condition of the new type is the new
  condition, up to its transition time, and conditions of the other types are as before.
\<close>

definition set_condition_law :: "kube_lib \<Rightarrow> bool" where
  "set_condition_law L \<longleftrightarrow> (\<forall>cs c.
     (\<exists>t. condition_of (cond_type c) (lib_set_condition L cs c) = Some (c\<lparr>cond_transition := t\<rparr>)) \<and>
     (\<forall>t. t \<noteq> cond_type c \<longrightarrow> condition_of t (lib_set_condition L cs c) = condition_of t cs))"

text \<open>
  The documentation of \<^verbatim>\<open>controllerutil\<close>: adding a finalizer makes \<^verbatim>\<open>ContainsFinalizer\<close> true, removing it
  makes it false.
\<close>

definition finalizer_law :: "kube_lib \<Rightarrow> bool" where
  "finalizer_law L \<longleftrightarrow> (\<forall>m f.
     lib_contains_finalizer L (lib_add_finalizer L m f) f \<and>
     \<not> lib_contains_finalizer L (lib_remove_finalizer L m f) f)"

lemma set_condition_same:
  assumes "set_condition_law L"
  obtains t where "condition_of (cond_type c) (lib_set_condition L cs c) = Some (c\<lparr>cond_transition := t\<rparr>)"
  using assms unfolding set_condition_law_def by blast

lemma set_condition_other:
  "set_condition_law L \<Longrightarrow> t \<noteq> cond_type c \<Longrightarrow>
     condition_of t (lib_set_condition L cs c) = condition_of t cs"
  unfolding set_condition_law_def by blast

text \<open>The status of a condition, \<open>None\<close> when there is no such condition.\<close>

definition status_of :: "string \<Rightarrow> condition list \<Rightarrow> string option" where
  "status_of t cs = map_option cond_status (condition_of t cs)"

lemma status_of_set:
  assumes "set_condition_law L"
  shows "status_of t (lib_set_condition L cs c) =
    (if t = cond_type c then Some (cond_status c) else status_of t cs)"
proof (cases "t = cond_type c")
  case True
  from set_condition_same [OF assms, of c cs] show ?thesis
    using True by (metis (no_types) condition.select_convs(2) condition.surjective
        condition.update_convs(4) option.simps(9) status_of_def)
next
  case False
  then show ?thesis by (simp add: status_of_def set_condition_other [OF assms])
qed

section \<open>Recorded calls\<close>

datatype event =
    GetGroup namespaced_name "machine_group result"
  | ListLinks string "label_selector option" "pool_link list result"
  | ListPorts string "machine_port list result"
  | PatchGroup machine_group machine_group "go_error option"
  | PatchGroupStatus machine_group machine_group "go_error option"
  | PatchPortStatus machine_port machine_port "go_error option"
  | PatchLinkStatus pool_link pool_link "go_error option"
  | CloudEnsure machine_group "machine_port list" "(string, int) gomap" ensure_result
  | CloudDelete machine_group "go_error option"

type_synonym 'w logged = "'w \<times> event list"

definition log_call :: "('r \<Rightarrow> event) \<Rightarrow> ('w \<Rightarrow> 'r \<times> 'w) \<Rightarrow> 'w logged \<Rightarrow> 'r \<times> 'w logged" where
  "log_call ev f wl = (case f (fst wl) of (r, w') \<Rightarrow> (r, (w', snd wl @ [ev r])))"

definition recorded :: "'w kube_client \<Rightarrow> 'w logged kube_client" where
  "recorded k = \<lparr>
     k_get_group = (\<lambda>n. log_call (GetGroup n) (k_get_group k n)),
     k_list_links = (\<lambda>ns sel. log_call (ListLinks ns sel) (k_list_links k ns sel)),
     k_list_ports = (\<lambda>ns. log_call (ListPorts ns) (k_list_ports k ns)),
     k_patch_group = (\<lambda>b o'. log_call (PatchGroup b o') (k_patch_group k b o')),
     k_patch_group_status = (\<lambda>b o'. log_call (PatchGroupStatus b o') (k_patch_group_status k b o')),
     k_patch_port_status = (\<lambda>b o'. log_call (PatchPortStatus b o') (k_patch_port_status k b o')),
     k_patch_link_status = (\<lambda>b o'. log_call (PatchLinkStatus b o') (k_patch_link_status k b o')),
     k_now = (\<lambda>wl. k_now k (fst wl))\<rparr>"

definition recorded_manager :: "'w cloud_manager \<Rightarrow> 'w logged cloud_manager" where
  "recorded_manager m = \<lparr>
     EnsureMachineGroup = (\<lambda>mg mps allocated.
       log_call (CloudEnsure mg mps allocated) (EnsureMachineGroup m mg mps allocated)),
     DeleteMachineGroup = (\<lambda>mg. log_call (CloudDelete mg) (DeleteMachineGroup m mg))\<rparr>"

lemma recorded_simps [simp]:
  "k_get_group (recorded k) n = log_call (GetGroup n) (k_get_group k n)"
  "k_list_links (recorded k) ns sel = log_call (ListLinks ns sel) (k_list_links k ns sel)"
  "k_list_ports (recorded k) ns = log_call (ListPorts ns) (k_list_ports k ns)"
  "k_patch_group (recorded k) b g = log_call (PatchGroup b g) (k_patch_group k b g)"
  "k_patch_group_status (recorded k) b g =
     log_call (PatchGroupStatus b g) (k_patch_group_status k b g)"
  "k_patch_port_status (recorded k) p q =
     log_call (PatchPortStatus p q) (k_patch_port_status k p q)"
  "k_patch_link_status (recorded k) l m =
     log_call (PatchLinkStatus l m) (k_patch_link_status k l m)"
  "k_now (recorded k) wl = k_now k (fst wl)"
  by (simp_all add: recorded_def)

lemma recorded_manager_simps [simp]:
  "EnsureMachineGroup (recorded_manager m) mg mps allocated =
     log_call (CloudEnsure mg mps allocated) (EnsureMachineGroup m mg mps allocated)"
  "DeleteMachineGroup (recorded_manager m) mg = log_call (CloudDelete mg) (DeleteMachineGroup m mg)"
  by (simp_all add: recorded_manager_def)

lemma log_call_result: "log_call ev f wl = (r, wl') \<Longrightarrow> f (fst wl) = (r, fst wl') \<and> snd wl' = snd wl @ [ev r]"
  by (auto simp: log_call_def split: prod.splits)

lemma log_call_eq: "log_call ev f (w, es) = (fst (f w), (snd (f w), es @ [ev (fst (f w))]))"
  by (simp add: log_call_def split: prod.split)

text \<open>A library for the witnesses.\<close>

definition sample_set_condition :: "condition list \<Rightarrow> condition \<Rightarrow> condition list" where
  "sample_set_condition cs c = c # filter (\<lambda>d. cond_type d \<noteq> cond_type c) cs"

definition sample_lib :: kube_lib where
  "sample_lib = \<lparr>lib_is_not_found = (\<lambda>e. err_text e = ''not found''),
     lib_selector_error = (\<lambda>_. None),
     lib_contains_finalizer = (\<lambda>m f. f \<in> set (meta_finalizers m)),
     lib_add_finalizer = (\<lambda>m f. m\<lparr>meta_finalizers := meta_finalizers m @ [f]\<rparr>),
     lib_remove_finalizer = (\<lambda>m f. m\<lparr>meta_finalizers := filter (\<lambda>g. g \<noteq> f) (meta_finalizers m)\<rparr>),
     lib_set_condition = sample_set_condition\<rparr>"

lemma find_filter_other:
  "(\<And>x. P x \<Longrightarrow> Q x) \<Longrightarrow> find P (filter Q xs) = find P xs"
  by (induction xs) auto

lemma sample_set_condition_law: "set_condition_law sample_lib"
proof -
  have "\<exists>t. c = c\<lparr>cond_transition := t\<rparr>" for c :: condition
    by (rule exI [of _ "cond_transition c"]) simp
  then show ?thesis
    by (auto simp: set_condition_law_def sample_lib_def sample_set_condition_def condition_of_def
        intro!: find_filter_other)
qed

lemma sample_finalizer_law: "finalizer_law sample_lib"
  by (simp add: finalizer_law_def sample_lib_def)

end
