(* ===== verification/Link_Assignment.thy ===== *)
theory Link_Assignment
  imports Sample_Objects Sha256
begin

text \<open>
  The pure core of \<^verbatim>\<open>internal/controller/machinegroup_controller.go\<close>: \<^verbatim>\<open>assignPortsToLinks\<close> gives each
  link a frontend port of a machine port, first by equal \<^verbatim>\<open>namespace/name\<close>, then in ascending port
  order; \<^verbatim>\<open>buildResolvedLinks\<close> turns the assignment into the status entries the agents render.

  The lemmas show that no two links share a port, that every link is either assigned or reported, how
  many links are assigned, and that a machine port of the same name is preferred.
\<close>

section \<open>Definitions\<close>

record machine_port_allocation =
  alloc_Port :: int
  alloc_Key :: string

definition ordered_available :: "machine_port list \<Rightarrow> (string, int) gomap \<Rightarrow> machine_port_allocation list" where
  "ordered_available machinePorts allocated =
     List.map_filter (\<lambda>mp. case map_of allocated (mp_uid mp) of
         None \<Rightarrow> None
       | Some port \<Rightarrow> if port \<le> 0 then None
                      else Some \<lparr>alloc_Port = port, alloc_Key = meta_key (mp_meta mp)\<rparr>) machinePorts"

fun index_by_name ::
  "int list \<Rightarrow> machine_port_allocation list \<Rightarrow> (string, int) gomap \<Rightarrow> (string, int) gomap" where
  "index_by_name used [] portByName = portByName"
| "index_by_name used (a # as) portByName =
     (if alloc_Port a \<in> set used then index_by_name used as portByName
      else if map_of portByName (alloc_Key a) = None
           then index_by_name used as (AList.update (alloc_Key a) (alloc_Port a) portByName)
           else index_by_name used as portByName)"

fun match_same_name ::
  "pool_link list \<Rightarrow> (string, int) gomap \<Rightarrow> int list \<Rightarrow> (string, int) gomap \<Rightarrow>
   (string, int) gomap \<times> int list" where
  "match_same_name [] assigned used portByName = (assigned, used)"
| "match_same_name (l # ls) assigned used portByName =
     (if map_of assigned (lk_uid l) \<noteq> None then match_same_name ls assigned used portByName
      else (case map_of portByName (meta_key (lk_meta l)) of
          None \<Rightarrow> match_same_name ls assigned used portByName
        | Some port \<Rightarrow> match_same_name ls (AList.update (lk_uid l) port assigned) (port # used)
                         (AList.delete (meta_key (lk_meta l)) portByName)))"

fun assign_rest :: "pool_link list \<Rightarrow> int list \<Rightarrow> (string, int) gomap \<Rightarrow> (string, int) gomap" where
  "assign_rest [] remaining assigned = assigned"
| "assign_rest (l # ls) remaining assigned =
     (if map_of assigned (lk_uid l) \<noteq> None then assign_rest ls remaining assigned
      else (case remaining of
          [] \<Rightarrow> assigned
        | port # rest \<Rightarrow> assign_rest ls rest (AList.update (lk_uid l) port assigned)))"

fun report_unassigned ::
  "string \<Rightarrow> (string, int) gomap \<Rightarrow> pool_link list \<Rightarrow> (string, string) gomap \<Rightarrow> (string, string) gomap" where
  "report_unassigned msg assigned [] errors = errors"
| "report_unassigned msg assigned (l # ls) errors =
     (if map_of assigned (lk_uid l) \<noteq> None then report_unassigned msg assigned ls errors
      else report_unassigned msg assigned ls (AList.update (lk_uid l) msg errors))"

definition assignPortsToLinks ::
  "pool_link list \<Rightarrow> machine_port list \<Rightarrow> (string, int) gomap \<Rightarrow>
   (string, int) gomap \<times> (string, string) gomap" where
  "assignPortsToLinks links machinePorts allocated =
     (let orderedAvailable = ordered_available machinePorts allocated in
      if links = [] then ([], [])
      else if orderedAvailable = [] then
        ([], report_unassigned ''no TiProxyMachinePort has an allocated port'' [] links [])
      else
        (let portByName = index_by_name [] orderedAvailable [];
             (assigned, used) = match_same_name links [] [] portByName;
             remaining = sort (map alloc_Port
               (filter (\<lambda>a. alloc_Port a \<notin> set used) orderedAvailable));
             assigned = assign_rest links remaining assigned
         in if length assigned < length links then
              (assigned, report_unassigned
                (''insufficient TiProxyMachinePort resources: '' @ show_int (int (length links)) @
                 '' link(s), '' @ show_int (int (length orderedAvailable)) @ '' allocated port(s)'')
                assigned links [])
            else (assigned, [])))"

text \<open>The hash of a resolved link: the fields are written to the hasher one after the other.\<close>

definition resolvedLinkHash :: "resolved_link_status \<Rightarrow> string" where
  "resolvedLinkHash link = hex_encode (sum256
     (rl_UID link @ rl_Name link @ rl_Namespace link @ rl_RouteNamespace link @
      rl_FrontendUser link @ show_int (rl_Port link) @ rl_ClusterName link @
      rl_NSServerAddr link @ concat (rl_PDAddresses link) @
      (case rl_TLSSecretRef link of None \<Rightarrow> [] | Some name \<Rightarrow> name)))"

definition resolve_link :: "pool_link \<Rightarrow> int \<Rightarrow> resolved_link_status" where
  "resolve_link l port =
     (let clusterName = trim_space (lks_ClusterName (lk_Spec l));
          clusterName = (if clusterName = [] then
            meta_namespace (lk_meta l) @ ''.'' @ meta_name (lk_meta l) else clusterName);
          routeNamespace = trim_space (lks_RouteNamespace (lk_Spec l));
          routeNamespace = (if routeNamespace = [] then meta_name (lk_meta l) else routeNamespace);
          entry = \<lparr>rl_UID = lk_uid l, rl_Name = meta_name (lk_meta l),
            rl_Namespace = meta_namespace (lk_meta l), rl_RouteNamespace = routeNamespace,
            rl_FrontendUser = lks_FrontendUser (lk_Spec l), rl_Port = port,
            rl_ClusterName = clusterName, rl_PDAddresses = lks_PDAddresses (lk_Spec l),
            rl_NSServerAddr = lks_NSServerAddr (lk_Spec l),
            rl_TLSSecretRef = lks_TLSSecretRef (lk_Spec l), rl_ConfigHash = []\<rparr>
      in entry\<lparr>rl_ConfigHash := resolvedLinkHash entry\<rparr>)"

definition buildResolvedLinks :: "pool_link list \<Rightarrow> (string, int) gomap \<Rightarrow> resolved_link_status list" where
  "buildResolvedLinks links linkPorts =
     List.map_filter (\<lambda>l. map_option (resolve_link l) (map_of linkPorts (lk_uid l))) links"

section \<open>The available machine ports\<close>

definition available_ports :: "machine_port list \<Rightarrow> (string, int) gomap \<Rightarrow> int list" where
  "available_ports machinePorts allocated = map alloc_Port (ordered_available machinePorts allocated)"

lemma ordered_available_simps [simp]:
  "ordered_available [] allocated = []"
  "ordered_available (mp # mps) allocated =
     (case map_of allocated (mp_uid mp) of
        None \<Rightarrow> ordered_available mps allocated
      | Some port \<Rightarrow> if port \<le> 0 then ordered_available mps allocated
          else \<lparr>alloc_Port = port, alloc_Key = meta_key (mp_meta mp)\<rparr> # ordered_available mps allocated)"
  by (simp_all add: ordered_available_def map_filter_simps split: option.split)

lemma set_available_ports:
  "set (available_ports mps allocated) =
     {p. 0 < p \<and> (\<exists>mp \<in> set mps. map_of allocated (mp_uid mp) = Some p)}"
  by (induction mps) (auto simp: available_ports_def split: option.splits)

text \<open>
  A valid allocation makes the available ports pairwise different and, with every machine port
  allocated a positive port, as many as there are machine ports.
\<close>

lemma distinct_available_ports:
  assumes "distinct (map mp_uid mps)" "distinct (map snd allocated)"
  shows "distinct (available_ports mps allocated)"
  using assms(1)
proof (induction mps)
  case (Cons mp mps)
  have inj: "u = v" if "map_of allocated u = Some p" "map_of allocated v = Some p" for u v p
  proof -
    have "(u, p) \<in> set allocated" "(v, p) \<in> set allocated" using that by (auto dest: map_of_SomeD)
    with assms(2) show ?thesis by (fastforce simp: distinct_map inj_on_def)
  qed
  have "p \<notin> set (available_ports mps allocated)" if "map_of allocated (mp_uid mp) = Some p" for p
    using inj [OF that] Cons.prems by (auto simp: set_available_ports)
  then show ?case using Cons by (auto simp: available_ports_def split: option.splits)
qed (simp add: available_ports_def)

lemma length_available_ports:
  "\<forall>mp \<in> set mps. \<exists>p. map_of allocated (mp_uid mp) = Some p \<and> 0 < p \<Longrightarrow>
     length (available_ports mps allocated) = length mps"
  by (induction mps) (auto simp: available_ports_def)

section \<open>The invariant of an assignment\<close>

text \<open>No two links have the same port, and every port comes from \<open>ports\<close>.\<close>

definition assign_inv :: "int set \<Rightarrow> (string, int) gomap \<Rightarrow> bool" where
  "assign_inv ports assigned \<longleftrightarrow>
     wf_map assigned \<and> distinct (map snd assigned) \<and> snd ` set assigned \<subseteq> ports"

lemma assign_inv_update:
  "assign_inv ports assigned \<Longrightarrow> map_of assigned u = None \<Longrightarrow> p \<in> ports \<Longrightarrow>
     p \<notin> snd ` set assigned \<Longrightarrow> assign_inv ports (AList.update u p assigned)"
  by (auto simp: assign_inv_def update_new map_of_None_keys)

text \<open>The index of the machine ports by name: no port twice, and none of them used.\<close>

definition index_inv :: "int set \<Rightarrow> int list \<Rightarrow> (string, int) gomap \<Rightarrow> bool" where
  "index_inv ports used idx \<longleftrightarrow>
     wf_map idx \<and> distinct (map snd idx) \<and> snd ` set idx \<subseteq> ports - set used"

lemma index_by_name_inv:
  "wf_map idx \<Longrightarrow> distinct (map snd idx) \<Longrightarrow> distinct (map alloc_Port as) \<Longrightarrow>
     snd ` set idx \<inter> alloc_Port ` set as = {} \<Longrightarrow>
     wf_map (index_by_name [] as idx) \<and> distinct (map snd (index_by_name [] as idx)) \<and>
     snd ` set (index_by_name [] as idx) \<subseteq> snd ` set idx \<union> alloc_Port ` set as"
proof (induction as arbitrary: idx)
  case (Cons a as)
  show ?case
  proof (cases "map_of idx (alloc_Key a)")
    case None
    let ?idx = "AList.update (alloc_Key a) (alloc_Port a) idx"
    have "wf_map ?idx" using Cons.prems(1) by (rule wf_map_update)
    moreover have "distinct (map snd ?idx)" "snd ` set ?idx \<inter> alloc_Port ` set as = {}"
      using Cons.prems None by (auto simp: update_new)
    ultimately have "wf_map (index_by_name [] as ?idx) \<and> distinct (map snd (index_by_name [] as ?idx)) \<and>
        snd ` set (index_by_name [] as ?idx) \<subseteq> snd ` set ?idx \<union> alloc_Port ` set as"
      using Cons.prems(3) by (intro Cons.IH) simp_all
    then show ?thesis using None by (auto simp: update_new)
  next
    case (Some p)
    then show ?thesis using Cons.IH [of idx] Cons.prems by auto
  qed
qed simp

lemma index_inv_delete:
  assumes "index_inv ports used idx" "map_of idx k = Some p"
  shows "index_inv ports (p # used) (AList.delete k idx)"
proof -
  have sub: "set (AList.delete k idx) \<subseteq> set idx" by (auto simp: AList.delete_eq)
  have "p \<notin> snd ` set (AList.delete k idx)"
  proof
    assume "p \<in> snd ` set (AList.delete k idx)"
    then obtain k' where "(k', p) \<in> set idx" "k' \<noteq> k" by (auto simp: AList.delete_eq)
    with map_of_SomeD [OF assms(2)] assms(1) show False
      by (fastforce simp: index_inv_def distinct_map inj_on_def)
  qed
  moreover have "distinct (map snd (AList.delete k idx))"
    using assms(1) by (simp add: index_inv_def AList.delete_eq distinct_map_filter)
  ultimately show ?thesis using assms(1) sub by (auto simp: index_inv_def)
qed

lemma match_same_name_inv:
  assumes "match_same_name ls assigned used idx = (assigned', used')"
    "assign_inv ports assigned" "set used = snd ` set assigned" "index_inv ports used idx"
  shows "assign_inv ports assigned' \<and> set used' = snd ` set assigned' \<and>
    map_of assigned \<subseteq>\<^sub>m map_of assigned' \<and>
    fst ` set assigned' \<subseteq> fst ` set assigned \<union> lk_uid ` set ls"
  using assms
proof (induction ls arbitrary: assigned used idx)
  case (Cons l ls)
  let ?k = "meta_key (lk_meta l)"
  show ?case
  proof (cases "map_of assigned (lk_uid l) = None \<and> map_of idx ?k \<noteq> None")
    case True
    then obtain p where p: "map_of assigned (lk_uid l) = None" "map_of idx ?k = Some p" by blast
    let ?as = "AList.update (lk_uid l) p assigned"
    have step: "match_same_name ls ?as (p # used) (AList.delete ?k idx) = (assigned', used')"
      using Cons.prems(1) p by simp
    have "p \<in> snd ` set idx" using map_of_SomeD [OF p(2)] by force
    then have pp: "p \<in> ports" "p \<notin> snd ` set assigned"
      using Cons.prems(3,4) by (auto simp: index_inv_def)
    have inv: "assign_inv ports ?as" using Cons.prems(2) p(1) pp by (rule assign_inv_update)
    have used: "set (p # used) = snd ` set ?as" using Cons.prems(3) p(1) by (auto simp: update_new)
    from Cons.IH [OF step inv used index_inv_delete [OF Cons.prems(4) p(2)]]
    have ih: "assign_inv ports assigned'" "set used' = snd ` set assigned'"
      "map_of ?as \<subseteq>\<^sub>m map_of assigned'"
      "fst ` set assigned' \<subseteq> insert (lk_uid l) (fst ` set assigned) \<union> lk_uid ` set ls"
      by (auto simp only: keys_update)
    have "map_of assigned \<subseteq>\<^sub>m map_of assigned'"
      by (rule map_le_trans [OF map_le_update [OF p(1)] ih(3)])
    with ih show ?thesis by auto
  next
    case False
    then have "match_same_name ls assigned used idx = (assigned', used')"
      using Cons.prems(1) by (auto split: option.splits if_splits)
    from Cons.IH [OF this Cons.prems(2-4)] show ?thesis by auto
  qed
qed simp

lemma assign_rest_inv:
  assumes "assign_inv ports assigned" "distinct remaining" "set remaining \<subseteq> ports"
    "set remaining \<inter> snd ` set assigned = {}"
  shows "assign_inv ports (assign_rest ls remaining assigned) \<and>
    map_of assigned \<subseteq>\<^sub>m map_of (assign_rest ls remaining assigned) \<and>
    fst ` set (assign_rest ls remaining assigned) \<subseteq> fst ` set assigned \<union> lk_uid ` set ls"
  using assms
proof (induction ls remaining assigned rule: assign_rest.induct)
  case (2 l ls remaining assigned)
  show ?case
  proof (cases "map_of assigned (lk_uid l)")
    case (Some p)
    then show ?thesis using 2 by auto
  next
    case None
    show ?thesis
    proof (cases remaining)
      case (Cons p rest)
      let ?as = "AList.update (lk_uid l) p assigned"
      have "assign_inv ports ?as"
        using 2(3-) Cons None by (intro assign_inv_update) auto
      moreover have "set rest \<inter> snd ` set ?as = {}"
        using 2(3-) Cons None by (auto simp: update_new)
      ultimately have ih: "assign_inv ports (assign_rest ls rest ?as)"
        "map_of ?as \<subseteq>\<^sub>m map_of (assign_rest ls rest ?as)"
        "fst ` set (assign_rest ls rest ?as) \<subseteq> insert (lk_uid l) (fst ` set assigned) \<union> lk_uid ` set ls"
        using 2(2) [of p rest] 2(3-) Cons None by (auto simp: keys_update)
      have "map_of assigned \<subseteq>\<^sub>m map_of (assign_rest ls rest ?as)"
        by (rule map_le_trans [OF map_le_update [OF None] ih(2)])
      with ih Cons None show ?thesis by auto
    qed (use 2 None in auto)
  qed
qed simp

lemma assign_rest_length:
  assumes "distinct (map lk_uid ls)"
  shows "length (assign_rest ls remaining assigned) =
    length assigned + min (length (missing lk_uid assigned ls)) (length remaining)"
  using assms
proof (induction ls remaining assigned rule: assign_rest.induct)
  case (2 l ls remaining assigned)
  show ?case
  proof (cases "map_of assigned (lk_uid l)")
    case None
    show ?thesis
    proof (cases remaining)
      case (Cons p rest)
      have "missing lk_uid (AList.update (lk_uid l) p assigned) ls = missing lk_uid assigned ls"
        using 2(3) by (intro missing_update) simp
      then show ?thesis using 2(2) [of p rest] 2(3) None Cons by (simp add: update_new)
    qed (use None in simp)
  qed (use 2 in simp)
qed simp

section \<open>The assignment as a whole\<close>

lemma match_same_name_keys:
  "match_same_name ls assigned used idx = (assigned', used') \<Longrightarrow> wf_map assigned \<Longrightarrow>
     wf_map assigned' \<and> fst ` set assigned' \<subseteq> fst ` set assigned \<union> lk_uid ` set ls"
proof (induction ls arbitrary: assigned used idx)
  case (Cons l ls)
  show ?case
  proof (cases "map_of assigned (lk_uid l) = None \<and> map_of idx (meta_key (lk_meta l)) \<noteq> None")
    case True
    then obtain p where "map_of assigned (lk_uid l) = None"
      "map_of idx (meta_key (lk_meta l)) = Some p" by blast
    then have "match_same_name ls (AList.update (lk_uid l) p assigned) (p # used)
        (AList.delete (meta_key (lk_meta l)) idx) = (assigned', used')"
      using Cons.prems(1) by simp
    from Cons.IH [OF this wf_map_update [OF Cons.prems(2)]] show ?thesis by (auto simp: keys_update)
  next
    case False
    then have "match_same_name ls assigned used idx = (assigned', used')"
      using Cons.prems(1) by (auto split: option.splits if_splits)
    from Cons.IH [OF this Cons.prems(2)] show ?thesis by auto
  qed
qed simp

lemma assign_rest_keys:
  "wf_map assigned \<Longrightarrow> wf_map (assign_rest ls remaining assigned) \<and>
     fst ` set (assign_rest ls remaining assigned) \<subseteq> fst ` set assigned \<union> lk_uid ` set ls"
proof (induction ls remaining assigned rule: assign_rest.induct)
  case (2 l ls remaining assigned)
  show ?case
  proof (cases "map_of assigned (lk_uid l)")
    case None
    show ?thesis
    proof (cases remaining)
      case (Cons p rest)
      from 2(2) [of p rest] None Cons wf_map_update [OF 2(3)]
      have "wf_map (assign_rest ls rest (AList.update (lk_uid l) p assigned))"
        "fst ` set (assign_rest ls rest (AList.update (lk_uid l) p assigned)) \<subseteq>
          insert (lk_uid l) (fst ` set assigned) \<union> lk_uid ` set ls"
        by (auto simp: keys_update)
      then show ?thesis using None Cons by auto
    qed (use 2 None in auto)
  qed (use 2 in auto)
qed simp

lemma report_unassigned_keys:
  "fst ` set (report_unassigned msg assigned ls errors) =
     fst ` set errors \<union> {lk_uid l | l. l \<in> set ls \<and> map_of assigned (lk_uid l) = None}"
  by (induction ls arbitrary: errors) (auto simp: keys_update)

text \<open>The two passes of the general case.\<close>

definition assigned_links :: "pool_link list \<Rightarrow> machine_port_allocation list \<Rightarrow> (string, int) gomap" where
  "assigned_links links avail =
     (case match_same_name links [] [] (index_by_name [] avail []) of
        (assigned, used) \<Rightarrow>
          assign_rest links (sort (map alloc_Port (filter (\<lambda>a. alloc_Port a \<notin> set used) avail))) assigned)"

lemma assignPortsToLinks_fst:
  "fst (assignPortsToLinks links mps allocated) =
     (if links = [] \<or> ordered_available mps allocated = [] then []
      else assigned_links links (ordered_available mps allocated))"
  by (simp add: assignPortsToLinks_def Let_def assigned_links_def split: prod.split)

lemma assigned_links_keys:
  "wf_map (assigned_links links avail) \<and> fst ` set (assigned_links links avail) \<subseteq> lk_uid ` set links"
proof -
  obtain assigned used where m:
    "match_same_name links [] [] (index_by_name [] avail []) = (assigned, used)" by force
  have a: "wf_map assigned" "fst ` set assigned \<subseteq> lk_uid ` set links"
    using match_same_name_keys [OF m] by simp_all
  have "fst ` set assigned \<union> lk_uid ` set links = lk_uid ` set links"
    using a(2) by (rule Un_absorb1)
  then show ?thesis
    using assign_rest_keys [OF a(1), of links] by (simp add: assigned_links_def m)
qed

lemma assigned_links_inv:
  assumes "distinct (map alloc_Port avail)" "distinct (map lk_uid links)"
  shows "assign_inv (alloc_Port ` set avail) (assigned_links links avail) \<and>
    length (assigned_links links avail) = min (length links) (length avail)"
proof -
  let ?ports = "alloc_Port ` set avail"
  obtain assigned used where m:
    "match_same_name links [] [] (index_by_name [] avail []) = (assigned, used)" by force
  have "index_inv ?ports [] (index_by_name [] avail [])"
    using index_by_name_inv [of "[]" avail] assms(1) by (simp add: index_inv_def)
  moreover have "assign_inv ?ports []" by (simp add: assign_inv_def)
  ultimately have inv: "assign_inv ?ports assigned" "set used = snd ` set assigned"
    "fst ` set assigned \<subseteq> lk_uid ` set links"
    using match_same_name_inv [OF m] by simp_all
  let ?free = "filter (\<lambda>a. alloc_Port a \<notin> set used) avail"
  let ?rem = "sort (map alloc_Port ?free)"
  have rem: "distinct ?rem" "set ?rem \<subseteq> ?ports" "set ?rem \<inter> snd ` set assigned = {}"
    using assms(1) inv(2) by (auto simp: distinct_map_filter)
  have "length ?free + length assigned = length avail"
  proof -
    have "length ?free = card (set (map alloc_Port ?free))"
      using distinct_card [of "map alloc_Port ?free"] assms(1) by (simp add: distinct_map_filter)
    also have "set (map alloc_Port ?free) = ?ports - set used" by auto
    also have "card (?ports - set used) = card ?ports - card (set used)"
      using inv by (intro card_Diff_subset) (auto simp: assign_inv_def)
    also have "card ?ports = length avail"
      using assms(1) by (metis distinct_card length_map list.set_map)
    also have "card (set used) = length assigned"
      using inv(1,2) by (metis assign_inv_def distinct_card length_map list.set_map)
    finally have "length ?free = length avail - length assigned" .
    moreover have "length assigned \<le> length avail"
    proof -
      have "length assigned = card (snd ` set assigned)"
        using inv(1) by (metis assign_inv_def distinct_card length_map list.set_map)
      also have "\<dots> \<le> card ?ports" using inv(1) by (intro card_mono) (auto simp: assign_inv_def)
      also have "\<dots> \<le> length avail" using card_length [of "map alloc_Port avail"] by simp
      finally show ?thesis .
    qed
    ultimately show ?thesis by simp
  qed
  moreover have "length assigned + length (missing lk_uid assigned links) = length links"
    using inv(1,3) assms(2) by (intro missing_length) (auto simp: assign_inv_def)
  ultimately show ?thesis
    using assign_rest_inv [OF inv(1) rem, of links] assign_rest_length [OF assms(2), of ?rem assigned]
    unfolding assigned_links_def m by simp
qed

lemma assignPortsToLinks_inv:
  assumes "distinct (map lk_uid links)" "distinct (available_ports mps allocated)"
  shows "assign_inv (set (available_ports mps allocated)) (fst (assignPortsToLinks links mps allocated)) \<and>
    length (fst (assignPortsToLinks links mps allocated)) =
      min (length links) (length (available_ports mps allocated))"
  using assigned_links_inv [of "ordered_available mps allocated" links] assms
  by (auto simp: assignPortsToLinks_fst available_ports_def assign_inv_def)

lemma assignPortsToLinks_parts:
  "fst ` set (fst (assignPortsToLinks links mps allocated)) \<union>
     fst ` set (snd (assignPortsToLinks links mps allocated)) = lk_uid ` set links \<and>
   fst ` set (fst (assignPortsToLinks links mps allocated)) \<inter>
     fst ` set (snd (assignPortsToLinks links mps allocated)) = {}"
proof -
  let ?avail = "ordered_available mps allocated"
  let ?a = "assigned_links links ?avail"
  have keys: "wf_map ?a" "fst ` set ?a \<subseteq> lk_uid ` set links"
    using assigned_links_keys by blast+
  have all: "fst ` set ?a = lk_uid ` set links" if "\<not> length ?a < length links"
  proof (rule card_subset_eq)
    have "card (lk_uid ` set links) \<le> length links"
      using card_length [of "map lk_uid links"] by simp
    also have "\<dots> \<le> card (fst ` set ?a)"
      using that keys(1) by (metis distinct_card length_map list.set_map not_less)
    finally show "card (fst ` set ?a) = card (lk_uid ` set links)"
      using card_mono [OF _ keys(2)] by simp
  qed (simp_all add: keys)
  have unassigned: "{lk_uid l | l. l \<in> set links \<and> map_of ?a (lk_uid l) = None} =
      lk_uid ` set links - fst ` set ?a"
    by (auto simp: map_of_None_keys)
  show ?thesis
  proof (cases "links = [] \<or> ?avail = []")
    case True
    then show ?thesis
      by (auto simp: assignPortsToLinks_def Let_def report_unassigned_keys)
  next
    case False
    then have "assignPortsToLinks links mps allocated = (?a, snd (assignPortsToLinks links mps allocated))"
      using assignPortsToLinks_fst [of links mps allocated] by (metis prod.collapse)
    moreover have "fst ` set (snd (assignPortsToLinks links mps allocated)) = lk_uid ` set links - fst ` set ?a"
      using False all unassigned
      by (auto simp: assignPortsToLinks_def Let_def assigned_links_def report_unassigned_keys
          split: prod.splits)
    ultimately show ?thesis using keys(2) by (metis Diff_disjoint Un_Diff_cancel Un_absorb1 fst_conv)
  qed
qed

section \<open>Machine ports of the same name\<close>

lemma match_same_name_le:
  "match_same_name ls assigned used idx = (assigned', used') \<Longrightarrow> map_of assigned \<subseteq>\<^sub>m map_of assigned'"
proof (induction ls arbitrary: assigned used idx)
  case (Cons l ls)
  show ?case
  proof (cases "map_of assigned (lk_uid l) = None \<and> map_of idx (meta_key (lk_meta l)) \<noteq> None")
    case True
    then obtain p where p: "map_of assigned (lk_uid l) = None"
      "map_of idx (meta_key (lk_meta l)) = Some p" by blast
    then have "match_same_name ls (AList.update (lk_uid l) p assigned) (p # used)
        (AList.delete (meta_key (lk_meta l)) idx) = (assigned', used')"
      using Cons.prems(1) by simp
    then show ?thesis using Cons.IH map_le_update [OF p(1)] map_le_trans by blast
  next
    case False
    then have "match_same_name ls assigned used idx = (assigned', used')"
      using Cons.prems(1) by (auto split: option.splits if_splits)
    then show ?thesis by (rule Cons.IH)
  qed
qed simp

lemma assign_rest_le: "map_of assigned \<subseteq>\<^sub>m map_of (assign_rest ls remaining assigned)"
proof (induction ls remaining assigned rule: assign_rest.induct)
  case (2 l ls remaining assigned)
  show ?case
  proof (cases "map_of assigned (lk_uid l)")
    case None
    show ?thesis
    proof (cases remaining)
      case (Cons p rest)
      from None have "\<not> map_of assigned (lk_uid l) \<noteq> None" by simp
      from map_le_trans [OF map_le_update [OF None] 2(2) [OF this Cons]]
      show ?thesis using None Cons by simp
    qed (use None in simp)
  qed (use 2 in simp)
qed simp

lemma index_by_name_keeps:
  "map_of idx k = Some p \<Longrightarrow> map_of (index_by_name [] as idx) k = Some p"
proof (induction as arbitrary: idx)
  case (Cons a as)
  have "map_of (AList.update (alloc_Key a) (alloc_Port a) idx) k = Some p"
    if "map_of idx (alloc_Key a) = None"
    using that Cons.prems by (cases "k = alloc_Key a") (simp_all add: map_of_update)
  then show ?case using Cons by auto
qed simp

lemma index_by_name_finds:
  assumes "a \<in> set as" "distinct (map alloc_Key as)" "map_of idx (alloc_Key a) = None"
  shows "map_of (index_by_name [] as idx) (alloc_Key a) = Some (alloc_Port a)"
  using assms
proof (induction as arbitrary: idx)
  case (Cons b as)
  show ?case
  proof (cases "a = b")
    case True
    then show ?thesis using Cons.prems(3) by (simp add: index_by_name_keeps map_of_update)
  next
    case False
    then have "alloc_Key b \<noteq> alloc_Key a" using Cons.prems(1,2) by force
    then show ?thesis using False Cons.prems Cons.IH by (simp add: map_of_update)
  qed
qed simp

lemma match_same_name_finds:
  assumes "match_same_name ls assigned used idx = (assigned', used')" "l \<in> set ls"
    "map_of idx (meta_key (lk_meta l)) = Some p" "map_of assigned (lk_uid l) = None"
    "distinct (map (\<lambda>l. meta_key (lk_meta l)) ls)" "distinct (map lk_uid ls)"
  shows "map_of assigned' (lk_uid l) = Some p"
  using assms
proof (induction ls arbitrary: assigned used idx)
  case (Cons q ls)
  show ?case
  proof (cases "q = l")
    case True
    then have "match_same_name ls (AList.update (lk_uid l) p assigned) (p # used)
        (AList.delete (meta_key (lk_meta l)) idx) = (assigned', used')"
      using Cons.prems by simp
    from match_same_name_le [OF this] show ?thesis by (rule map_le_Some) (simp add: map_of_update)
  next
    case False
    then have l: "l \<in> set ls" and ne: "meta_key (lk_meta q) \<noteq> meta_key (lk_meta l)" "lk_uid q \<noteq> lk_uid l"
      using Cons.prems(2,5,6) by force+
    show ?thesis
    proof (cases "map_of assigned (lk_uid q) = None \<and> map_of idx (meta_key (lk_meta q)) \<noteq> None")
      case True
      then obtain p' where "map_of assigned (lk_uid q) = None"
        "map_of idx (meta_key (lk_meta q)) = Some p'" by blast
      then have step: "match_same_name ls (AList.update (lk_uid q) p' assigned) (p' # used)
          (AList.delete (meta_key (lk_meta q)) idx) = (assigned', used')"
        using Cons.prems(1) by simp
      show ?thesis
        by (rule Cons.IH [OF step l])
          (use ne Cons.prems(3-6) in \<open>simp_all add: map_of_update map_of_delete\<close>)
    next
      case False
      then have step: "match_same_name ls assigned used idx = (assigned', used')"
        using Cons.prems(1) by (auto split: option.splits if_splits)
      show ?thesis by (rule Cons.IH [OF step l]) (use Cons.prems(3-6) in simp_all)
    qed
  qed
qed simp

lemma ordered_available_keys:
  "distinct (map (\<lambda>mp. meta_key (mp_meta mp)) mps) \<Longrightarrow>
     distinct (map alloc_Key (ordered_available mps allocated))"
proof (induction mps)
  case (Cons mp mps)
  have "alloc_Key ` set (ordered_available mps allocated) \<subseteq> (\<lambda>mp. meta_key (mp_meta mp)) ` set mps" for mps
    by (induction mps) (auto split: option.splits)
  then have "meta_key (mp_meta mp) \<notin> alloc_Key ` set (ordered_available mps allocated)"
    using Cons.prems by auto
  then show ?case using Cons by (auto split: option.splits)
qed simp

lemma ordered_available_member:
  "mp \<in> set mps \<Longrightarrow> map_of allocated (mp_uid mp) = Some p \<Longrightarrow> 0 < p \<Longrightarrow>
     \<lparr>alloc_Port = p, alloc_Key = meta_key (mp_meta mp)\<rparr> \<in> set (ordered_available mps allocated)"
  by (induction mps) (auto split: option.splits)

section \<open>Resolved links\<close>

lemma resolve_link_simps [simp]:
  "rl_UID (resolve_link l p) = lk_uid l"
  "rl_Name (resolve_link l p) = meta_name (lk_meta l)"
  "rl_Namespace (resolve_link l p) = meta_namespace (lk_meta l)"
  "rl_Port (resolve_link l p) = p"
  "rl_PDAddresses (resolve_link l p) = lks_PDAddresses (lk_Spec l)"
  "rl_NSServerAddr (resolve_link l p) = lks_NSServerAddr (lk_Spec l)"
  by (simp_all add: resolve_link_def Let_def)

lemma resolvedLinkHash_concat:
  "concat addrs = concat (rl_PDAddresses r) \<Longrightarrow>
     resolvedLinkHash (r\<lparr>rl_PDAddresses := addrs\<rparr>) = resolvedLinkHash r"
  unfolding resolvedLinkHash_def by simp

lemma resolve_link_cluster [simp]: "rl_ClusterName (resolve_link l p) \<noteq> []"
  by (simp add: resolve_link_def Let_def)

lemma resolve_link_hash [simp]: "rl_ConfigHash (resolve_link l p) = resolvedLinkHash (resolve_link l p)"
  by (simp add: resolve_link_def Let_def resolvedLinkHash_def)

lemma buildResolvedLinks_simps [simp]:
  "buildResolvedLinks [] m = []"
  "buildResolvedLinks (l # ls) m = (case map_of m (lk_uid l) of
      None \<Rightarrow> buildResolvedLinks ls m
    | Some p \<Rightarrow> resolve_link l p # buildResolvedLinks ls m)"
  by (simp_all add: buildResolvedLinks_def map_filter_simps split: option.split)

lemma set_buildResolvedLinks:
  "set (buildResolvedLinks links m) =
     {resolve_link l p | l p. l \<in> set links \<and> map_of m (lk_uid l) = Some p}"
  by (induction links) (auto split: option.splits)

lemma buildResolvedLinks_ports:
  "map (\<lambda>r. (rl_UID r, rl_Port r)) (buildResolvedLinks links m) =
     List.map_filter (\<lambda>l. map_option (Pair (lk_uid l)) (map_of m (lk_uid l))) links"
  by (induction links) (auto simp: map_filter_simps split: option.splits)

lemma buildResolvedLinks_uids:
  "map rl_UID (buildResolvedLinks links m) =
     map lk_uid (filter (\<lambda>l. map_of m (lk_uid l) \<noteq> None) links)"
  by (induction links) (auto split: option.splits)

lemma buildResolvedLinks_distinct_ports:
  assumes "distinct (map lk_uid links)" "distinct (map snd m)"
  shows "distinct (map rl_Port (buildResolvedLinks links m))"
  using assms(1)
proof (induction links)
  case (Cons l links)
  have "u = v" if "map_of m u = Some p" "map_of m v = Some p" for u v p
  proof -
    have "(u, p) \<in> set m" "(v, p) \<in> set m" using that by (auto dest: map_of_SomeD)
    with assms(2) show ?thesis by (fastforce simp: distinct_map inj_on_def)
  qed
  then have "p \<notin> rl_Port ` set (buildResolvedLinks links m)" if "map_of m (lk_uid l) = Some p" for p
    using that Cons.prems by (fastforce simp: set_buildResolvedLinks)
  then show ?case using Cons by (auto split: option.splits)
qed simp

section \<open>Properties\<close>

lemma sample_assignment:
  "fst (assignPortsToLinks sample_links sample_ports sample_allocation) =
     [(''l1'', 10001), (''l2'', 10000)]"
  by code_simp

text \<open>
  The assignment leaves no link out: the UIDs of the links are exactly those with a port and
  those with an error message, and no link has both.
\<close>

theorem assignPortsToLinks_partition:
  "fst ` set (fst (assignPortsToLinks links mps allocated)) \<union>
     fst ` set (snd (assignPortsToLinks links mps allocated)) = lk_uid ` set links \<and>
   fst ` set (fst (assignPortsToLinks links mps allocated)) \<inter>
     fst ` set (snd (assignPortsToLinks links mps allocated)) = {}"
  by (rule assignPortsToLinks_parts)

text \<open>
  C15: When the allocation gives every machine port a different port, no two links get the same port,
  every assigned port is a positive port allocated to one of the machine ports, and as many links are
  assigned as the smaller of the number of links and the number of allocated machine ports.
\<close>

theorem assignPortsToLinks_exclusive:
  assumes "distinct (map lk_uid links)" "distinct (map mp_uid mps)" "distinct (map snd allocated)"
  shows "distinct (map snd (fst (assignPortsToLinks links mps allocated))) \<and>
    (\<forall>(u, p) \<in> set (fst (assignPortsToLinks links mps allocated)).
       0 < p \<and> (\<exists>mp \<in> set mps. map_of allocated (mp_uid mp) = Some p)) \<and>
    length (fst (assignPortsToLinks links mps allocated)) =
      min (length links) (length (available_ports mps allocated))"
proof -
  note d = distinct_available_ports [OF assms(2,3)]
  note inv = assignPortsToLinks_inv [OF assms(1) d]
  then have "snd ` set (fst (assignPortsToLinks links mps allocated)) \<subseteq> set (available_ports mps allocated)"
    by (simp add: assign_inv_def)
  then have "0 < p \<and> (\<exists>mp \<in> set mps. map_of allocated (mp_uid mp) = Some p)"
    if "(u, p) \<in> set (fst (assignPortsToLinks links mps allocated))" for u p
    using that by (force simp: set_available_ports)
  then show ?thesis using inv by (auto simp: assign_inv_def)
qed

theorem assignPortsToLinks_exclusive_witness:
  "distinct (map snd (fst (assignPortsToLinks sample_links sample_ports sample_allocation))) \<and>
   length (fst (assignPortsToLinks sample_links sample_ports sample_allocation)) =
     min (length sample_links) (length (available_ports sample_ports sample_allocation))"
  using assignPortsToLinks_exclusive
    [OF sample_distinct(1) sample_distinct(3) sample_distinct(5)] by blast

text \<open>
  C39: A link whose \<^verbatim>\<open>namespace/name\<close> is also that of a machine port with an allocated port is assigned
  that very port, whatever the other links are.
\<close>

theorem assignPortsToLinks_prefers_same_name:
  assumes "l \<in> set links" "mp \<in> set mps" "meta_key (lk_meta l) = meta_key (mp_meta mp)"
    "map_of allocated (mp_uid mp) = Some p" "0 < p"
    "distinct (map lk_uid links)" "distinct (map (\<lambda>l. meta_key (lk_meta l)) links)"
    "distinct (map (\<lambda>mp. meta_key (mp_meta mp)) mps)"
    "distinct (map mp_uid mps)" "distinct (map snd allocated)"
  shows "map_of (fst (assignPortsToLinks links mps allocated)) (lk_uid l) = Some p"
proof -
  let ?avail = "ordered_available mps allocated"
  note a = ordered_available_member [OF assms(2,4,5)]
  obtain assigned used where m:
    "match_same_name links [] [] (index_by_name [] ?avail []) = (assigned, used)" by force
  have "map_of (index_by_name [] ?avail []) (meta_key (lk_meta l)) = Some p"
    using index_by_name_finds [OF a ordered_available_keys [OF assms(8)], of "[]"] assms(3) by simp
  then have "map_of assigned (lk_uid l) = Some p"
    by (rule match_same_name_finds [OF m assms(1)]) (simp_all add: assms)
  then have "map_of (assigned_links links ?avail) (lk_uid l) = Some p"
    unfolding assigned_links_def m by (auto intro: map_le_Some [OF assign_rest_le])
  moreover have "links \<noteq> []" "?avail \<noteq> []" using assms(1) a by auto
  ultimately show ?thesis by (simp add: assignPortsToLinks_fst)
qed

theorem assignPortsToLinks_prefers_same_name_witness:
  "map_of (fst (assignPortsToLinks sample_links sample_ports sample_allocation)) ''l1'' = Some 10001"
proof -
  let ?l = "sample_link ''l1'' ''b''" and ?mp = "sample_port ''p2'' ''b''"
  have "?l \<in> set sample_links" "?mp \<in> set sample_ports" "(0 :: int) < 10001"
    "meta_key (lk_meta ?l) = meta_key (mp_meta ?mp)" "map_of sample_allocation (mp_uid ?mp) = Some 10001"
    and uid: "lk_uid ?l = ''l1''"
    by (simp_all add: sample_group meta_key_def)
  from assignPortsToLinks_prefers_same_name [OF this(1,2,4,5,3) sample_distinct(1,2,4,3,5)]
  show ?thesis by (simp only: uid)
qed

text \<open>
  The resolved links are the assigned links in their order; each carries its link's port and
  backends, a cluster name that is never empty, and the hash of its own fields. When the assigned
  ports differ, so do the ports of the resolved links.
\<close>

theorem buildResolvedLinks_entries:
  assumes "distinct (map lk_uid links)" "distinct (map snd linkPorts)"
  shows "map rl_UID (buildResolvedLinks links linkPorts) =
       map lk_uid (filter (\<lambda>l. map_of linkPorts (lk_uid l) \<noteq> None) links) \<and>
     distinct (map rl_Port (buildResolvedLinks links linkPorts)) \<and>
     (\<forall>r \<in> set (buildResolvedLinks links linkPorts). \<exists>l \<in> set links.
        rl_UID r = lk_uid l \<and> map_of linkPorts (lk_uid l) = Some (rl_Port r) \<and>
        rl_PDAddresses r = lks_PDAddresses (lk_Spec l) \<and>
        rl_ClusterName r \<noteq> [] \<and> rl_ConfigHash r = resolvedLinkHash r)"
  using buildResolvedLinks_uids [of links linkPorts] buildResolvedLinks_distinct_ports [OF assms]
  by (fastforce simp: set_buildResolvedLinks)

theorem buildResolvedLinks_entries_witness:
  "map rl_UID (buildResolvedLinks sample_links [(''l1'', 10001), (''l2'', 10000)]) = [''l1'', ''l2'']"
proof -
  have "distinct (map snd [(''l1'', 10001 :: int), (''l2'', 10000)])"
    and uids: "map lk_uid (filter (\<lambda>l. map_of [(''l1'', 10001 :: int), (''l2'', 10000)] (lk_uid l) \<noteq> None)
      sample_links) = [''l1'', ''l2'']"
    by (simp_all add: sample_group)
  from buildResolvedLinks_entries [OF sample_distinct(1) this(1)] show ?thesis by (simp only: uids)
qed

text \<open>
  The configuration hash of a resolved link does not identify its configuration: the fields are
  written to the hasher without separators, so that two links whose PD address lists differ have the
  same hash whenever the lists have the same concatenation.
\<close>

theorem resolvedLinkHash_ambiguous:
  "let a = resolve_link (sample_link ''l1'' ''b'') 10001 in
     a \<noteq> a\<lparr>rl_PDAddresses := [''pd:'', ''2379'']\<rparr> \<and>
     resolvedLinkHash (a\<lparr>rl_PDAddresses := [''pd:'', ''2379'']\<rparr>) = resolvedLinkHash a"
proof -
  let ?a = "resolve_link (sample_link ''l1'' ''b'') 10001"
  have pd: "rl_PDAddresses ?a = [''pd:2379'']" by (simp add: sample_link_def)
  have "?a \<noteq> ?a\<lparr>rl_PDAddresses := [''pd:'', ''2379'']\<rparr>"
  proof
    assume "?a = ?a\<lparr>rl_PDAddresses := [''pd:'', ''2379'']\<rparr>"
    then have "rl_PDAddresses ?a = [''pd:'', ''2379'']"
      by (metis (no_types) resolved_link_status.select_convs(8)
          resolved_link_status.update_convs(8) resolved_link_status.surjective)
    with pd show False by simp
  qed
  moreover have "resolvedLinkHash (?a\<lparr>rl_PDAddresses := [''pd:'', ''2379'']\<rparr>) = resolvedLinkHash ?a"
    by (rule resolvedLinkHash_concat) (simp add: sample_link_def)
  ultimately show ?thesis unfolding Let_def by blast
qed

end
