(* ===== verification/Controller.thy ===== *)
theory Controller
  imports Kube_Client Link_Assignment Port_Allocator
begin

text \<open>
  The reconciler of \<^verbatim>\<open>internal/controller/machinegroup_controller.go\<close>: \<^verbatim>\<open>Reconcile\<close> with its error exits,
  the deletion path with the finalizer, the listing of links and machine ports, the choice of the
  cloud provider, the pruning of stale machines and the status updates of machine ports and links.
  The pure assignment of ports to links is in \<open>Link_Assignment\<close>.

  Statements are sequenced by \<open>case\<close>: a call returns its result and the next environment. \<^verbatim>\<open>Reconcile\<close>
  is an \<open>option\<close> because \<open>ReconcilePorts\<close> is one; \<open>Reconcile_returns\<close> shows it always is \<open>Some\<close>.
\<close>

section \<open>The reconciler\<close>

definition machineGroupFinalizer :: string where
  "machineGroupFinalizer = ''tiproxy.pingcap.com/machinegroup-finalizer''"

definition maxMachinePortsPerGroup :: nat where
  "maxMachinePortsPerGroup = 50"

definition seconds :: "int \<Rightarrow> int" where
  "seconds n = n * 1000000000"

record 'w reconciler =
  r_Client :: "'w kube_client"
  r_Lib :: kube_lib
  r_CloudManager :: "'w cloud_manager option"
  r_Provider :: string
  r_MachineStatusStaleAfter :: int

record ctrl_result =
  res_Requeue :: bool
  res_RequeueAfter :: int

definition no_requeue :: ctrl_result where
  "no_requeue = \<lparr>res_Requeue = False, res_RequeueAfter = 0\<rparr>"

definition requeue_after :: "int \<Rightarrow> ctrl_result" where
  "requeue_after d = \<lparr>res_Requeue = False, res_RequeueAfter = d\<rparr>"

type_synonym outcome = "ctrl_result \<times> go_error option"

section \<open>Conditions\<close>

definition new_condition :: "string \<Rightarrow> string \<Rightarrow> string \<Rightarrow> string \<Rightarrow> int \<Rightarrow> time \<Rightarrow> condition" where
  "new_condition type status reason message generation now =
     \<lparr>cond_type = type, cond_status = status, cond_generation = generation, cond_transition = now,
      cond_reason = reason, cond_message = message\<rparr>"

definition set_group_condition ::
  "kube_lib \<Rightarrow> string \<Rightarrow> string \<Rightarrow> string \<Rightarrow> time \<Rightarrow> machine_group \<Rightarrow> machine_group" where
  "set_group_condition L status reason message now mg =
     mg\<lparr>mg_Status := (mg_Status mg)\<lparr>st_Conditions := lib_set_condition L (st_Conditions (mg_Status mg))
          (new_condition ConditionReady status reason message (meta_generation (mg_meta mg)) now)\<rparr>\<rparr>"

definition set_port_condition ::
  "kube_lib \<Rightarrow> string \<Rightarrow> string \<Rightarrow> string \<Rightarrow> string \<Rightarrow> time \<Rightarrow> machine_port \<Rightarrow> machine_port" where
  "set_port_condition L type status reason message now p =
     p\<lparr>mp_Status := (mp_Status p)\<lparr>mpt_Conditions := lib_set_condition L (mpt_Conditions (mp_Status p))
         (new_condition type status reason message (meta_generation (mp_meta p)) now)\<rparr>\<rparr>"

definition set_link_condition ::
  "kube_lib \<Rightarrow> string \<Rightarrow> string \<Rightarrow> string \<Rightarrow> time \<Rightarrow> pool_link \<Rightarrow> pool_link" where
  "set_link_condition L status reason message now l =
     l\<lparr>lk_Status := (lk_Status l)\<lparr>lkt_Conditions := lib_set_condition L (lkt_Conditions (lk_Status l))
         (new_condition ConditionReady status reason message (meta_generation (lk_meta l)) now)\<rparr>\<rparr>"

definition markMachineGroupError ::
  "'w reconciler \<Rightarrow> machine_group \<Rightarrow> string \<Rightarrow> string \<Rightarrow> int \<Rightarrow> 'w \<Rightarrow> outcome \<times> 'w" where
  "markMachineGroupError r mg reason msg requeueAfter w =
     (let statusBase = mg;
          mg = set_group_condition (r_Lib r) ConditionFalse reason msg (k_now (r_Client r) w) mg in
      case k_patch_group_status (r_Client r) statusBase mg w of
        (Some e, w) \<Rightarrow> ((no_requeue, Some e), w)
      | (None, w) \<Rightarrow> ((requeue_after requeueAfter, None), w))"

section \<open>Providers\<close>

definition cloudManagerFor :: "'w reconciler \<Rightarrow> machine_group \<Rightarrow> 'w cloud_manager result" where
  "cloudManagerFor r mg =
     (let provider = to_lower (trim_space (sp_Provider (mg_Spec mg))) in
      if provider = [] \<or> provider = ''none'' \<or> provider = ''noop'' then Inr noop_manager
      else if provider \<noteq> ''aws'' then Inl (errorf (''unsupported spec.provider '' @ quote provider))
      else
        (let controllerProvider = to_lower (trim_space (r_Provider r));
             controllerProvider = (if controllerProvider = [] then ''noop'' else controllerProvider) in
         if controllerProvider \<noteq> ''aws'' then
           Inl (errorf (''spec.provider='' @ quote provider @
             '' but controller started with --cloud-provider='' @ quote (r_Provider r)))
         else (case r_CloudManager r of
             None \<Rightarrow> Inl (errorf ''aws cloud manager is not initialized'')
           | Some m \<Rightarrow> Inr m)))"

definition reconcileDelete :: "'w reconciler \<Rightarrow> machine_group \<Rightarrow> 'w \<Rightarrow> outcome \<times> 'w" where
  "reconcileDelete r mg w =
     (if \<not> lib_contains_finalizer (r_Lib r) (mg_meta mg) machineGroupFinalizer then ((no_requeue, None), w)
      else (case cloudManagerFor r mg of
          Inl e \<Rightarrow> ((no_requeue, Some e), w)
        | Inr manager \<Rightarrow>
            (case DeleteMachineGroup manager mg w of
               (Some e, w) \<Rightarrow> ((requeue_after (seconds 20), Some e), w)
             | (None, w) \<Rightarrow>
                 (let base = mg;
                      mg = mg\<lparr>mg_meta := lib_remove_finalizer (r_Lib r) (mg_meta mg) machineGroupFinalizer\<rparr> in
                  case k_patch_group (r_Client r) base mg w of
                    (Some e, w) \<Rightarrow> ((no_requeue, Some e), w)
                  | (None, w) \<Rightarrow> ((no_requeue, None), w)))))"

section \<open>Listing the managed objects\<close>

definition refers_to :: "object_reference \<Rightarrow> object_meta \<Rightarrow> machine_group \<Rightarrow> bool" where
  "refers_to r m mg =
     (let ref = NamespacedName r (meta_namespace m) in
      \<not> (nn_name ref \<noteq> meta_name (mg_meta mg) \<or> nn_namespace ref \<noteq> meta_namespace (mg_meta mg)))"

definition managed_links :: "machine_group \<Rightarrow> pool_link list \<Rightarrow> pool_link list" where
  "managed_links mg items = sort_key (\<lambda>l. meta_key (lk_meta l))
     (filter (\<lambda>l. \<not> lks_Disabled (lk_Spec l) \<and> refers_to (lks_MachineGroupRef (lk_Spec l)) (lk_meta l) mg)
       items)"

definition listManagedLinks ::
  "'w reconciler \<Rightarrow> machine_group \<Rightarrow> 'w \<Rightarrow> pool_link list result \<times> 'w" where
  "listManagedLinks r mg w =
     (let selError = (case sp_LinkSelector (mg_Spec mg) of
            None \<Rightarrow> None
          | Some sel \<Rightarrow> lib_selector_error (r_Lib r) sel) in
      case selError of
        Some e \<Rightarrow> (Inl (wrap_error ''invalid spec.linkSelector'' e), w)
      | None \<Rightarrow>
          (case k_list_links (r_Client r) (meta_namespace (mg_meta mg)) (sp_LinkSelector (mg_Spec mg)) w of
             (Inl e, w) \<Rightarrow> (Inl e, w)
           | (Inr items, w) \<Rightarrow> (Inr (managed_links mg items), w)))"

definition managed_ports :: "machine_group \<Rightarrow> machine_port list \<Rightarrow> machine_port list" where
  "managed_ports mg items = sort_key (\<lambda>p. meta_key (mp_meta p))
     (filter (\<lambda>p. refers_to (mps_MachineGroupRef (mp_Spec p)) (mp_meta p) mg) items)"

definition listManagedMachinePorts ::
  "'w reconciler \<Rightarrow> machine_group \<Rightarrow> 'w \<Rightarrow> machine_port list result \<times> 'w" where
  "listManagedMachinePorts r mg w =
     (case k_list_ports (r_Client r) (meta_namespace (mg_meta mg)) w of
        (Inl e, w) \<Rightarrow> (Inl e, w)
      | (Inr items, w) \<Rightarrow> (Inr (managed_ports mg items), w))"

section \<open>Stale machines\<close>

text \<open>\<^verbatim>\<open>Time.Sub\<close> saturates at the ends of the 64-bit \<^verbatim>\<open>Duration\<close>.\<close>

definition time_sub :: "time \<Rightarrow> time \<Rightarrow> int" where
  "time_sub a b = max (-9223372036854775808) (min 9223372036854775807 (a - b))"

definition is_stale :: "int \<Rightarrow> time \<Rightarrow> machine_status \<Rightarrow> bool" where
  "is_stale staleAfter now status \<longleftrightarrow>
     mst_LastHeartbeatTime status = 0 \<or> time_sub now (mst_LastHeartbeatTime status) > staleAfter"

definition pruneStaleMachineStatuses :: "'w reconciler \<Rightarrow> machine_group \<Rightarrow> time \<Rightarrow> nat \<times> machine_group" where
  "pruneStaleMachineStatuses r mg now =
     (case st_Machines (mg_Status mg) of
        None \<Rightarrow> (0, mg)
      | Some machines \<Rightarrow>
          if machines = [] then (0, mg)
          else if r_MachineStatusStaleAfter r \<le> 0 then (0, mg)
          else
            (let kept = filter (\<lambda>(machineID, status).
                   \<not> is_stale (r_MachineStatusStaleAfter r) now status) machines;
                 removed = length machines - length kept
             in (removed, mg\<lparr>mg_Status := (mg_Status mg)\<lparr>st_Machines :=
                   (if kept = [] then None else Some kept)\<rparr>\<rparr>)))"

section \<open>Status of the machine ports\<close>

definition countRequiredPortLoadBalancers :: "lb_exposure_spec list \<Rightarrow> nat" where
  "countRequiredPortLoadBalancers loadBalancers = length loadBalancers"

definition countReadyPortLoadBalancers :: "lb_exposure_spec list \<Rightarrow> port_lb_cloud_status list \<Rightarrow> nat" where
  "countReadyPortLoadBalancers loadBalancers statuses =
     (let readyByName = map pls_Name (filter (\<lambda>s. trim_space (pls_ListenerID s) \<noteq> []) statuses)
      in length (filter (\<lambda>lb. lbs_Name lb \<in> set readyByName) loadBalancers))"

definition set_port_phase :: "string \<Rightarrow> machine_port \<Rightarrow> machine_port" where
  "set_port_phase phase p = p\<lparr>mp_Status := (mp_Status p)\<lparr>mpt_Phase := phase\<rparr>\<rparr>"

definition set_port_cloud :: "port_cloud_status \<Rightarrow> machine_port \<Rightarrow> machine_port" where
  "set_port_cloud c p = p\<lparr>mp_Status := (mp_Status p)\<lparr>mpt_Cloud := c\<rparr>\<rparr>"

definition set_port_assigned :: "int option \<Rightarrow> machine_port \<Rightarrow> machine_port" where
  "set_port_assigned a p = p\<lparr>mp_Status := (mp_Status p)\<lparr>mpt_AssignedPort := a\<rparr>\<rparr>"

definition set_port_observed :: "machine_port \<Rightarrow> machine_port" where
  "set_port_observed p =
     p\<lparr>mp_Status := (mp_Status p)\<lparr>mpt_ObservedGeneration := meta_generation (mp_meta p)\<rparr>\<rparr>"

text \<open>The first half of the loop body: the assigned port, the phase and the condition \<^verbatim>\<open>PortAssigned\<close>.\<close>

definition port_assignment :: "kube_lib \<Rightarrow> time \<Rightarrow> int option \<Rightarrow> machine_port \<Rightarrow> machine_port" where
  "port_assignment L now assigned p =
     (case assigned of
        Some port \<Rightarrow>
          set_port_condition L ConditionPortAssigned ConditionTrue ''Assigned''
            (''assigned port '' @ show_int port) now
            (set_port_phase MachinePortPhaseAllocated (set_port_assigned (Some port) p))
      | None \<Rightarrow>
          set_port_condition L ConditionPortAssigned ConditionFalse ''Unassigned''
            ''waiting for port allocation'' now
            (set_port_phase MachinePortPhasePending (set_port_assigned None p)))"

text \<open>The second half: the cloud status and the condition \<^verbatim>\<open>Exposed\<close>.\<close>

definition port_exposure ::
  "kube_lib \<Rightarrow> time \<Rightarrow> lb_exposure_spec list \<Rightarrow> int option \<Rightarrow> (string, port_cloud_status) gomap \<Rightarrow>
   go_error option \<Rightarrow> machine_port \<Rightarrow> machine_port" where
  "port_exposure L now loadBalancers assigned cloud cloudErr p =
     (let p = set_port_cloud empty_port_cloud_status p in
      if assigned \<noteq> None then
        (if loadBalancers = [] then
           set_port_condition L ConditionExposed ConditionTrue ''ExposureDisabled''
             ''machine group load balancer exposure is disabled'' now
             (set_port_phase MachinePortPhaseReady p)
         else case cloudErr of
           Some e \<Rightarrow>
             set_port_condition L ConditionExposed ConditionFalse ''CloudEnsureFailed'' (err_text e) now p
         | None \<Rightarrow>
             (let entry = (case map_of cloud (mp_uid p) of None \<Rightarrow> empty_port_cloud_status | Some c \<Rightarrow> c);
                  entry = SetPrimaryLoadBalancerCompat_port entry;
                  p = set_port_cloud entry p;
                  ready = countReadyPortLoadBalancers loadBalancers (pcs_LoadBalancers entry);
                  required = countRequiredPortLoadBalancers loadBalancers;
                  ratio = show_int (int ready) @ ''/'' @ show_int (int required) in
              if required > 0 \<and> ready = required then
                set_port_condition L ConditionExposed ConditionTrue ''Ready''
                  (ratio @ '' load balancer listeners are ready'') now
                  (set_port_phase MachinePortPhaseReady p)
              else
                set_port_condition L ConditionExposed ConditionFalse ''Pending''
                  (''waiting for load balancer listeners ('' @ ratio @ '' ready)'') now p))
      else
        set_port_condition L ConditionExposed ConditionFalse ''PortUnassigned''
          ''listener is not reconciled before port assignment'' now p)"

definition updated_port ::
  "kube_lib \<Rightarrow> time \<Rightarrow> lb_exposure_spec list \<Rightarrow> (string, int) gomap \<Rightarrow> (string, port_cloud_status) gomap \<Rightarrow>
   go_error option \<Rightarrow> machine_port \<Rightarrow> machine_port" where
  "updated_port L now loadBalancers allocated cloud cloudErr p =
     (let assigned = map_of allocated (mp_uid p)
      in set_port_observed
           (port_exposure L now loadBalancers assigned cloud cloudErr (port_assignment L now assigned p)))"

definition syncMachinePortStatuses ::
  "'w reconciler \<Rightarrow> lb_exposure_spec list \<Rightarrow> machine_port list \<Rightarrow> (string, int) gomap \<Rightarrow>
   (string, port_cloud_status) gomap \<Rightarrow> go_error option \<Rightarrow> 'w act" where
  "syncMachinePortStatuses r loadBalancers machinePorts allocated cloud cloudErr =
     act_each (\<lambda>p w. k_patch_port_status (r_Client r) p
       (updated_port (r_Lib r) (k_now (r_Client r) w) loadBalancers allocated cloud cloudErr p) w)
       machinePorts"

definition failed_port :: "kube_lib \<Rightarrow> time \<Rightarrow> string \<Rightarrow> machine_port \<Rightarrow> machine_port" where
  "failed_port L now msg p =
     set_port_condition L ConditionExposed ConditionFalse ''PortAllocationFailed'' msg now
       (set_port_condition L ConditionPortAssigned ConditionFalse ''PortAllocationFailed'' msg now
         (set_port_cloud empty_port_cloud_status
           (set_port_phase MachinePortPhaseError (set_port_assigned None (set_port_observed p)))))"

definition syncMachinePortAllocationFailure ::
  "'w reconciler \<Rightarrow> machine_port list \<Rightarrow> string \<Rightarrow> 'w act" where
  "syncMachinePortAllocationFailure r machinePorts msg =
     act_each (\<lambda>p w. k_patch_port_status (r_Client r) p
       (failed_port (r_Lib r) (k_now (r_Client r) w) msg p) w) machinePorts"

section \<open>Status of the links\<close>

definition updated_link ::
  "kube_lib \<Rightarrow> time \<Rightarrow> (string, int) gomap \<Rightarrow> (string, string) gomap \<Rightarrow> string \<Rightarrow> pool_link \<Rightarrow> pool_link" where
  "updated_link L now assigned errByUID defaultErr l =
     (let l = l\<lparr>lk_Status := (lk_Status l)\<lparr>lkt_ObservedGeneration := meta_generation (lk_meta l)\<rparr>\<rparr> in
      if map_of assigned (lk_uid l) \<noteq> None then
        set_link_condition L ConditionTrue ''Resolved'' ''resolved to an allocated TiProxyMachinePort'' now
          (l\<lparr>lk_Status := (lk_Status l)\<lparr>lkt_Phase := ''Ready''\<rparr>\<rparr>)
      else
        (let msg = trim_space (case map_of errByUID (lk_uid l) of None \<Rightarrow> [] | Some m \<Rightarrow> m);
             msg = (if msg = [] then trim_space defaultErr else msg)
         in set_link_condition L ConditionFalse ''Unresolved'' msg now
              (l\<lparr>lk_Status := (lk_Status l)\<lparr>lkt_Phase := ''Error''\<rparr>\<rparr>)))"

definition syncLinkStatuses ::
  "'w reconciler \<Rightarrow> pool_link list \<Rightarrow> (string, int) gomap \<Rightarrow> (string, string) gomap \<Rightarrow> string \<Rightarrow> 'w act" where
  "syncLinkStatuses r links assigned errByUID defaultErr =
     act_each (\<lambda>l w. k_patch_link_status (r_Client r) l
       (updated_link (r_Lib r) (k_now (r_Client r) w) assigned errByUID defaultErr l) w) links"

section \<open>Reconcile\<close>

definition port_requests :: "machine_port list \<Rightarrow> link_port_request list" where
  "port_requests machinePorts = map (\<lambda>p. \<lparr>req_UID = mp_uid p, req_Name = meta_key (mp_meta p),
     req_RequestedPort = mps_RequestedPort (mp_Spec p)\<rparr>) machinePorts"

text \<open>The exits that report a failed allocation on every machine port, every link and the group.\<close>

definition report_failure ::
  "'w reconciler \<Rightarrow> machine_group \<Rightarrow> machine_port list \<Rightarrow> pool_link list \<Rightarrow> string \<Rightarrow> string \<Rightarrow> string \<Rightarrow>
   int \<Rightarrow> 'w \<Rightarrow> outcome \<times> 'w" where
  "report_failure r mg machinePorts links reason msg linkMsg requeueAfter w =
     (case syncMachinePortAllocationFailure r machinePorts msg w of
        (Some e, w) \<Rightarrow> ((no_requeue, Some e), w)
      | (None, w) \<Rightarrow>
          (case syncLinkStatuses r links [] [] linkMsg w of
             (Some e, w) \<Rightarrow> ((no_requeue, Some e), w)
           | (None, w) \<Rightarrow> markMachineGroupError r mg reason msg requeueAfter w))"

definition ready_message :: "nat \<Rightarrow> nat \<Rightarrow> nat \<Rightarrow> string" where
  "ready_message resolved allocated pruned =
     ''resolved '' @ show_int (int resolved) @ '' link(s), allocated '' @ show_int (int allocated) @
     '' machine port(s)'' @
     (if pruned = 1 then '', pruned 1 stale machine status entry''
      else if pruned > 1 then '', pruned '' @ show_int (int pruned) @ '' stale machine status entries''
      else [])"

text \<open>The status of the group after the provider has been called.\<close>

definition group_status ::
  "kube_lib \<Rightarrow> time \<Rightarrow> (string, int) gomap \<Rightarrow> resolved_link_status list \<Rightarrow> cloud_status \<Rightarrow>
   go_error option \<Rightarrow> (string, string) gomap \<Rightarrow> nat \<Rightarrow> machine_group \<Rightarrow> machine_group" where
  "group_status L now allocatedPorts resolvedLinks cloudStatus cloudErr linkErrors prunedMachines mg =
     (let mg = mg\<lparr>mg_Status := (mg_Status mg)\<lparr>
            st_ObservedGeneration := meta_generation (mg_meta mg), st_AllocatedPorts := allocatedPorts,
            st_ResolvedLinks := resolvedLinks, st_Cloud := cloudStatus\<rparr>\<rparr> in
      case cloudErr of
        Some e \<Rightarrow> set_group_condition L ConditionFalse ''CloudEnsureFailed'' (err_text e) now mg
      | None \<Rightarrow>
          if length linkErrors > 0 then
            set_group_condition L ConditionFalse ''InsufficientMachinePorts''
              (show_int (int (length linkErrors)) @ '' link(s) unresolved due to missing machine ports'') now mg
          else
            set_group_condition L ConditionTrue ''Ready''
              (ready_message (length resolvedLinks) (length allocatedPorts) prunedMachines) now mg)"

text \<open>The rest of \<^verbatim>\<open>Reconcile\<close> once every machine port has a port.\<close>

definition reconcile_allocated ::
  "'w reconciler \<Rightarrow> machine_group \<Rightarrow> lb_exposure_spec list \<Rightarrow> pool_link list \<Rightarrow> machine_port list \<Rightarrow>
   (string, int) gomap \<Rightarrow> 'w \<Rightarrow> outcome \<times> 'w" where
  "reconcile_allocated r mg loadBalancers links machinePorts allocatedPorts w =
     (let (linkPorts, linkErrors) = assignPortsToLinks links machinePorts allocatedPorts;
          resolvedLinks = buildResolvedLinks links linkPorts in
      case cloudManagerFor r mg of
        Inl e \<Rightarrow> ((no_requeue, Some e), w)
      | Inr manager \<Rightarrow>
          (case EnsureMachineGroup manager mg machinePorts allocatedPorts w of
             ((cloudStatus, machinePortCloud, cloudErr), w) \<Rightarrow>
               (let (prunedMachines, mg) = pruneStaleMachineStatuses r mg (k_now (r_Client r) w);
                    statusBase = mg;
                    mg = group_status (r_Lib r) (k_now (r_Client r) w) allocatedPorts resolvedLinks
                           cloudStatus cloudErr linkErrors prunedMachines mg in
                case k_patch_group_status (r_Client r) statusBase mg w of
                  (Some e, w) \<Rightarrow> ((no_requeue, Some e), w)
                | (None, w) \<Rightarrow>
                    (case syncMachinePortStatuses r loadBalancers machinePorts allocatedPorts
                            machinePortCloud cloudErr w of
                       (Some e, w) \<Rightarrow> ((no_requeue, Some e), w)
                     | (None, w) \<Rightarrow>
                         (case syncLinkStatuses r links linkPorts linkErrors
                                 ''no allocated TiProxyMachinePort is available for this link'' w of
                            (Some e, w) \<Rightarrow> ((no_requeue, Some e), w)
                          | (None, w) \<Rightarrow>
                              if cloudErr \<noteq> None \<or> length linkErrors > 0
                              then ((requeue_after (seconds 20), None), w)
                              else ((no_requeue, None), w))))))"

text \<open>The middle of \<^verbatim>\<open>Reconcile\<close>: from the listed links to the allocated ports.\<close>

definition reconcile_ports ::
  "'w reconciler \<Rightarrow> machine_group \<Rightarrow> lb_exposure_spec list \<Rightarrow> 'w \<Rightarrow> (outcome \<times> 'w) option" where
  "reconcile_ports r mg loadBalancers w =
     (case listManagedLinks r mg w of
        (Inl e, w) \<Rightarrow> Some ((no_requeue, Some e), w)
      | (Inr links, w) \<Rightarrow>
          (case listManagedMachinePorts r mg w of
             (Inl e, w) \<Rightarrow> Some ((no_requeue, Some e), w)
           | (Inr machinePorts, w) \<Rightarrow>
               if length machinePorts > maxMachinePortsPerGroup then
                 (let msg = ''too many TiProxyMachinePort resources: '' @
                        show_int (int (length machinePorts)) @ '' (max '' @
                        show_int (int maxMachinePortsPerGroup) @ '')''
                  in Some (report_failure r mg machinePorts links ''TooManyMachinePorts'' msg msg
                       (seconds 20) w))
               else
                 (let range = sp_PortRange (mg_Spec mg) in
                  case ReconcilePorts (st_AllocatedPorts (mg_Status mg)) (port_requests machinePorts)
                         (range_start range) (range_end range) of
                    None \<Rightarrow> None
                  | Some (Inl e) \<Rightarrow>
                      Some (report_failure r mg machinePorts links ''PortAllocationFailed'' (err_text e)
                        (''port allocation failed: '' @ err_text e) (seconds 10) w)
                  | Some (Inr allocatedPorts) \<Rightarrow>
                      Some (reconcile_allocated r mg loadBalancers links machinePorts allocatedPorts w))))"

definition is_zero_time :: "time option \<Rightarrow> bool" where
  "is_zero_time t = (case t of None \<Rightarrow> True | Some n \<Rightarrow> n = 0)"

text \<open>From the fetched group on: deletion, finalizer and validation.\<close>

definition reconcile_group :: "'w reconciler \<Rightarrow> machine_group \<Rightarrow> 'w \<Rightarrow> (outcome \<times> 'w) option" where
  "reconcile_group r mg w =
     (if \<not> is_zero_time (meta_deletion_timestamp (mg_meta mg)) then Some (reconcileDelete r mg w)
      else if \<not> lib_contains_finalizer (r_Lib r) (mg_meta mg) machineGroupFinalizer then
        (let base = mg;
             mg = mg\<lparr>mg_meta := lib_add_finalizer (r_Lib r) (mg_meta mg) machineGroupFinalizer\<rparr> in
         case k_patch_group (r_Client r) base mg w of
           (Some e, w) \<Rightarrow> Some ((no_requeue, Some e), w)
         | (None, w) \<Rightarrow> Some ((\<lparr>res_Requeue = True, res_RequeueAfter = 0\<rparr>, None), w))
      else
        (case Validate (sp_PortRange (mg_Spec mg)) of
           Inl e \<Rightarrow> Some (markMachineGroupError r mg ''InvalidPortRange'' (err_text e) (seconds 15) w)
         | Inr _ \<Rightarrow>
             (case NormalizeLoadBalancers (sp_Exposure (mg_Spec mg)) of
                Inl e \<Rightarrow> Some (markMachineGroupError r mg ''InvalidExposure'' (err_text e) (seconds 15) w)
              | Inr loadBalancers \<Rightarrow> reconcile_ports r mg loadBalancers w)))"

definition Reconcile :: "'w reconciler \<Rightarrow> namespaced_name \<Rightarrow> 'w \<Rightarrow> (outcome \<times> 'w) option" where
  "Reconcile r req w =
     (case k_get_group (r_Client r) req w of
        (Inl e, w) \<Rightarrow> Some ((no_requeue, if lib_is_not_found (r_Lib r) e then None else Some e), w)
      | (Inr mg, w) \<Rightarrow> reconcile_group r mg w)"

text \<open>The watch of \<^verbatim>\<open>SetupWithManager\<close>: which group a changed object makes reconcile.\<close>

datatype watched_object = WatchedLink pool_link | WatchedPort machine_port | OtherObject

definition mapToMachineGroup :: "watched_object \<Rightarrow> namespaced_name list" where
  "mapToMachineGroup obj =
     (case obj of
        WatchedLink v \<Rightarrow>
          (let ref = NamespacedName (lks_MachineGroupRef (lk_Spec v)) (meta_namespace (lk_meta v))
           in if nn_name ref = [] then [] else [ref])
      | WatchedPort v \<Rightarrow>
          (let ref = NamespacedName (mps_MachineGroupRef (mp_Spec v)) (meta_namespace (mp_meta v))
           in if nn_name ref = [] then [] else [ref])
      | OtherObject \<Rightarrow> [])"

end
