(* ===== verification/Controller_Status.thy ===== *)
theory Controller_Status
  imports Controller
begin

text \<open>
  What the reconciler writes into the statuses: the machine ports, the links, the group and its stale
  machines. The facts about conditions rest on the documentation of \<^verbatim>\<open>SetStatusCondition\<close>, stated as
  \<open>set_condition_law\<close>; that a provider's success makes every machine port ready is proved once in the
  locale \<open>listening_provider\<close> and holds for the provider without a cloud by its interpretation.
\<close>

section \<open>Fields that a status update leaves alone\<close>

named_theorems status_simps \<open>fields after a status update\<close>

lemma new_condition_fields [simp]:
  "cond_type (new_condition t s r m g now) = t" "cond_status (new_condition t s r m g now) = s"
  "cond_reason (new_condition t s r m g now) = r" "cond_message (new_condition t s r m g now) = m"
  by (simp_all add: new_condition_def)

lemma set_port_condition_fields [status_simps]:
  "mp_meta (set_port_condition L t s r m now p) = mp_meta p"
  "mp_Spec (set_port_condition L t s r m now p) = mp_Spec p"
  "mpt_Phase (mp_Status (set_port_condition L t s r m now p)) = mpt_Phase (mp_Status p)"
  "mpt_AssignedPort (mp_Status (set_port_condition L t s r m now p)) = mpt_AssignedPort (mp_Status p)"
  "mpt_Cloud (mp_Status (set_port_condition L t s r m now p)) = mpt_Cloud (mp_Status p)"
  by (simp_all add: set_port_condition_def)

lemma set_port_fields [status_simps]:
  "mp_meta (set_port_phase ph p) = mp_meta p" "mp_Spec (set_port_phase ph p) = mp_Spec p"
  "mpt_Phase (mp_Status (set_port_phase ph p)) = ph"
  "mpt_AssignedPort (mp_Status (set_port_phase ph p)) = mpt_AssignedPort (mp_Status p)"
  "mpt_Cloud (mp_Status (set_port_phase ph p)) = mpt_Cloud (mp_Status p)"
  "mpt_Conditions (mp_Status (set_port_phase ph p)) = mpt_Conditions (mp_Status p)"
  "mp_meta (set_port_cloud c p) = mp_meta p" "mp_Spec (set_port_cloud c p) = mp_Spec p"
  "mpt_Phase (mp_Status (set_port_cloud c p)) = mpt_Phase (mp_Status p)"
  "mpt_AssignedPort (mp_Status (set_port_cloud c p)) = mpt_AssignedPort (mp_Status p)"
  "mpt_Cloud (mp_Status (set_port_cloud c p)) = c"
  "mpt_Conditions (mp_Status (set_port_cloud c p)) = mpt_Conditions (mp_Status p)"
  "mp_meta (set_port_assigned a p) = mp_meta p" "mp_Spec (set_port_assigned a p) = mp_Spec p"
  "mpt_AssignedPort (mp_Status (set_port_assigned a p)) = a"
  "mpt_Conditions (mp_Status (set_port_assigned a p)) = mpt_Conditions (mp_Status p)"
  "mp_meta (set_port_observed p) = mp_meta p" "mp_Spec (set_port_observed p) = mp_Spec p"
  "mpt_Phase (mp_Status (set_port_observed p)) = mpt_Phase (mp_Status p)"
  "mpt_AssignedPort (mp_Status (set_port_observed p)) = mpt_AssignedPort (mp_Status p)"
  "mpt_Cloud (mp_Status (set_port_observed p)) = mpt_Cloud (mp_Status p)"
  "mpt_Conditions (mp_Status (set_port_observed p)) = mpt_Conditions (mp_Status p)"
  "mpt_ObservedGeneration (mp_Status (set_port_observed p)) = meta_generation (mp_meta p)"
  by (simp_all add: set_port_phase_def set_port_cloud_def set_port_assigned_def set_port_observed_def)

abbreviation port_status_of :: "string \<Rightarrow> machine_port \<Rightarrow> string option" where
  "port_status_of t p \<equiv> status_of t (mpt_Conditions (mp_Status p))"

abbreviation group_status_of :: "string \<Rightarrow> machine_group \<Rightarrow> string option" where
  "group_status_of t g \<equiv> status_of t (st_Conditions (mg_Status g))"

lemma port_status_of_set:
  "set_condition_law L \<Longrightarrow> port_status_of t (set_port_condition L t' s r m now p) =
     (if t = t' then Some s else port_status_of t p)"
  by (simp add: set_port_condition_def status_of_set)

lemma group_status_of_set:
  "set_condition_law L \<Longrightarrow> group_status_of t (set_group_condition L s r m now g) =
     (if t = ConditionReady then Some s else group_status_of t g)"
  by (simp add: set_group_condition_def status_of_set)

lemma condition_names [simp]:
  "ConditionExposed \<noteq> ConditionPortAssigned" "ConditionPortAssigned \<noteq> ConditionExposed"
  "ConditionTrue \<noteq> ConditionFalse" "ConditionFalse \<noteq> ConditionTrue"
  by (simp_all add: condition_defs)

section \<open>Ready load balancers\<close>

lemma ready_count_le: "countReadyPortLoadBalancers lbs sts \<le> length lbs"
  by (simp add: countReadyPortLoadBalancers_def Let_def)

lemma filter_full: "length (filter P xs) = length xs \<longleftrightarrow> (\<forall>x \<in> set xs. P x)"
  by (metis filter_id_conv length_filter_less nless_le)

text \<open>All load balancers are counted as ready exactly when each has a listener in the statuses.\<close>

definition all_listening :: "lb_exposure_spec list \<Rightarrow> port_lb_cloud_status list \<Rightarrow> bool" where
  "all_listening lbs sts \<longleftrightarrow>
     (\<forall>lb \<in> set lbs. \<exists>s \<in> set sts. pls_Name s = lbs_Name lb \<and> \<not> blank (pls_ListenerID s))"

lemma ready_count_full: "countReadyPortLoadBalancers lbs sts = length lbs \<longleftrightarrow> all_listening lbs sts"
proof -
  have "lbs_Name lb \<in> set (map pls_Name (filter (\<lambda>s. trim_space (pls_ListenerID s) \<noteq> []) sts)) \<longleftrightarrow>
      (\<exists>s \<in> set sts. pls_Name s = lbs_Name lb \<and> \<not> blank (pls_ListenerID s))" for lb
    by (auto intro!: rev_image_eqI)
  then show ?thesis
    unfolding countReadyPortLoadBalancers_def Let_def filter_full all_listening_def by blast
qed

section \<open>Machine ports\<close>

text \<open>The cloud entry a machine port is shown with; a missing one is the zero value.\<close>

definition cloud_entry :: "(string, port_cloud_status) gomap \<Rightarrow> string \<Rightarrow> port_cloud_status" where
  "cloud_entry cloud u = (case map_of cloud u of None \<Rightarrow> empty_port_cloud_status | Some c \<Rightarrow> c)"

definition exposed ::
  "lb_exposure_spec list \<Rightarrow> (string, int) gomap \<Rightarrow> (string, port_cloud_status) gomap \<Rightarrow>
   go_error option \<Rightarrow> string \<Rightarrow> bool" where
  "exposed lbs allocated cloud cloudErr u \<longleftrightarrow>
     map_of allocated u \<noteq> None \<and>
     (lbs = [] \<or> cloudErr = None \<and> all_listening lbs (pcs_LoadBalancers (cloud_entry cloud u)))"

lemma SetPrimary_port_balancers [simp]:
  "pcs_LoadBalancers (SetPrimaryLoadBalancerCompat_port c) = pcs_LoadBalancers c"
  by (simp add: SetPrimaryLoadBalancerCompat_port_def Let_def split: list.split)

lemma port_assignment_fields [status_simps]:
  "mp_meta (port_assignment L now a p) = mp_meta p" "mp_Spec (port_assignment L now a p) = mp_Spec p"
  "mpt_AssignedPort (mp_Status (port_assignment L now a p)) = a"
  "mpt_Phase (mp_Status (port_assignment L now a p)) =
     (if a = None then MachinePortPhasePending else MachinePortPhaseAllocated)"
  by (simp_all add: port_assignment_def status_simps split: option.split)

lemma port_assignment_status:
  "set_condition_law L \<Longrightarrow> port_status_of ConditionPortAssigned (port_assignment L now a p) =
     Some (if a = None then ConditionFalse else ConditionTrue)"
  by (simp add: port_assignment_def port_status_of_set split: option.split)

lemma port_exposure_fields [status_simps]:
  "mp_meta (port_exposure L now lbs a cloud err p) = mp_meta p"
  "mp_Spec (port_exposure L now lbs a cloud err p) = mp_Spec p"
  "mpt_AssignedPort (mp_Status (port_exposure L now lbs a cloud err p)) = mpt_AssignedPort (mp_Status p)"
  by (simp_all add: port_exposure_def status_simps Let_def split: option.split)

lemma port_exposure_phase:
  "mpt_Phase (mp_Status (port_exposure L now lbs a cloud err p)) =
     (if a \<noteq> None \<and> (lbs = [] \<or> err = None \<and>
          all_listening lbs (pcs_LoadBalancers (cloud_entry cloud (mp_uid p))))
      then MachinePortPhaseReady else mpt_Phase (mp_Status p))"
proof (cases "a \<noteq> None \<and> lbs \<noteq> [] \<and> err = None")
  case True
  then show ?thesis
    by (auto simp: port_exposure_def Let_def status_simps countRequiredPortLoadBalancers_def
        ready_count_full cloud_entry_def [symmetric])
next
  case False
  then show ?thesis by (auto simp: port_exposure_def Let_def status_simps split: option.split)
qed

lemma port_exposure_status:
  assumes "set_condition_law L"
  shows "port_status_of ConditionExposed (port_exposure L now lbs a cloud err p) =
     Some (if a \<noteq> None \<and> (lbs = [] \<or> err = None \<and>
          all_listening lbs (pcs_LoadBalancers (cloud_entry cloud (mp_uid p))))
      then ConditionTrue else ConditionFalse)"
proof (cases "a \<noteq> None \<and> lbs \<noteq> [] \<and> err = None")
  case True
  then show ?thesis
    by (auto simp: port_exposure_def Let_def status_simps countRequiredPortLoadBalancers_def
        ready_count_full cloud_entry_def [symmetric] port_status_of_set [OF assms])
next
  case False
  then show ?thesis
    by (auto simp: port_exposure_def Let_def status_simps port_status_of_set [OF assms] split: option.split)
qed

lemma port_exposure_other:
  assumes "set_condition_law L" "t \<noteq> ConditionExposed"
  shows "port_status_of t (port_exposure L now lbs a cloud err p) = port_status_of t p"
  by (simp add: port_exposure_def Let_def status_simps port_status_of_set [OF assms(1)] assms(2)
      split: option.split)

lemma updated_port_fields [status_simps]:
  "mp_meta (updated_port L now lbs al cloud err p) = mp_meta p"
  "mp_Spec (updated_port L now lbs al cloud err p) = mp_Spec p"
  "mpt_AssignedPort (mp_Status (updated_port L now lbs al cloud err p)) = map_of al (mp_uid p)"
  "mpt_ObservedGeneration (mp_Status (updated_port L now lbs al cloud err p)) = meta_generation (mp_meta p)"
  by (simp_all add: updated_port_def Let_def status_simps)

lemma updated_port_phase:
  "mpt_Phase (mp_Status (updated_port L now lbs al cloud err p)) =
     (if exposed lbs al cloud err (mp_uid p) then MachinePortPhaseReady
      else if map_of al (mp_uid p) = None then MachinePortPhasePending else MachinePortPhaseAllocated)"
  by (simp add: updated_port_def Let_def status_simps port_exposure_phase exposed_def)

lemma updated_port_status:
  assumes "set_condition_law L"
  shows "port_status_of ConditionExposed (updated_port L now lbs al cloud err p) =
     Some (if exposed lbs al cloud err (mp_uid p) then ConditionTrue else ConditionFalse)"
    "port_status_of ConditionPortAssigned (updated_port L now lbs al cloud err p) =
     Some (if map_of al (mp_uid p) = None then ConditionFalse else ConditionTrue)"
  by (simp_all add: updated_port_def Let_def status_simps port_exposure_status [OF assms] exposed_def
      port_exposure_other [OF assms] port_assignment_status [OF assms])

lemma phase_distinct [simp]:
  "MachinePortPhaseReady \<noteq> MachinePortPhasePending" "MachinePortPhaseReady \<noteq> MachinePortPhaseAllocated"
  "MachinePortPhaseReady \<noteq> MachinePortPhaseError"
  "MachinePortPhasePending \<noteq> MachinePortPhaseReady" "MachinePortPhaseAllocated \<noteq> MachinePortPhaseReady"
  "MachinePortPhaseError \<noteq> MachinePortPhaseReady"
  by (simp_all add: phase_defs)

section \<open>What a provider's success means for the machine ports\<close>

context listening_provider
begin

lemma success_exposes:
  assumes "ensure mg mps allocated w = ((s, ports, None), w')"
    "NormalizeLoadBalancers (sp_Exposure (mg_Spec mg)) = Inr lbs"
    "mp \<in> set mps" "map_of allocated (mp_uid mp) = Some p" "0 < p"
  shows "exposed lbs allocated ports None (mp_uid mp)"
proof (cases "lbs = []")
  case False
  from reported [OF assms(1,2) this assms(3-5)] obtain entry where
    e: "map_of ports (mp_uid mp) = Some entry"
      "pls_Name ` set (pcs_LoadBalancers entry) = lbs_Name ` set lbs" .
  have "all_listening lbs (pcs_LoadBalancers entry)"
    unfolding all_listening_def
  proof
    fix lb assume "lb \<in> set lbs"
    then have "lbs_Name lb \<in> pls_Name ` set (pcs_LoadBalancers entry)" using e(2) by blast
    then obtain l where "l \<in> set (pcs_LoadBalancers entry)" "pls_Name l = lbs_Name lb" by force
    with listener_ids [OF assms(1) e(1)] show
      "\<exists>l \<in> set (pcs_LoadBalancers entry). pls_Name l = lbs_Name lb \<and> \<not> blank (pls_ListenerID l)" by blast
  qed
  then show ?thesis using assms(4) e(1) by (simp add: exposed_def cloud_entry_def)
qed (simp add: exposed_def assms(4))

end

section \<open>Links\<close>

lemma set_link_condition_fields [status_simps]:
  "lk_meta (set_link_condition L s r m now l) = lk_meta l"
  "lk_Spec (set_link_condition L s r m now l) = lk_Spec l"
  "lkt_Phase (lk_Status (set_link_condition L s r m now l)) = lkt_Phase (lk_Status l)"
  "lkt_ObservedGeneration (lk_Status (set_link_condition L s r m now l)) =
     lkt_ObservedGeneration (lk_Status l)"
  by (simp_all add: set_link_condition_def)

lemma updated_link_fields [status_simps]:
  "lk_meta (updated_link L now as errs d l) = lk_meta l"
  "lk_Spec (updated_link L now as errs d l) = lk_Spec l"
  "lkt_Phase (lk_Status (updated_link L now as errs d l)) =
     (if map_of as (lk_uid l) \<noteq> None then ''Ready'' else ''Error'')"
  "lkt_ObservedGeneration (lk_Status (updated_link L now as errs d l)) = meta_generation (lk_meta l)"
  by (simp_all add: updated_link_def status_simps Let_def)

text \<open>The message of the \<^verbatim>\<open>Ready\<close> condition of a link.\<close>

definition link_message :: "pool_link \<Rightarrow> string option" where
  "link_message l = map_option cond_message (condition_of ConditionReady (lkt_Conditions (lk_Status l)))"

abbreviation link_status_of :: "string \<Rightarrow> pool_link \<Rightarrow> string option" where
  "link_status_of t l \<equiv> status_of t (lkt_Conditions (lk_Status l))"

lemma link_message_set:
  assumes "set_condition_law L"
  shows "link_message (set_link_condition L s r m now l) = Some m"
proof -
  let ?c = "new_condition ConditionReady s r m (meta_generation (lk_meta l)) now"
  from set_condition_same [OF assms, of ?c "lkt_Conditions (lk_Status l)"] obtain t where
    "condition_of ConditionReady (lib_set_condition L (lkt_Conditions (lk_Status l)) ?c) =
       Some (?c\<lparr>cond_transition := t\<rparr>)" by auto
  then show ?thesis by (simp add: link_message_def set_link_condition_def new_condition_def)
qed

lemma link_status_of_set:
  "set_condition_law L \<Longrightarrow> link_status_of t (set_link_condition L s r m now l) =
     (if t = ConditionReady then Some s else link_status_of t l)"
  by (simp add: set_link_condition_def status_of_set)

section \<open>Stale machines\<close>

text \<open>The stored machines, an absent map read as the empty one.\<close>

definition machines_of :: "machine_group \<Rightarrow> (string, machine_status) gomap" where
  "machines_of mg = (case st_Machines (mg_Status mg) of None \<Rightarrow> [] | Some m \<Rightarrow> m)"

lemma prune_enabled:
  assumes "0 < r_MachineStatusStaleAfter r"
  shows "machines_of (snd (pruneStaleMachineStatuses r mg now)) =
      filter (\<lambda>(u, s). \<not> is_stale (r_MachineStatusStaleAfter r) now s) (machines_of mg)"
    "fst (pruneStaleMachineStatuses r mg now) =
      length (machines_of mg) - length (machines_of (snd (pruneStaleMachineStatuses r mg now)))"
  using assms by (auto simp: pruneStaleMachineStatuses_def machines_of_def Let_def split: option.splits)

lemma prune_disabled:
  "r_MachineStatusStaleAfter r \<le> 0 \<Longrightarrow> pruneStaleMachineStatuses r mg now = (0, mg)"
  by (simp add: pruneStaleMachineStatuses_def split: option.splits)

lemma prune_other_fields:
  "mg_meta (snd (pruneStaleMachineStatuses r mg now)) = mg_meta mg"
  "mg_Spec (snd (pruneStaleMachineStatuses r mg now)) = mg_Spec mg"
  "st_Conditions (mg_Status (snd (pruneStaleMachineStatuses r mg now))) = st_Conditions (mg_Status mg)"
  by (auto simp: pruneStaleMachineStatuses_def Let_def split: option.splits)

section \<open>Properties\<close>

text \<open>
  The status a machine port is given: its assigned port is the allocated one; it is \<^verbatim>\<open>Ready\<close>, and its
  condition \<^verbatim>\<open>Exposed\<close> true, exactly when it has a port and either exposure is disabled or the provider
  succeeded and every declared load balancer has a listener for it; nothing but the status changes.
\<close>

theorem updated_port_ready_iff:
  assumes "set_condition_law L"
  shows "let q = updated_port L now lbs allocated cloud cloudErr p in
    mp_meta q = mp_meta p \<and> mp_Spec q = mp_Spec p \<and>
    mpt_AssignedPort (mp_Status q) = map_of allocated (mp_uid p) \<and>
    (mpt_Phase (mp_Status q) = MachinePortPhaseReady \<longleftrightarrow> exposed lbs allocated cloud cloudErr (mp_uid p)) \<and>
    (port_status_of ConditionExposed q = Some ConditionTrue \<longleftrightarrow> exposed lbs allocated cloud cloudErr (mp_uid p)) \<and>
    (port_status_of ConditionPortAssigned q = Some ConditionTrue \<longleftrightarrow> map_of allocated (mp_uid p) \<noteq> None)"
  by (simp add: Let_def status_simps updated_port_phase updated_port_status [OF assms])

theorem updated_port_ready_iff_witness:
  "mpt_Phase (mp_Status (updated_port sample_lib 5 [] sample_allocation [] None (sample_port ''p1'' ''a''))) =
     MachinePortPhaseReady"
proof -
  have "exposed [] sample_allocation [] None (mp_uid (sample_port ''p1'' ''a''))"
    by (simp add: exposed_def sample_group)
  with updated_port_ready_iff [OF sample_set_condition_law, of 5 "[]" sample_allocation "[]" None
      "sample_port ''p1'' ''a''"]
  show ?thesis by (simp only: Let_def)
qed

text \<open>
  For a group without a cloud, one successful \<^verbatim>\<open>EnsureMachineGroup\<close> makes every machine port that has
  a positive port \<^verbatim>\<open>Ready\<close>.
\<close>

theorem noop_ports_become_ready:
  assumes "noop_Ensure mg mps allocated w = ((s, ports, None), w')"
    "NormalizeLoadBalancers (sp_Exposure (mg_Spec mg)) = Inr lbs"
    "mp \<in> set mps" "map_of allocated (mp_uid mp) = Some p" "0 < p"
  shows "mpt_Phase (mp_Status (updated_port L now lbs allocated ports None mp)) = MachinePortPhaseReady"
  using noop.success_exposes [OF assms] by (simp add: updated_port_phase)

text \<open>
  A link is \<^verbatim>\<open>Ready\<close> exactly when it was assigned a port. Otherwise its condition is false and the
  message is its own error, or the default one when it has none or a blank one.
\<close>

theorem updated_link_reports:
  assumes "set_condition_law L"
  shows "let q = updated_link L now assigned errs dflt l; own = (case map_of errs (lk_uid l) of
        None \<Rightarrow> [] | Some m \<Rightarrow> trim_space m) in
    lk_Spec q = lk_Spec l \<and>
    (lkt_Phase (lk_Status q) = ''Ready'' \<longleftrightarrow> map_of assigned (lk_uid l) \<noteq> None) \<and>
    link_status_of ConditionReady q =
      Some (if map_of assigned (lk_uid l) \<noteq> None then ConditionTrue else ConditionFalse) \<and>
    (map_of assigned (lk_uid l) = None \<longrightarrow>
      link_message q = Some (if own \<noteq> [] then own else trim_space dflt))"
proof -
  have "link_status_of ConditionReady (updated_link L now assigned errs dflt l) =
      Some (if map_of assigned (lk_uid l) \<noteq> None then ConditionTrue else ConditionFalse)"
    by (simp add: updated_link_def Let_def link_status_of_set [OF assms])
  moreover have "link_message (updated_link L now assigned errs dflt l) =
      Some (if own \<noteq> [] then own else trim_space dflt)"
    if "map_of assigned (lk_uid l) = None"
      "own = (case map_of errs (lk_uid l) of None \<Rightarrow> [] | Some m \<Rightarrow> trim_space m)" for own
    using that by (simp add: updated_link_def Let_def link_message_set [OF assms] split: option.split)
  ultimately show ?thesis by (simp add: Let_def status_simps)
qed

text \<open>
  Pruning removes exactly the machines without a heartbeat or whose last one is older than the
  limit, counts them, and keeps every other entry; a limit that is not positive disables it.
\<close>

theorem prune_removes_exactly_stale:
  assumes "wf_map (machines_of mg)" "0 < r_MachineStatusStaleAfter r"
  shows "map_of (machines_of (snd (pruneStaleMachineStatuses r mg now))) u =
      (case map_of (machines_of mg) u of None \<Rightarrow> None
       | Some s \<Rightarrow> if is_stale (r_MachineStatusStaleAfter r) now s then None else Some s) \<and>
    fst (pruneStaleMachineStatuses r mg now) =
      length (filter (\<lambda>(u, s). is_stale (r_MachineStatusStaleAfter r) now s) (machines_of mg))"
proof -
  let ?stale = "is_stale (r_MachineStatusStaleAfter r) now"
  have "length (filter (\<lambda>(u, s). ?stale s) (machines_of mg)) +
      length (filter (\<lambda>(u, s). \<not> ?stale s) (machines_of mg)) = length (machines_of mg)"
    using sum_length_filter_compl [of "\<lambda>(u, s). ?stale s" "machines_of mg"] by (simp add: case_prod_unfold)
  then have "fst (pruneStaleMachineStatuses r mg now) = length (filter (\<lambda>(u, s). ?stale s) (machines_of mg))"
    unfolding prune_enabled [OF assms(2)] by linarith
  moreover have "map_of (machines_of (snd (pruneStaleMachineStatuses r mg now))) u =
      (case map_of (machines_of mg) u of None \<Rightarrow> None | Some s \<Rightarrow> if ?stale s then None else Some s)"
    using assms(1) by (simp add: prune_enabled [OF assms(2)] map_of_filter_wf split: option.split)
  ultimately show ?thesis by blast
qed

text \<open>A reconciler for the witnesses, over an environment without content.\<close>

definition sample_client :: "unit kube_client" where
  "sample_client = \<lparr>k_get_group = (\<lambda>_ w. (Inr sample_mg, w)),
     k_list_links = (\<lambda>_ _ w. (Inr sample_links, w)), k_list_ports = (\<lambda>_ w. (Inr sample_ports, w)),
     k_patch_group = (\<lambda>_ _. act_skip), k_patch_group_status = (\<lambda>_ _. act_skip),
     k_patch_port_status = (\<lambda>_ _. act_skip), k_patch_link_status = (\<lambda>_ _. act_skip), k_now = (\<lambda>_. 1000)\<rparr>"

definition sample_reconciler :: "unit reconciler" where
  "sample_reconciler = \<lparr>r_Client = sample_client, r_Lib = sample_lib, r_CloudManager = None,
     r_Provider = [], r_MachineStatusStaleAfter = 600\<rparr>"

definition sample_machine :: "time \<Rightarrow> machine_status" where
  "sample_machine t = \<lparr>mst_ObservedGeneration = 1, mst_LastHeartbeatTime = t, mst_Phase = MachinePhaseRunning,
     mst_ConfigHash = [], mst_TiProxyImage = [], mst_Message = []\<rparr>"

definition sample_machines :: "(string, machine_status) gomap" where
  "sample_machines = [(''i-1'', sample_machine 300), (''i-2'', sample_machine 900), (''i-3'', sample_machine 0)]"

theorem prune_removes_exactly_stale_witness:
  "map_of (machines_of (snd (pruneStaleMachineStatuses sample_reconciler
     (sample_mg\<lparr>mg_Status := sample_status\<lparr>st_Machines := Some sample_machines\<rparr>\<rparr>) 1000))) ''i-2'' =
     Some (sample_machine 900)"
proof -
  let ?mg = "sample_mg\<lparr>mg_Status := sample_status\<lparr>st_Machines := Some sample_machines\<rparr>\<rparr>"
  have "machines_of ?mg = sample_machines" by (simp add: machines_of_def)
  then have "wf_map (machines_of ?mg)" "map_of (machines_of ?mg) ''i-2'' = Some (sample_machine 900)"
    by (simp_all add: sample_machines_def)
  moreover have "0 < r_MachineStatusStaleAfter sample_reconciler"
    "\<not> is_stale (r_MachineStatusStaleAfter sample_reconciler) 1000 (sample_machine 900)"
    by (simp_all add: sample_reconciler_def is_stale_def time_sub_def sample_machine_def)
  ultimately show ?thesis
    using prune_removes_exactly_stale [of ?mg sample_reconciler 1000 "''i-2''"] by simp
qed

theorem updated_link_reports_witness:
  "link_status_of ConditionReady (updated_link sample_lib 5 [] [(''l1'', ''no port'')] []
     (sample_link ''l1'' ''b'')) = Some ConditionFalse"
  using updated_link_reports [OF sample_set_condition_law, of 5 "[]" "[(''l1'', ''no port'')]" "[]"
      "sample_link ''l1'' ''b''"]
  by (simp only: Let_def map_of.simps not_True_eq_False if_False simp_thms)

theorem noop_ports_become_ready_witness:
  "mpt_Phase (mp_Status (updated_port sample_lib 5
       [\<lparr>lbs_Name = ''internal'', lbs_Scope = ''internal'', lbs_LoadBalancerName = [], lbs_SubnetIDs = []\<rparr>]
       sample_allocation (fst (snd (fst (noop_Ensure sample_mg sample_ports sample_allocation ())))) None
       (sample_port ''p1'' ''a''))) = MachinePortPhaseReady"
proof -
  let ?lb = "\<lparr>lbs_Name = ''internal'', lbs_Scope = ''internal'', lbs_LoadBalancerName = [],
    lbs_SubnetIDs = []\<rparr>"
  obtain s ports e w' where run:
    "noop_Ensure sample_mg sample_ports sample_allocation () = ((s, ports, e), w')"
    by (metis surj_pair)
  have lbs: "NormalizeLoadBalancers (sp_Exposure (mg_Spec sample_mg)) = Inr [?lb]"
    by (simp add: sample_mg_def sample_spec_def NormalizeLoadBalancers_def)
  then have "e = None"
    using run by (auto simp: noop_Ensure_def Let_def split: prod.splits)
  moreover have "sample_port ''p1'' ''a'' \<in> set sample_ports" "(0 :: int) < 10000"
    "map_of sample_allocation (mp_uid (sample_port ''p1'' ''a'')) = Some 10000"
    by (simp_all add: sample_group)
  ultimately show ?thesis
    using noop_ports_become_ready [of sample_mg sample_ports sample_allocation "()" s ports w' "[?lb]"
        "sample_port ''p1'' ''a''" 10000] run lbs by simp
qed

end
