(* ===== verification/Controller_Protocol.thy ===== *)
theory Controller_Protocol
  imports Controller_Status
begin

text \<open>
  An abstract specification of the reconciler: the order in which one \<^verbatim>\<open>Reconcile\<close> may call the API
  server and the cloud, as a state machine over the recorded calls. A \<open>phase\<close> is what the run knows so
  far; \<open>ctl_step\<close> lists the calls each phase allows. The refinement \<open>Reconcile_follows_protocol\<close> shows
  that the log of every \<^verbatim>\<open>Reconcile\<close>, whatever the calls answer, is a run of the machine. What holds of
  every call is then proved by rule induction over runs, without looking at the code again.
\<close>

section \<open>The state machine\<close>

datatype phase =
    Start namespaced_name
  | Fetched machine_group
  | Removed machine_group
  | HaveLinks machine_group "pool_link list"
  | HavePorts machine_group "pool_link list" "machine_port list"
  | Refusing machine_group "pool_link list" "machine_port list"
  | Ensured machine_group "pool_link list" "machine_port list" "(string, int) gomap" ensure_result
  | Reported machine_group "pool_link list" "machine_port list" "(string, int) gomap" ensure_result
  | Halted

definition deleted :: "machine_group \<Rightarrow> bool" where
  "deleted mg \<longleftrightarrow> \<not> is_zero_time (meta_deletion_timestamp (mg_meta mg))"

definition finalized :: "kube_lib \<Rightarrow> machine_group \<Rightarrow> bool" where
  "finalized L mg \<longleftrightarrow> lib_contains_finalizer L (mg_meta mg) machineGroupFinalizer"

definition with_finalizer :: "kube_lib \<Rightarrow> machine_group \<Rightarrow> machine_group" where
  "with_finalizer L mg = mg\<lparr>mg_meta := lib_add_finalizer L (mg_meta mg) machineGroupFinalizer\<rparr>"

definition without_finalizer :: "kube_lib \<Rightarrow> machine_group \<Rightarrow> machine_group" where
  "without_finalizer L mg = mg\<lparr>mg_meta := lib_remove_finalizer L (mg_meta mg) machineGroupFinalizer\<rparr>"

text \<open>The specification of a group the reconciler goes on with.\<close>

definition valid_spec :: "machine_group \<Rightarrow> bool" where
  "valid_spec mg \<longleftrightarrow> is_ok (Validate (sp_PortRange (mg_Spec mg))) \<and>
     is_ok (NormalizeLoadBalancers (sp_Exposure (mg_Spec mg)))"

definition active :: "kube_lib \<Rightarrow> machine_group \<Rightarrow> bool" where
  "active L mg \<longleftrightarrow> \<not> deleted mg \<and> finalized L mg \<and> valid_spec mg"

text \<open>The ports the allocator gives the machine ports of a group.\<close>

definition allocates :: "machine_group \<Rightarrow> machine_port list \<Rightarrow> (string, int) gomap \<Rightarrow> bool" where
  "allocates mg mps al \<longleftrightarrow> length mps \<le> maxMachinePortsPerGroup \<and>
     ReconcilePorts (st_AllocatedPorts (mg_Status mg)) (port_requests mps)
       (range_start (sp_PortRange (mg_Spec mg))) (range_end (sp_PortRange (mg_Spec mg))) = Some (Inr al)"

text \<open>
  The status patch after the provider has answered: the base differs from the fetched group at most in
  its stale machines, and the patched group is the base with the new status.
\<close>

definition pruned_group :: "machine_group \<Rightarrow> machine_group \<Rightarrow> bool" where
  "pruned_group mg base \<longleftrightarrow> (\<exists>ms. base = mg\<lparr>mg_Status := (mg_Status mg)\<lparr>st_Machines := ms\<rparr>\<rparr> \<and>
     (\<forall>kept. ms = Some kept \<longrightarrow> (\<exists>machines P. st_Machines (mg_Status mg) = Some machines \<and> kept = filter P machines)))"

definition status_patch ::
  "kube_lib \<Rightarrow> machine_group \<Rightarrow> pool_link list \<Rightarrow> machine_port list \<Rightarrow> (string, int) gomap \<Rightarrow>
   ensure_result \<Rightarrow> machine_group \<Rightarrow> machine_group \<Rightarrow> bool" where
  "status_patch L mg links mps al res base obj \<longleftrightarrow> pruned_group mg base \<and>
     (\<exists>now pruned. obj = group_status L now al
        (buildResolvedLinks links (fst (assignPortsToLinks links mps al))) (fst res) (snd (snd res))
        (snd (assignPortsToLinks links mps al)) pruned base)"

lemma pruned_group_same: "pruned_group mg mg"
  unfolding pruned_group_def
proof (intro exI conjI allI impI)
  show "mg = mg\<lparr>mg_Status := (mg_Status mg)\<lparr>st_Machines := st_Machines (mg_Status mg)\<rparr>\<rparr>" by simp
  fix kept assume "st_Machines (mg_Status mg) = Some kept"
  then show "st_Machines (mg_Status mg) = Some kept" "kept = filter (\<lambda>_. True) kept" by simp_all
qed

lemma prune_pruned_group: "pruned_group mg (snd (pruneStaleMachineStatuses r mg now))"
proof (cases "st_Machines (mg_Status mg)")
  case (Some machines)
  let ?P = "\<lambda>(machineID, status). \<not> is_stale (r_MachineStatusStaleAfter r) now status"
  have "pruned_group mg (mg\<lparr>mg_Status := (mg_Status mg)\<lparr>st_Machines :=
      (if filter ?P machines = [] then None else Some (filter ?P machines))\<rparr>\<rparr>)"
    using Some by (auto simp: pruned_group_def)
  then show ?thesis using Some by (simp add: pruneStaleMachineStatuses_def Let_def pruned_group_same)
qed (simp add: pruneStaleMachineStatuses_def pruned_group_same)

lemma status_patch_unfold:
  "status_patch L mg links mps al res base obj \<longleftrightarrow> pruned_group mg base \<and>
     mg_meta base = mg_meta mg \<and> mg_Spec base = mg_Spec mg \<and>
     st_Conditions (mg_Status base) = st_Conditions (mg_Status mg) \<and>
     (\<exists>now pruned. obj = group_status L now al
        (buildResolvedLinks links (fst (assignPortsToLinks links mps al))) (fst res) (snd (snd res))
        (snd (assignPortsToLinks links mps al)) pruned base)"
  by (auto simp: status_patch_def pruned_group_def)

text \<open>A call that fails ends the run.\<close>

fun on_success :: "go_error option \<Rightarrow> phase \<Rightarrow> phase" where
  "on_success None s = s"
| "on_success (Some e) s = Halted"

definition exposure_of :: "machine_group \<Rightarrow> lb_exposure_spec list" where
  "exposure_of mg = (case NormalizeLoadBalancers (sp_Exposure (mg_Spec mg)) of Inl _ \<Rightarrow> [] | Inr lbs \<Rightarrow> lbs)"

definition uses_cloud :: "machine_group \<Rightarrow> bool" where
  "uses_cloud mg \<longleftrightarrow> to_lower (trim_space (sp_Provider (mg_Spec mg))) \<notin> {[], ''none'', ''noop''}"

inductive ctl_step :: "kube_lib \<Rightarrow> phase \<Rightarrow> event \<Rightarrow> phase \<Rightarrow> bool" for L :: kube_lib where
  fetch: "ctl_step L (Start n) (GetGroup n (Inr mg)) (Fetched mg)"
| fetch_fails: "ctl_step L (Start n) (GetGroup n (Inl e)) Halted"
| add_finalizer: "\<not> deleted mg \<Longrightarrow> \<not> finalized L mg \<Longrightarrow>
    ctl_step L (Fetched mg) (PatchGroup mg (with_finalizer L mg) answer) Halted"
| delete: "deleted mg \<Longrightarrow> finalized L mg \<Longrightarrow> uses_cloud mg \<Longrightarrow>
    ctl_step L (Fetched mg) (CloudDelete mg None) (Removed mg)"
| delete_fails: "deleted mg \<Longrightarrow> finalized L mg \<Longrightarrow> uses_cloud mg \<Longrightarrow>
    ctl_step L (Fetched mg) (CloudDelete mg (Some e)) Halted"
| remove_finalizer: "ctl_step L (Removed mg) (PatchGroup mg (without_finalizer L mg) answer) Halted"
| remove_finalizer_noop: "deleted mg \<Longrightarrow> finalized L mg \<Longrightarrow> \<not> uses_cloud mg \<Longrightarrow>
    ctl_step L (Fetched mg) (PatchGroup mg (without_finalizer L mg) answer) Halted"
| reject_spec: "\<not> deleted mg \<Longrightarrow> finalized L mg \<Longrightarrow> \<not> valid_spec mg \<Longrightarrow>
    ctl_step L (Fetched mg)
      (PatchGroupStatus mg (set_group_condition L ConditionFalse reason msg now mg) answer) Halted"
| list_links: "active L mg \<Longrightarrow>
    ctl_step L (Fetched mg) (ListLinks (meta_namespace (mg_meta mg)) (sp_LinkSelector (mg_Spec mg)) (Inr items))
      (HaveLinks mg (managed_links mg items))"
| list_links_fails: "active L mg \<Longrightarrow>
    ctl_step L (Fetched mg) (ListLinks (meta_namespace (mg_meta mg)) (sp_LinkSelector (mg_Spec mg)) (Inl e)) Halted"
| list_ports: "ctl_step L (HaveLinks mg links) (ListPorts (meta_namespace (mg_meta mg)) (Inr items))
      (HavePorts mg links (managed_ports mg items))"
| list_ports_fails: "ctl_step L (HaveLinks mg links) (ListPorts (meta_namespace (mg_meta mg)) (Inl e)) Halted"
| refuse_port: "\<nexists>al. allocates mg mps al \<Longrightarrow> p \<in> set mps \<Longrightarrow>
    ctl_step L (Refusing mg links mps) (PatchPortStatus p (failed_port L now msg p) answer)
      (on_success answer (Refusing mg links mps))"
| refuse_link: "\<nexists>al. allocates mg mps al \<Longrightarrow> l \<in> set links \<Longrightarrow>
    ctl_step L (Refusing mg links mps) (PatchLinkStatus l (updated_link L now [] [] msg l) answer)
      (on_success answer (Refusing mg links mps))"
| refuse_group: "\<nexists>al. allocates mg mps al \<Longrightarrow>
    ctl_step L (Refusing mg links mps)
      (PatchGroupStatus mg (set_group_condition L ConditionFalse reason msg now mg) answer) Halted"
| refuse: "ctl_step L (Refusing mg links mps) ev s \<Longrightarrow> ctl_step L (HavePorts mg links mps) ev s"
| ensure: "allocates mg mps al \<Longrightarrow> uses_cloud mg \<Longrightarrow>
    ctl_step L (HavePorts mg links mps) (CloudEnsure mg mps al res) (Ensured mg links mps al res)"
| report: "status_patch L mg links mps al res base obj \<Longrightarrow>
    ctl_step L (Ensured mg links mps al res) (PatchGroupStatus base obj answer)
      (on_success answer (Reported mg links mps al res))"
| report_noop: "allocates mg mps al \<Longrightarrow> \<not> uses_cloud mg \<Longrightarrow> res = fst (noop_Ensure mg mps al ()) \<Longrightarrow>
    status_patch L mg links mps al res base obj \<Longrightarrow>
    ctl_step L (HavePorts mg links mps) (PatchGroupStatus base obj answer)
      (on_success answer (Reported mg links mps al res))"
| report_port: "p \<in> set mps \<Longrightarrow>
    ctl_step L (Reported mg links mps al res)
      (PatchPortStatus p (updated_port L now (exposure_of mg) al (fst (snd res)) (snd (snd res)) p) answer)
      (on_success answer (Reported mg links mps al res))"
| report_link: "l \<in> set links \<Longrightarrow>
    ctl_step L (Reported mg links mps al res)
      (PatchLinkStatus l (updated_link L now (fst (assignPortsToLinks links mps al))
        (snd (assignPortsToLinks links mps al))
        ''no allocated TiProxyMachinePort is available for this link'' l) answer)
      (on_success answer (Reported mg links mps al res))"

text \<open>Runs: a list of calls from one phase to another.\<close>

inductive ctl_run :: "kube_lib \<Rightarrow> phase \<Rightarrow> event list \<Rightarrow> phase \<Rightarrow> bool" for L :: kube_lib where
  run_nil: "ctl_run L s [] s"
| run_snoc: "ctl_run L s es s' \<Longrightarrow> ctl_step L s' ev s'' \<Longrightarrow> ctl_run L s (es @ [ev]) s''"

lemma run_one: "ctl_step L s ev s' \<Longrightarrow> ctl_run L s [ev] s'"
  using run_snoc [OF run_nil, of L s ev s'] by simp

lemma run_append: "ctl_run L s' es' s'' \<Longrightarrow> ctl_run L s es s' \<Longrightarrow> ctl_run L s (es @ es') s''"
proof (induction rule: ctl_run.induct)
  case (run_snoc s' es' t ev s'')
  then have "ctl_run L s ((es @ es') @ [ev]) s''" by (intro ctl_run.run_snoc)
  then show ?case by simp
qed simp

text \<open>A refusal starts where the machine ports are known.\<close>

lemma run_refuse:
  "ctl_run L (Refusing mg links mps) es s' \<Longrightarrow> \<exists>s''. ctl_run L (HavePorts mg links mps) es s''"
proof -
  have "es = [] \<or> ctl_run L (HavePorts mg links mps) es s'"
    if "ctl_run L s es s'" "s = Refusing mg links mps" for s
    using that
  proof (induction rule: ctl_run.induct)
    case (run_snoc s es t ev u)
    then show ?case
    proof (cases "es = []")
      case True
      with run_snoc have "t = Refusing mg links mps" by (auto elim: ctl_run.cases)
      with run_snoc(2) True show ?thesis by (simp add: refuse run_one)
    next
      case False
      with run_snoc show ?thesis by (auto intro: ctl_run.run_snoc)
    qed
  qed simp
  then show "ctl_run L (Refusing mg links mps) es s' \<Longrightarrow> ?thesis"
    using run_nil by blast
qed

section \<open>Recorded computations\<close>

text \<open>
  \<open>follows L s wl res\<close>: the computation with the result \<open>res\<close>, started with the log of \<open>wl\<close> in phase \<open>s\<close>,
  has appended a run from \<open>s\<close>. \<open>stays\<close> is the same for an action after which the phase is still \<open>s\<close>, or the
  run has ended with its error.
\<close>

definition follows :: "kube_lib \<Rightarrow> phase \<Rightarrow> 'w logged \<Rightarrow> 'r \<times> 'w logged \<Rightarrow> bool" where
  "follows L s wl res \<longleftrightarrow> (\<exists>es s'. snd (snd res) = snd wl @ es \<and> ctl_run L s es s')"

definition stays :: "kube_lib \<Rightarrow> phase \<Rightarrow> 'w logged \<Rightarrow> go_error option \<times> 'w logged \<Rightarrow> bool" where
  "stays L s wl res \<longleftrightarrow> (\<exists>es. snd (snd res) = snd wl @ es \<and> ctl_run L s es (on_success (fst res) s))"

lemma follows_return: "follows L s wl (r, wl)"
  by (auto simp: follows_def intro!: exI [of _ "[]"] exI [of _ s] run_nil)

lemma stays_return: "stays L s wl (None, wl)"
  by (auto simp: stays_def intro: run_nil)

lemma follows_call:
  assumes "\<And>r wl'. log_call ev f wl = (r, wl') \<Longrightarrow> ctl_step L s (ev r) (nxt r) \<and> follows L (nxt r) wl' (g r wl')"
  shows "follows L s wl (case log_call ev f wl of (r, wl') \<Rightarrow> g r wl')"
proof -
  obtain r wl' where m: "log_call ev f wl = (r, wl')" by (rule prod.exhaust)
  from assms [OF m] obtain es s' where step: "ctl_step L s (ev r) (nxt r)"
    and run: "snd (snd (g r wl')) = snd wl' @ es" "ctl_run L (nxt r) es s'"
    by (auto simp: follows_def)
  have "snd (snd (g r wl')) = snd wl @ ([ev r] @ es)"
    using log_call_result [OF m] run(1) by simp
  moreover have "ctl_run L s ([ev r] @ es) s'"
    by (rule run_append [OF run(2) run_one [OF step]])
  ultimately show ?thesis unfolding m follows_def prod.case by blast
qed

lemma follows_bind:
  assumes "stays L s wl m" "\<And>r wl'. m = (r, wl') \<Longrightarrow> follows L (on_success r s) wl' (g r wl')"
  shows "follows L s wl (case m of (r, wl') \<Rightarrow> g r wl')"
proof -
  obtain r wl' where m: "m = (r, wl')" by (rule prod.exhaust)
  from assms(1) obtain es where a: "snd wl' = snd wl @ es" "ctl_run L s es (on_success r s)"
    by (auto simp: stays_def m)
  from assms(2) [OF m] obtain es' s' where b: "snd (snd (g r wl')) = snd wl' @ es'"
    "ctl_run L (on_success r s) es' s'"
    by (auto simp: follows_def)
  have "snd (snd (g r wl')) = snd wl @ (es @ es')" using a b by simp
  then show ?thesis unfolding m follows_def prod.case using run_append [OF b(2) a(2)] by blast
qed

lemma follows_option:
  "(\<And>y. x = Some y \<Longrightarrow> follows L s wl (b y)) \<Longrightarrow> (x = None \<Longrightarrow> follows L s wl a) \<Longrightarrow>
     follows L s wl (case x of None \<Rightarrow> a | Some y \<Rightarrow> b y)"
  by (cases x) simp_all

text \<open>The same for a computation that may not return.\<close>

definition may_follow :: "kube_lib \<Rightarrow> phase \<Rightarrow> 'w logged \<Rightarrow> ('r \<times> 'w logged) option \<Rightarrow> bool" where
  "may_follow L s wl x \<longleftrightarrow> (\<forall>res. x = Some res \<longrightarrow> follows L s wl res)"

lemma may_follow_simps [simp]:
  "may_follow L s wl None" "may_follow L s wl (Some res) \<longleftrightarrow> follows L s wl res"
  by (simp_all add: may_follow_def)

lemma may_follow_call:
  assumes "\<And>r wl'. log_call ev f wl = (r, wl') \<Longrightarrow>
    ctl_step L s (ev r) (nxt r) \<and> may_follow L (nxt r) wl' (g r wl')"
  shows "may_follow L s wl (case log_call ev f wl of (r, wl') \<Rightarrow> g r wl')"
  unfolding may_follow_def
proof (intro allI impI)
  fix res assume res: "(case log_call ev f wl of (r, wl') \<Rightarrow> g r wl') = Some res"
  have "follows L s wl (case log_call ev f wl of (r, wl') \<Rightarrow> the (g r wl'))"
  proof (rule follows_call)
    fix r wl' assume m: "log_call ev f wl = (r, wl')"
    with res have "g r wl' = Some res" by simp
    with assms [OF m] show "ctl_step L s (ev r) (nxt r) \<and> follows L (nxt r) wl' (the (g r wl'))" by simp
  qed
  with res show "follows L s wl res" by (auto split: prod.splits)
qed

lemma stays_each:
  assumes "\<And>x wl. x \<in> set xs \<Longrightarrow> stays L s wl (f x wl)"
  shows "stays L s wl (act_each f xs wl)"
  using assms
proof (induction xs arbitrary: wl)
  case Nil
  then show ?case by (simp add: stays_return)
next
  case (Cons x xs)
  obtain e wl' where fx: "f x wl = (e, wl')" by (rule prod.exhaust)
  from Cons.prems [of x wl] obtain es where a: "snd wl' = snd wl @ es" "ctl_run L s es (on_success e s)"
    by (auto simp: stays_def fx)
  show ?case
  proof (cases e)
    case None
    have "stays L s wl' (act_each f xs wl')" by (rule Cons.IH) (simp add: Cons.prems)
    then obtain es' where
      b: "snd (snd (act_each f xs wl')) = snd wl' @ es'"
      "ctl_run L s es' (on_success (fst (act_each f xs wl')) s)"
      unfolding stays_def by blast
    from None have step: "act_each f (x # xs) wl = act_each f xs wl'" by (simp add: fx)
    have "snd (snd (act_each f (x # xs) wl)) = snd wl @ (es @ es')" unfolding step using a b by simp
    moreover have "ctl_run L s (es @ es') (on_success (fst (act_each f (x # xs) wl)) s)"
      unfolding step using run_append [OF b(2)] a(2) None by simp
    ultimately show ?thesis unfolding stays_def by blast
  next
    case (Some e')
    then show ?thesis using a unfolding stays_def by (auto simp: fx)
  qed
qed

lemma stays_call:
  assumes "\<And>r. ctl_step L s (ev r) (on_success r s)"
  shows "stays L s wl (log_call ev f wl)"
proof -
  obtain r wl' where m: "log_call ev f wl = (r, wl')" by (rule prod.exhaust)
  show ?thesis
    using log_call_result [OF m] run_one [OF assms] unfolding stays_def m by auto
qed

section \<open>The reconciler with recorded calls\<close>

definition recorded_reconciler :: "'w reconciler \<Rightarrow> 'w logged reconciler" where
  "recorded_reconciler r = \<lparr>r_Client = recorded (r_Client r), r_Lib = r_Lib r,
     r_CloudManager = map_option recorded_manager (r_CloudManager r), r_Provider = r_Provider r,
     r_MachineStatusStaleAfter = r_MachineStatusStaleAfter r\<rparr>"

lemma recorded_reconciler_simps [simp]:
  "r_Client (recorded_reconciler r) = recorded (r_Client r)"
  "r_Lib (recorded_reconciler r) = r_Lib r"
  "r_Provider (recorded_reconciler r) = r_Provider r"
  "r_CloudManager (recorded_reconciler r) = map_option recorded_manager (r_CloudManager r)"
  by (simp_all add: recorded_reconciler_def)

lemma cloudManagerFor_recorded:
  obtains (noop) "\<not> uses_cloud mg" "cloudManagerFor (recorded_reconciler r) mg = Inr noop_manager"
  | (fails) e where "cloudManagerFor (recorded_reconciler r) mg = Inl e"
  | (cloud) m where "uses_cloud mg" "r_CloudManager r = Some m"
      "cloudManagerFor (recorded_reconciler r) mg = Inr (recorded_manager m)"
proof (cases "uses_cloud mg")
  case False
  then have "cloudManagerFor (recorded_reconciler r) mg = Inr noop_manager"
    by (simp add: cloudManagerFor_def Let_def uses_cloud_def)
  with False show thesis by (rule noop)
next
  case True
  show thesis
  proof (cases "cloudManagerFor (recorded_reconciler r) mg")
    case (Inr m')
    then have "\<exists>m. r_CloudManager r = Some m \<and> m' = recorded_manager m"
      using True by (auto simp: cloudManagerFor_def Let_def uses_cloud_def split: if_splits option.splits)
    then show thesis using cloud True Inr by blast
  qed (rule fails)
qed

lemma follows_mark_error:
  assumes "\<And>now answer. ctl_step (r_Lib r) s
    (PatchGroupStatus mg (set_group_condition (r_Lib r) ConditionFalse reason msg now mg) answer) Halted"
  shows "follows (r_Lib r) s wl (markMachineGroupError (recorded_reconciler r) mg reason msg d wl)"
  unfolding markMachineGroupError_def Let_def recorded_reconciler_simps recorded_simps
  by (rule follows_call [where nxt = "\<lambda>_. Halted"])
    (auto simp: assms follows_return split: option.split)

lemma follows_delete:
  assumes "deleted mg"
  shows "follows (r_Lib r) (Fetched mg) wl (reconcileDelete (recorded_reconciler r) mg wl)"
proof (cases "finalized (r_Lib r) mg")
  case fin: True
  then have has: "lib_contains_finalizer (r_Lib r) (mg_meta mg) machineGroupFinalizer"
    by (simp add: finalized_def)
  have patch: "follows (r_Lib r) s wl
      (case k_patch_group (recorded (r_Client r)) mg (without_finalizer (r_Lib r) mg) wl of
         (None, w) \<Rightarrow> ((no_requeue, None), w) | (Some e, w) \<Rightarrow> ((no_requeue, Some e), w))"
    if "\<And>answer. ctl_step (r_Lib r) s (PatchGroup mg (without_finalizer (r_Lib r) mg) answer) Halted" for s wl
    unfolding recorded_simps
    by (rule follows_call [where nxt = "\<lambda>_. Halted"])
      (auto simp: that follows_return split: option.split)
  show ?thesis
  proof (cases rule: cloudManagerFor_recorded [of mg r])
    case noop
    then show ?thesis
      using has patch [OF remove_finalizer_noop [OF assms fin noop(1)], of wl]
      by (simp add: reconcileDelete_def Let_def noop_manager_def noop_Delete_def act_skip_def
          without_finalizer_def)
  next
    case (fails e)
    then show ?thesis using has by (simp add: reconcileDelete_def follows_return)
  next
    case (cloud m)
    have "follows (r_Lib r) (Fetched mg) wl
        (case log_call (CloudDelete mg) (DeleteMachineGroup m mg) wl of
          (e, wl') \<Rightarrow> (case e of Some e \<Rightarrow> ((requeue_after (seconds 20), Some e), wl')
           | None \<Rightarrow> (case k_patch_group (recorded (r_Client r)) mg (without_finalizer (r_Lib r) mg) wl' of
         (None, w) \<Rightarrow> ((no_requeue, None), w) | (Some e, w) \<Rightarrow> ((no_requeue, Some e), w))))"
      by (rule follows_call [where nxt = "\<lambda>e. case e of None \<Rightarrow> Removed mg | Some _ \<Rightarrow> Halted"])
        (auto simp: delete delete_fails assms fin cloud(1) follows_return patch [unfolded recorded_simps]
            remove_finalizer
          split: option.split)
    then show ?thesis
      unfolding reconcileDelete_def cloud(3) sum.case Let_def recorded_reconciler_simps
        recorded_manager_simps without_finalizer_def
      using has by simp
  qed
next
  case False
  then show ?thesis by (simp add: reconcileDelete_def finalized_def follows_return)
qed

lemma follows_report_failure:
  assumes "\<nexists>al. allocates mg mps al"
  shows "follows (r_Lib r) (HavePorts mg links mps) wl
    (report_failure (recorded_reconciler r) mg mps links reason msg linkMsg d wl)"
proof -
  let ?s = "Refusing mg links mps"
  have "follows (r_Lib r) ?s wl
    (report_failure (recorded_reconciler r) mg mps links reason msg linkMsg d wl)"
    unfolding report_failure_def
  proof (rule follows_bind)
    show "stays (r_Lib r) ?s wl (syncMachinePortAllocationFailure (recorded_reconciler r) mps msg wl)"
      unfolding syncMachinePortAllocationFailure_def recorded_reconciler_simps recorded_simps
      by (intro stays_each stays_call refuse_port assms)
    fix e wl' show "follows (r_Lib r) (on_success e ?s) wl' (case e of
        None \<Rightarrow> (case syncLinkStatuses (recorded_reconciler r) links [] [] linkMsg wl' of
          (None, w) \<Rightarrow> markMachineGroupError (recorded_reconciler r) mg reason msg d w
        | (Some e, w) \<Rightarrow> ((no_requeue, Some e), w))
      | Some e \<Rightarrow> ((no_requeue, Some e), wl'))"
    proof (cases e)
      case None
      have "follows (r_Lib r) ?s wl' (case syncLinkStatuses (recorded_reconciler r) links [] [] linkMsg wl' of
          (None, w) \<Rightarrow> markMachineGroupError (recorded_reconciler r) mg reason msg d w
        | (Some e, w) \<Rightarrow> ((no_requeue, Some e), w))"
      proof (rule follows_bind)
        show "stays (r_Lib r) ?s wl' (syncLinkStatuses (recorded_reconciler r) links [] [] linkMsg wl')"
          unfolding syncLinkStatuses_def recorded_reconciler_simps recorded_simps
          by (intro stays_each stays_call refuse_link assms)
      qed (auto simp: follows_return follows_mark_error refuse_group [OF assms] split: option.split)
      then show ?thesis by (simp add: None)
    qed (simp add: follows_return)
  qed
  then obtain es s' where run: "ctl_run (r_Lib r) ?s es s'"
    "snd (snd (report_failure (recorded_reconciler r) mg mps links reason msg linkMsg d wl)) = snd wl @ es"
    by (auto simp: follows_def)
  then show ?thesis using run_refuse [OF run(1)] unfolding follows_def by blast
qed

lemma noop_Ensure_world: "noop_Ensure mg mps al w = (fst (noop_Ensure mg mps al ()), w)"
  by (simp add: noop_Ensure_def Let_def split: prod.split sum.split)

text \<open>From the answer of the provider to the end.\<close>

definition after_ensure ::
  "'w reconciler \<Rightarrow> machine_group \<Rightarrow> lb_exposure_spec list \<Rightarrow> pool_link list \<Rightarrow> machine_port list \<Rightarrow>
   (string, int) gomap \<Rightarrow> ensure_result \<Rightarrow> 'w \<Rightarrow> outcome \<times> 'w" where
  "after_ensure r mg lbs links mps al res w =
     (case (snd (pruneStaleMachineStatuses r mg (k_now (r_Client r) w))) of base \<Rightarrow>
      case k_patch_group_status (r_Client r) base
             (group_status (r_Lib r) (k_now (r_Client r) w) al
               (buildResolvedLinks links (fst (assignPortsToLinks links mps al))) (fst res) (snd (snd res))
               (snd (assignPortsToLinks links mps al))
               (fst (pruneStaleMachineStatuses r mg (k_now (r_Client r) w))) base) w of
        (Some e, w) \<Rightarrow> ((no_requeue, Some e), w)
      | (None, w) \<Rightarrow>
          (case syncMachinePortStatuses r lbs mps al (fst (snd res)) (snd (snd res)) w of
             (Some e, w) \<Rightarrow> ((no_requeue, Some e), w)
           | (None, w) \<Rightarrow>
               (case syncLinkStatuses r links (fst (assignPortsToLinks links mps al))
                       (snd (assignPortsToLinks links mps al))
                       ''no allocated TiProxyMachinePort is available for this link'' w of
                  (Some e, w) \<Rightarrow> ((no_requeue, Some e), w)
                | (None, w) \<Rightarrow>
                    if snd (snd res) \<noteq> None \<or> length (snd (assignPortsToLinks links mps al)) > 0
                    then ((requeue_after (seconds 20), None), w)
                    else ((no_requeue, None), w))))"

lemma reconcile_allocated_eq:
  "reconcile_allocated r mg lbs links mps al w =
     (case cloudManagerFor r mg of
        Inl e \<Rightarrow> ((no_requeue, Some e), w)
      | Inr manager \<Rightarrow> (case EnsureMachineGroup manager mg mps al w of
          (res, w) \<Rightarrow> after_ensure r mg lbs links mps al res w))"
  unfolding reconcile_allocated_def after_ensure_def Let_def case_prod_beta by simp

lemma follows_reported:
  assumes "lbs = exposure_of mg"
  shows "follows (r_Lib r) (Reported mg links mps al res) wl
    (case syncMachinePortStatuses (recorded_reconciler r) lbs mps al (fst (snd res)) (snd (snd res)) wl of
       (Some e, w) \<Rightarrow> ((no_requeue, Some e), w)
     | (None, w) \<Rightarrow>
         (case syncLinkStatuses (recorded_reconciler r) links (fst (assignPortsToLinks links mps al))
                 (snd (assignPortsToLinks links mps al))
                 ''no allocated TiProxyMachinePort is available for this link'' w of
            (Some e, w) \<Rightarrow> ((no_requeue, Some e), w)
          | (None, w) \<Rightarrow>
              if snd (snd res) \<noteq> None \<or> length (snd (assignPortsToLinks links mps al)) > 0
              then ((requeue_after (seconds 20), None), w)
              else ((no_requeue, None), w)))"
    (is "follows _ ?s wl (case ?ports of (Some e, w) \<Rightarrow> _ e w | (None, w) \<Rightarrow> ?links w)")
proof (rule follows_bind)
  show "stays (r_Lib r) ?s wl ?ports"
    unfolding syncMachinePortStatuses_def recorded_reconciler_simps recorded_simps assms
    by (intro stays_each stays_call report_port)
  have "follows (r_Lib r) ?s wl' (?links wl')" for wl'
  proof (rule follows_bind)
    show "stays (r_Lib r) ?s wl' (syncLinkStatuses (recorded_reconciler r) links
        (fst (assignPortsToLinks links mps al)) (snd (assignPortsToLinks links mps al))
        ''no allocated TiProxyMachinePort is available for this link'' wl')"
      unfolding syncLinkStatuses_def recorded_reconciler_simps recorded_simps
      by (intro stays_each stays_call report_link)
  qed (auto simp: follows_return split: option.split)
  then show "follows (r_Lib r) (on_success e ?s) wl'
      (case e of None \<Rightarrow> ?links wl' | Some e \<Rightarrow> ((no_requeue, Some e), wl'))" for e wl'
    by (auto simp: follows_return split: option.split)
qed

lemma follows_after_ensure:
  assumes "lbs = exposure_of mg"
    "\<And>base obj answer. status_patch (r_Lib r) mg links mps al res base obj \<Longrightarrow>
      ctl_step (r_Lib r) s (PatchGroupStatus base obj answer) (on_success answer (Reported mg links mps al res))"
  shows "follows (r_Lib r) s wl (after_ensure (recorded_reconciler r) mg lbs links mps al res wl)"
proof -
  let ?base = "snd (pruneStaleMachineStatuses (recorded_reconciler r) mg (k_now (r_Client r) (fst wl)))"
  show ?thesis
    unfolding after_ensure_def recorded_reconciler_simps recorded_simps
  proof (rule follows_call [where nxt = "\<lambda>answer. on_success answer (Reported mg links mps al res)"], rule conjI)
    fix answer
    show "ctl_step (r_Lib r) s (PatchGroupStatus ?base (group_status (r_Lib r) (k_now (r_Client r) (fst wl)) al
        (buildResolvedLinks links (fst (assignPortsToLinks links mps al))) (fst res) (snd (snd res))
        (snd (assignPortsToLinks links mps al))
        (fst (pruneStaleMachineStatuses (recorded_reconciler r) mg (k_now (r_Client r) (fst wl)))) ?base) answer)
      (on_success answer (Reported mg links mps al res))"
      by (rule assms(2)) (auto simp: status_patch_def prune_pruned_group)
  qed (rule follows_option, rule follows_return, simp add: follows_reported [OF assms(1)])
qed

lemma follows_allocated:
  assumes "lbs = exposure_of mg" "allocates mg mps al"
  shows "follows (r_Lib r) (HavePorts mg links mps) wl
    (reconcile_allocated (recorded_reconciler r) mg lbs links mps al wl)"
proof (cases rule: cloudManagerFor_recorded [of mg r])
  case noop
  have "follows (r_Lib r) (HavePorts mg links mps) wl
      (after_ensure (recorded_reconciler r) mg lbs links mps al (fst (noop_Ensure mg mps al ())) wl)"
    by (rule follows_after_ensure [OF assms(1)], rule report_noop [OF assms(2) noop(1) refl])
  then show ?thesis
    using noop(2) by (simp add: reconcile_allocated_eq noop_manager_def noop_Ensure_world [of _ _ _ wl])
next
  case (fails e)
  then show ?thesis by (simp add: reconcile_allocated_eq follows_return)
next
  case (cloud m)
  show ?thesis
    unfolding reconcile_allocated_eq cloud(3) sum.case recorded_manager_simps
    by (rule follows_call [where nxt = "Ensured mg links mps al"])
      (auto intro!: ensure follows_after_ensure report simp: assms cloud(1))
qed

text \<open>The two lists as recorded calls whose answer is filtered and sorted.\<close>

definition on_items :: "('a \<Rightarrow> 'b) \<Rightarrow> 'a result \<Rightarrow> 'b result" where
  "on_items f x = (case x of Inl e \<Rightarrow> Inl e | Inr items \<Rightarrow> Inr (f items))"

lemma list_links_recorded:
  "listManagedLinks (recorded_reconciler r) mg wl =
     (case (case sp_LinkSelector (mg_Spec mg) of None \<Rightarrow> None | Some sel \<Rightarrow> lib_selector_error (r_Lib r) sel) of
        Some e \<Rightarrow> (Inl (wrap_error ''invalid spec.linkSelector'' e), wl)
      | None \<Rightarrow> (case log_call (ListLinks (meta_namespace (mg_meta mg)) (sp_LinkSelector (mg_Spec mg)))
            (k_list_links (r_Client r) (meta_namespace (mg_meta mg)) (sp_LinkSelector (mg_Spec mg))) wl of
          (x, wl) \<Rightarrow> (on_items (managed_links mg) x, wl)))"
  unfolding listManagedLinks_def Let_def recorded_reconciler_simps recorded_simps on_items_def
  by (auto split: option.split prod.split sum.split)

lemma list_ports_recorded:
  "listManagedMachinePorts (recorded_reconciler r) mg wl =
     (case log_call (ListPorts (meta_namespace (mg_meta mg)))
            (k_list_ports (r_Client r) (meta_namespace (mg_meta mg))) wl of
          (x, wl) \<Rightarrow> (on_items (managed_ports mg) x, wl))"
  unfolding listManagedMachinePorts_def recorded_reconciler_simps recorded_simps on_items_def
  by (auto split: prod.split sum.split)

lemma case_prod_nested: "(case (case m of (x, w) \<Rightarrow> (h x, w)) of (y, w) \<Rightarrow> g y w) = (case m of (x, w) \<Rightarrow> g (h x) w)"
  by (simp split: prod.split)

lemma follows_allocation:
  assumes "lbs = exposure_of mg"
  shows "may_follow (r_Lib r) (HavePorts mg links mps) wl
    (if length mps > maxMachinePortsPerGroup then
       (let msg = ''too many TiProxyMachinePort resources: '' @
              show_int (int (length mps)) @ '' (max '' @ show_int (int maxMachinePortsPerGroup) @ '')''
        in Some (report_failure (recorded_reconciler r) mg mps links ''TooManyMachinePorts'' msg msg
             (seconds 20) wl))
     else
       (let range = sp_PortRange (mg_Spec mg) in
        case ReconcilePorts (st_AllocatedPorts (mg_Status mg)) (port_requests mps)
               (range_start range) (range_end range) of
          None \<Rightarrow> None
        | Some (Inl e) \<Rightarrow>
            Some (report_failure (recorded_reconciler r) mg mps links ''PortAllocationFailed'' (err_text e)
              (''port allocation failed: '' @ err_text e) (seconds 10) wl)
        | Some (Inr al) \<Rightarrow> Some (reconcile_allocated (recorded_reconciler r) mg lbs links mps al wl)))"
proof (cases "length mps > maxMachinePortsPerGroup")
  case True
  then have "\<nexists>al. allocates mg mps al" by (simp add: allocates_def)
  from follows_report_failure [OF this] True show ?thesis by (simp add: Let_def)
next
  case False
  let ?range = "sp_PortRange (mg_Spec mg)"
  let ?x = "ReconcilePorts (st_AllocatedPorts (mg_Status mg)) (port_requests mps)
    (range_start ?range) (range_end ?range)"
  consider "?x = None" | e where "?x = Some (Inl e)" | al where "?x = Some (Inr al)"
    by (metis option.exhaust sum.exhaust)
  then show ?thesis
  proof cases
    case (2 e)
    then have "\<nexists>al. allocates mg mps al" by (simp add: allocates_def)
    from follows_report_failure [OF this] False 2 show ?thesis by (simp add: Let_def)
  next
    case (3 al)
    then have "allocates mg mps al" using False by (simp add: allocates_def)
    from follows_allocated [OF assms this] False 3 show ?thesis by (simp add: Let_def)
  qed (use False in \<open>simp add: Let_def\<close>)
qed

lemma follows_ports:
  assumes "active (r_Lib r) mg" "lbs = exposure_of mg"
  shows "may_follow (r_Lib r) (Fetched mg) wl (reconcile_ports (recorded_reconciler r) mg lbs wl)"
proof (cases "case sp_LinkSelector (mg_Spec mg) of None \<Rightarrow> None | Some sel \<Rightarrow> lib_selector_error (r_Lib r) sel")
  case (Some e)
  then show ?thesis by (simp add: reconcile_ports_def list_links_recorded follows_return)
next
  case None
  have ports: "may_follow (r_Lib r) (HaveLinks mg links) wl'
      (case listManagedMachinePorts (recorded_reconciler r) mg wl' of
         (Inl e, w) \<Rightarrow> Some ((no_requeue, Some e), w)
       | (Inr mps, w) \<Rightarrow> g mps w)"
    if "\<And>mps wl. may_follow (r_Lib r) (HavePorts mg links mps) wl (g mps wl)" for links wl' g
    unfolding list_ports_recorded case_prod_nested
    by (rule may_follow_call [where nxt = "\<lambda>x. case x of Inl _ \<Rightarrow> Halted
          | Inr items \<Rightarrow> HavePorts mg links (managed_ports mg items)"])
      (auto simp: on_items_def list_ports list_ports_fails follows_return that split: sum.split)
  show ?thesis
    unfolding reconcile_ports_def list_links_recorded None option.case case_prod_nested
    by (rule may_follow_call [where nxt = "\<lambda>x. case x of Inl _ \<Rightarrow> Halted
          | Inr items \<Rightarrow> HaveLinks mg (managed_links mg items)"])
      (auto simp: on_items_def list_links list_links_fails follows_return assms(1)
          split: sum.split intro!: ports follows_allocation [OF assms(2)])
qed

lemma follows_group:
  "may_follow (r_Lib r) (Fetched mg) wl (reconcile_group (recorded_reconciler r) mg wl)"
proof -
  let ?r = "recorded_reconciler r"
  consider (del) "deleted mg" | (new) "\<not> deleted mg" "\<not> finalized (r_Lib r) mg"
    | (range) e where "\<not> deleted mg" "finalized (r_Lib r) mg" "Validate (sp_PortRange (mg_Spec mg)) = Inl e"
    | (exposure) e u where "\<not> deleted mg" "finalized (r_Lib r) mg"
        "Validate (sp_PortRange (mg_Spec mg)) = Inr u" "NormalizeLoadBalancers (sp_Exposure (mg_Spec mg)) = Inl e"
    | (ok) u lbs where "\<not> deleted mg" "finalized (r_Lib r) mg"
        "Validate (sp_PortRange (mg_Spec mg)) = Inr u" "NormalizeLoadBalancers (sp_Exposure (mg_Spec mg)) = Inr lbs"
    by (metis sum.exhaust)
  then show ?thesis
  proof cases
    case del
    from follows_delete [OF this] del show ?thesis by (simp add: reconcile_group_def deleted_def)
  next
    case new
    then have "reconcile_group ?r mg wl =
        (case log_call (PatchGroup mg (with_finalizer (r_Lib r) mg))
            (k_patch_group (r_Client r) mg (with_finalizer (r_Lib r) mg)) wl of
          (Some e, w) \<Rightarrow> Some ((no_requeue, Some e), w)
        | (None, w) \<Rightarrow> Some ((\<lparr>res_Requeue = True, res_RequeueAfter = 0\<rparr>, None), w))"
      by (simp add: reconcile_group_def Let_def with_finalizer_def deleted_def finalized_def)
    also have "may_follow (r_Lib r) (Fetched mg) wl \<dots>"
      by (rule may_follow_call [where nxt = "\<lambda>_. Halted"])
        (auto simp: add_finalizer new follows_return split: option.split)
    finally show ?thesis .
  next
    case (range e)
    then have "\<not> valid_spec mg" by (simp add: valid_spec_def)
    from follows_mark_error [OF reject_spec [OF range(1,2) this]] range show ?thesis
      by (simp add: reconcile_group_def deleted_def finalized_def)
  next
    case (exposure e)
    then have "\<not> valid_spec mg" by (simp add: valid_spec_def)
    from follows_mark_error [OF reject_spec [OF exposure(1,2) this]] exposure show ?thesis
      by (simp add: reconcile_group_def deleted_def finalized_def)
  next
    case (ok u lbs)
    then have "active (r_Lib r) mg" "lbs = exposure_of mg"
      by (simp_all add: active_def valid_spec_def exposure_of_def)
    from follows_ports [OF this] ok show ?thesis
      by (simp add: reconcile_group_def deleted_def finalized_def)
  qed
qed

text \<open>Every \<^verbatim>\<open>Reconcile\<close> follows the protocol.\<close>

lemma Reconcile_follows:
  "may_follow (r_Lib r) (Start req) wl (Reconcile (recorded_reconciler r) req wl)"
  unfolding Reconcile_def recorded_reconciler_simps recorded_simps
  by (rule may_follow_call [where nxt = "\<lambda>x. case x of Inl _ \<Rightarrow> Halted | Inr mg \<Rightarrow> Fetched mg"])
    (auto simp: fetch fetch_fails follows_return follows_group split: sum.split)

section \<open>Recording changes nothing\<close>

text \<open>Dropping the log of a recorded computation leaves the computation without recording.\<close>

definition drop_log :: "'r \<times> 'w logged \<Rightarrow> 'r \<times> 'w" where
  "drop_log x = (fst x, fst (snd x))"

named_theorems drop_simps \<open>recorded computations without their log\<close>

lemma drop_return [drop_simps]: "drop_log (r, wl) = (r, fst wl)"
  by (simp add: drop_log_def)

lemma drop_call [drop_simps]: "drop_log (log_call ev f wl) = f (fst wl)"
  by (simp add: drop_log_def log_call_def split: prod.split)

lemma drop_bind:
  assumes "drop_log m = m'" "\<And>x wl. drop_log (g x wl) = g' x (fst wl)"
  shows "drop_log (case m of (x, wl) \<Rightarrow> g x wl) = (case m' of (x, w) \<Rightarrow> g' x w)"
  using assms(2) unfolding assms(1) [symmetric] by (cases m) (auto simp: drop_log_def)

lemma drop_each [drop_simps]:
  assumes "\<And>x wl. drop_log (f x wl) = f' x (fst wl)"
  shows "drop_log (act_each f xs wl) = act_each f' xs (fst wl)"
proof (induction xs arbitrary: wl)
  case (Cons x xs)
  show ?case
    unfolding act_each.simps
    by (rule drop_bind [OF assms]) (auto simp: Cons drop_simps split: option.split)
qed (simp add: drop_simps)

lemma drop_markMachineGroupError [drop_simps]:
  "drop_log (markMachineGroupError (recorded_reconciler r) mg reason msg d wl) =
     markMachineGroupError r mg reason msg d (fst wl)"
  unfolding markMachineGroupError_def Let_def recorded_reconciler_simps recorded_simps
  by (rule drop_bind [OF drop_call]) (auto simp: drop_simps split: option.split)

lemma drop_sync [drop_simps]:
  "drop_log (syncMachinePortStatuses (recorded_reconciler r) lbs mps al cloud err wl) =
     syncMachinePortStatuses r lbs mps al cloud err (fst wl)"
  "drop_log (syncMachinePortAllocationFailure (recorded_reconciler r) mps msg wl) =
     syncMachinePortAllocationFailure r mps msg (fst wl)"
  "drop_log (syncLinkStatuses (recorded_reconciler r) links assigned errs d wl) =
     syncLinkStatuses r links assigned errs d (fst wl)"
  unfolding syncMachinePortStatuses_def syncMachinePortAllocationFailure_def syncLinkStatuses_def
    recorded_reconciler_simps recorded_simps
  by (simp_all add: drop_simps)

lemma drop_report_failure [drop_simps]:
  "drop_log (report_failure (recorded_reconciler r) mg mps links reason msg linkMsg d wl) =
     report_failure r mg mps links reason msg linkMsg d (fst wl)"
proof -
  have links: "drop_log (case syncLinkStatuses (recorded_reconciler r) links [] [] linkMsg wl of
        (Some e, w) \<Rightarrow> ((no_requeue, Some e), w)
      | (None, w) \<Rightarrow> markMachineGroupError (recorded_reconciler r) mg reason msg d w) =
      (case syncLinkStatuses r links [] [] linkMsg (fst wl) of
        (Some e, w) \<Rightarrow> ((no_requeue, Some e), w)
      | (None, w) \<Rightarrow> markMachineGroupError r mg reason msg d w)" for wl
    by (rule drop_bind) (auto simp: drop_simps split: option.split)
  show ?thesis
    unfolding report_failure_def
    by (rule drop_bind) (auto simp: drop_simps links split: option.split)
qed

lemma prune_recorded: "pruneStaleMachineStatuses (recorded_reconciler r) = pruneStaleMachineStatuses r"
  by (intro ext) (simp add: pruneStaleMachineStatuses_def recorded_reconciler_def split: option.split)

lemma drop_after_ensure [drop_simps]:
  "drop_log (after_ensure (recorded_reconciler r) mg lbs links mps al res wl) =
     after_ensure r mg lbs links mps al res (fst wl)"
proof -
  have links: "drop_log (case syncLinkStatuses (recorded_reconciler r) links as errs d wl of
        (Some e, w) \<Rightarrow> ((no_requeue, Some e), w)
      | (None, w) \<Rightarrow> if P then ((requeue_after (seconds 20), None), w) else ((no_requeue, None), w)) =
      (case syncLinkStatuses r links as errs d (fst wl) of
        (Some e, w) \<Rightarrow> ((no_requeue, Some e), w)
      | (None, w) \<Rightarrow> if P then ((requeue_after (seconds 20), None), w) else ((no_requeue, None), w))"
    for as errs d P wl
    by (rule drop_bind) (auto simp: drop_simps split: option.split)
  have ports: "drop_log (case syncMachinePortStatuses (recorded_reconciler r) lbs mps al cloud err wl of
        (Some e, w) \<Rightarrow> ((no_requeue, Some e), w) | (None, w) \<Rightarrow> k w) =
      (case syncMachinePortStatuses r lbs mps al cloud err (fst wl) of
        (Some e, w) \<Rightarrow> ((no_requeue, Some e), w) | (None, w) \<Rightarrow> k' w)"
    if "\<And>wl. drop_log (k wl) = k' (fst wl)" for cloud err k k' wl
    by (rule drop_bind) (auto simp: drop_simps that split: option.split)
  show ?thesis
    unfolding after_ensure_def recorded_reconciler_simps recorded_simps prune_recorded
    by (rule drop_bind [OF drop_call]) (auto simp: drop_simps intro!: ports links split: option.split)
qed

text \<open>The provider is the recorded one, or the one without a cloud, which makes no calls.\<close>

definition same_manager :: "'w logged cloud_manager \<Rightarrow> 'w cloud_manager \<Rightarrow> bool" where
  "same_manager m' m \<longleftrightarrow>
     (\<forall>mg mps al wl. drop_log (EnsureMachineGroup m' mg mps al wl) = EnsureMachineGroup m mg mps al (fst wl)) \<and>
     (\<forall>mg wl. drop_log (DeleteMachineGroup m' mg wl) = DeleteMachineGroup m mg (fst wl))"

lemma same_managerD:
  assumes "same_manager m' m"
  shows "drop_log (EnsureMachineGroup m' mg mps al wl) = EnsureMachineGroup m mg mps al (fst wl)"
    "drop_log (DeleteMachineGroup m' mg wl) = DeleteMachineGroup m mg (fst wl)"
  using assms unfolding same_manager_def by blast+

lemma same_manager_recorded: "same_manager (recorded_manager m) m"
  by (simp add: same_manager_def drop_simps)

lemma same_manager_noop: "same_manager noop_manager noop_manager"
proof -
  have ens: "drop_log (noop_Ensure mg mps al wl) = noop_Ensure mg mps al (fst wl)" for mg mps al and wl :: "'w logged"
    using noop_Ensure_world [of mg mps al wl] noop_Ensure_world [of mg mps al "fst wl"]
    by (simp only: drop_log_def fst_conv snd_conv)
  show ?thesis
    unfolding same_manager_def noop_manager_def cloud_manager.select_convs noop_Delete_def act_skip_def
    by (intro conjI allI) (rule ens drop_return)+
qed

lemma cloudManagerFor_drop:
  obtains (fails) e where "cloudManagerFor (recorded_reconciler r) mg = Inl e" "cloudManagerFor r mg = Inl e"
  | (manager) m' m where "cloudManagerFor (recorded_reconciler r) mg = Inr m'" "cloudManagerFor r mg = Inr m"
      "same_manager m' m"
proof (cases "uses_cloud mg")
  case False
  then have "cloudManagerFor (recorded_reconciler r) mg = Inr noop_manager" "cloudManagerFor r mg = Inr noop_manager"
    by (simp_all add: cloudManagerFor_def Let_def uses_cloud_def)
  then show thesis by (rule manager) (rule same_manager_noop)
next
  case True
  then have "(\<exists>e. cloudManagerFor (recorded_reconciler r) mg = Inl e \<and> cloudManagerFor r mg = Inl e) \<or>
      (\<exists>m. cloudManagerFor (recorded_reconciler r) mg = Inr (recorded_manager m) \<and> cloudManagerFor r mg = Inr m)"
    by (auto simp: cloudManagerFor_def Let_def uses_cloud_def split: option.split)
  then show thesis using fails manager same_manager_recorded by blast
qed

lemma drop_reconcile_allocated [drop_simps]:
  "drop_log (reconcile_allocated (recorded_reconciler r) mg lbs links mps al wl) =
     reconcile_allocated r mg lbs links mps al (fst wl)"
proof (cases rule: cloudManagerFor_drop [of r mg])
  case (manager m' m)
  show ?thesis
    unfolding reconcile_allocated_eq manager(1,2) sum.case
    by (rule drop_bind [OF same_managerD(1) [OF manager(3)]]) (rule drop_after_ensure)
qed (simp add: reconcile_allocated_eq drop_simps)

lemma drop_reconcileDelete [drop_simps]:
  "drop_log (reconcileDelete (recorded_reconciler r) mg wl) = reconcileDelete r mg (fst wl)"
proof -
  have patch: "drop_log (case k_patch_group (recorded (r_Client r)) mg mg' wl of
        (Some e, w) \<Rightarrow> ((no_requeue, Some e), w) | (None, w) \<Rightarrow> ((no_requeue, None), w)) =
      (case k_patch_group (r_Client r) mg mg' (fst wl) of
        (Some e, w) \<Rightarrow> ((no_requeue, Some e), w) | (None, w) \<Rightarrow> ((no_requeue, None), w))" for mg' wl
    unfolding recorded_simps by (rule drop_bind [OF drop_call]) (auto simp: drop_simps split: option.split)
  show ?thesis
  proof (cases rule: cloudManagerFor_drop [of r mg])
    case (manager m' m)
    have "drop_log (case DeleteMachineGroup m' mg wl of
          (Some e, w) \<Rightarrow> ((requeue_after (seconds 20), Some e), w)
        | (None, w) \<Rightarrow> (case k_patch_group (recorded (r_Client r)) mg mg' w of
            (Some e, w) \<Rightarrow> ((no_requeue, Some e), w) | (None, w) \<Rightarrow> ((no_requeue, None), w))) =
        (case DeleteMachineGroup m mg (fst wl) of
          (Some e, w) \<Rightarrow> ((requeue_after (seconds 20), Some e), w)
        | (None, w) \<Rightarrow> (case k_patch_group (r_Client r) mg mg' w of
            (Some e, w) \<Rightarrow> ((no_requeue, Some e), w) | (None, w) \<Rightarrow> ((no_requeue, None), w)))" for mg'
      by (rule drop_bind [OF same_managerD(2) [OF manager(3)]])
        (auto simp: drop_simps intro!: patch [unfolded recorded_simps] split: option.split)
    then show ?thesis
      unfolding reconcileDelete_def manager(1,2) sum.case Let_def recorded_reconciler_simps
      by (simp add: drop_simps)
  qed (simp add: reconcileDelete_def drop_simps)
qed

lemma drop_list_links [drop_simps]:
  "drop_log (listManagedLinks (recorded_reconciler r) mg wl) = listManagedLinks r mg (fst wl)"
proof -
  have "drop_log (case log_call ev (k_list_links (r_Client r) ns sel) wl of
        (x, wl) \<Rightarrow> (on_items (managed_links mg) x, wl)) =
      (case k_list_links (r_Client r) ns sel (fst wl) of (x, w) \<Rightarrow> (on_items (managed_links mg) x, w))" for ev ns sel
    by (rule drop_bind [OF drop_call]) (rule drop_return)
  then show ?thesis
    unfolding list_links_recorded by (auto simp: listManagedLinks_def drop_simps on_items_def Let_def
        split: option.split prod.split sum.split)
qed

lemma drop_list_ports [drop_simps]:
  "drop_log (listManagedMachinePorts (recorded_reconciler r) mg wl) = listManagedMachinePorts r mg (fst wl)"
  unfolding listManagedMachinePorts_def recorded_reconciler_simps recorded_simps
  by (rule drop_bind [OF drop_call]) (auto simp: drop_simps split: sum.split)

text \<open>The same under an option.\<close>

lemma drop_bind_option:
  assumes "drop_log m = m'" "\<And>x wl. map_option drop_log (g x wl) = g' x (fst wl)"
  shows "map_option drop_log (case m of (x, wl) \<Rightarrow> g x wl) = (case m' of (x, w) \<Rightarrow> g' x w)"
  using assms(2) unfolding assms(1) [symmetric] by (cases m) (auto simp: drop_log_def)

lemma drop_allocation:
  "map_option drop_log (if length mps > maxMachinePortsPerGroup then
       Some (report_failure (recorded_reconciler r) mg mps links reason msg msg d wl)
     else (case x of None \<Rightarrow> None
        | Some (Inl e) \<Rightarrow> Some (report_failure (recorded_reconciler r) mg mps links reason' (msg' e) (msg'' e) d' wl)
        | Some (Inr al) \<Rightarrow> Some (reconcile_allocated (recorded_reconciler r) mg lbs links mps al wl))) =
   (if length mps > maxMachinePortsPerGroup then
       Some (report_failure r mg mps links reason msg msg d (fst wl))
     else (case x of None \<Rightarrow> None
        | Some (Inl e) \<Rightarrow> Some (report_failure r mg mps links reason' (msg' e) (msg'' e) d' (fst wl))
        | Some (Inr al) \<Rightarrow> Some (reconcile_allocated r mg lbs links mps al (fst wl))))"
  by (auto simp: drop_simps split: option.split sum.split)

lemma drop_reconcile_ports [drop_simps]:
  "map_option drop_log (reconcile_ports (recorded_reconciler r) mg lbs wl) = reconcile_ports r mg lbs (fst wl)"
proof -
  have ports: "map_option drop_log (case listManagedMachinePorts (recorded_reconciler r) mg wl of
        (Inl e, w) \<Rightarrow> Some ((no_requeue, Some e), w) | (Inr mps, w) \<Rightarrow> g mps w) =
      (case listManagedMachinePorts r mg (fst wl) of
        (Inl e, w) \<Rightarrow> Some ((no_requeue, Some e), w) | (Inr mps, w) \<Rightarrow> g' mps w)"
    if "\<And>mps wl. map_option drop_log (g mps wl) = g' mps (fst wl)" for g g' wl
    by (rule drop_bind_option [OF drop_list_ports]) (auto simp: drop_simps that split: sum.split)
  show ?thesis
    unfolding reconcile_ports_def Let_def
    by (rule drop_bind_option [OF drop_list_links])
      (auto simp: drop_simps intro!: ports drop_allocation split: sum.split)
qed

lemma drop_reconcile_group [drop_simps]:
  "map_option drop_log (reconcile_group (recorded_reconciler r) mg wl) = reconcile_group r mg (fst wl)"
proof -
  have patch: "map_option drop_log (case k_patch_group (recorded (r_Client r)) mg mg' wl of
        (Some e, w) \<Rightarrow> Some ((no_requeue, Some e), w) | (None, w) \<Rightarrow> Some ((again, None), w)) =
      (case k_patch_group (r_Client r) mg mg' (fst wl) of
        (Some e, w) \<Rightarrow> Some ((no_requeue, Some e), w) | (None, w) \<Rightarrow> Some ((again, None), w))" for mg' again wl
    unfolding recorded_simps
    by (rule drop_bind_option [OF drop_call]) (auto simp: drop_simps split: option.split)
  show ?thesis
    unfolding reconcile_group_def Let_def recorded_reconciler_simps
    by (auto simp: drop_simps patch [unfolded recorded_simps] split: sum.split)
qed

lemma Reconcile_drop:
  "map_option drop_log (Reconcile (recorded_reconciler r) req wl) = Reconcile r req (fst wl)"
  unfolding Reconcile_def recorded_reconciler_simps recorded_simps
  by (rule drop_bind_option [OF drop_call]) (auto simp: drop_simps split: sum.split)

end
