(* ===== verification/Controller_Properties.thy ===== *)
theory Controller_Properties
  imports Controller_Protocol
begin

text \<open>
  What holds of every call of every \<^verbatim>\<open>Reconcile\<close>: proved over the runs of the protocol by rule induction
  and carried to the code by the refinement. The hypotheses about a run only say that it is one; the
  answers of the API server and of the cloud are arbitrary.
\<close>

section \<open>Runs\<close>

inductive_cases step_Start: "ctl_step L (Start n) ev s"
inductive_cases step_Fetched: "ctl_step L (Fetched mg) ev s"
inductive_cases step_Removed: "ctl_step L (Removed mg) ev s"
inductive_cases step_HaveLinks: "ctl_step L (HaveLinks mg links) ev s"
inductive_cases step_HavePorts: "ctl_step L (HavePorts mg links mps) ev s"
inductive_cases step_Refusing: "ctl_step L (Refusing mg links mps) ev s"
inductive_cases step_Ensured: "ctl_step L (Ensured mg links mps al res) ev s"
inductive_cases step_Reported: "ctl_step L (Reported mg links mps al res) ev s"
inductive_cases step_Halted: "ctl_step L Halted ev s"

lemmas step_cases = step_Start step_Fetched step_Removed step_HaveLinks step_HavePorts step_Refusing
  step_Ensured step_Reported step_Halted

inductive_simps step_Start_iff: "ctl_step L (Start n) ev s"
inductive_simps step_Ensured_iff: "ctl_step L (Ensured mg links mps al res) ev s"

lemma run_split:
  "ctl_run L s es s' \<Longrightarrow> es = pre @ ev # post \<Longrightarrow>
     \<exists>t t'. ctl_run L s pre t \<and> ctl_step L t ev t' \<and> ctl_run L t' post s'"
proof (induction arbitrary: pre ev post rule: ctl_run.induct)
  case (run_snoc s es t ev' u)
  show ?case
  proof (cases post rule: rev_cases)
    case Nil
    with run_snoc show ?thesis by (auto intro: run_nil)
  next
    case (snoc post' x)
    with run_snoc.prems have "es = pre @ ev # post'" "x = ev'" by simp_all
    with run_snoc.IH [OF this(1)] run_snoc.hyps(2) snoc show ?thesis by (auto intro: ctl_run.run_snoc)
  qed
qed simp

text \<open>What a run from the start has established when it reaches a phase.\<close>

definition ensured_in :: "event list \<Rightarrow> bool" where
  "ensured_in es \<longleftrightarrow> (\<exists>mg mps al res. CloudEnsure mg mps al res \<in> set es)"

definition listed :: "event list \<Rightarrow> machine_group \<Rightarrow> pool_link list \<Rightarrow> bool" where
  "listed es mg links \<longleftrightarrow> (\<exists>ns sel items. ListLinks ns sel (Inr items) \<in> set es \<and> links = managed_links mg items)"

definition listed_ports :: "event list \<Rightarrow> machine_group \<Rightarrow> machine_port list \<Rightarrow> bool" where
  "listed_ports es mg mps \<longleftrightarrow> (\<exists>ns items. ListPorts ns (Inr items) \<in> set es \<and> mps = managed_ports mg items)"

fun knows :: "kube_lib \<Rightarrow> event list \<Rightarrow> phase \<Rightarrow> bool" where
  "knows L es (Start n) \<longleftrightarrow> es = []"
| "knows L es (Fetched mg) \<longleftrightarrow> (\<exists>n. es = [GetGroup n (Inr mg)])"
| "knows L es (Removed mg) \<longleftrightarrow> deleted mg \<and> finalized L mg \<and> (\<exists>es'. es = es' @ [CloudDelete mg None])"
| "knows L es (HaveLinks mg links) \<longleftrightarrow> active L mg \<and> listed es mg links \<and> \<not> ensured_in es"
| "knows L es (HavePorts mg links mps) \<longleftrightarrow>
     active L mg \<and> listed es mg links \<and> listed_ports es mg mps \<and> \<not> ensured_in es"
| "knows L es (Refusing mg links mps) \<longleftrightarrow>
     active L mg \<and> listed es mg links \<and> listed_ports es mg mps \<and> \<not> ensured_in es"
| "knows L es (Ensured mg links mps al res) \<longleftrightarrow>
     active L mg \<and> listed es mg links \<and> listed_ports es mg mps \<and> allocates mg mps al \<and>
     uses_cloud mg \<and> CloudEnsure mg mps al res \<in> set es"
| "knows L es (Reported mg links mps al res) \<longleftrightarrow>
     active L mg \<and> listed es mg links \<and> listed_ports es mg mps \<and> allocates mg mps al \<and>
     (if uses_cloud mg then CloudEnsure mg mps al res \<in> set es else res = fst (noop_Ensure mg mps al ())) \<and>
     (\<exists>base obj. PatchGroupStatus base obj None \<in> set es \<and> status_patch L mg links mps al res base obj)"
| "knows L es Halted \<longleftrightarrow> True"

lemma listed_snoc: "listed es mg links \<Longrightarrow> listed (es @ [ev]) mg links"
  "listed_ports es mg mps \<Longrightarrow> listed_ports (es @ [ev]) mg mps"
  by (auto simp: listed_def listed_ports_def)

lemma knows_on_success: "knows L es s \<Longrightarrow> knows L es (on_success answer s)"
  by (cases answer) simp_all

lemma knows_step: "ctl_step L s ev s' \<Longrightarrow> knows L es s \<Longrightarrow> knows L (es @ [ev]) s'"
proof (induction rule: ctl_step.induct)
  case (refuse mg links mps ev s)
  then show ?case by simp
next
  case (report mg links mps al res base obj answer)
  then show ?case by (cases answer) (auto simp: listed_snoc)
next
  case (report_noop mg mps al res links base obj answer)
  then show ?case by (cases answer) (auto simp: listed_snoc)
next
  case (report_port p mps mg links al res now answer)
  then show ?case by (intro knows_on_success) (auto simp: listed_snoc)
next
  case (report_link l links mg mps al res now answer)
  then show ?case by (intro knows_on_success) (auto simp: listed_snoc)
next
  case refuse_port
  then show ?case by (intro knows_on_success) (auto simp: listed_snoc ensured_in_def)
next
  case refuse_link
  then show ?case by (intro knows_on_success) (auto simp: listed_snoc ensured_in_def)
qed (auto simp: listed_snoc, auto simp: listed_def listed_ports_def ensured_in_def)

lemma knows_run: "ctl_run L (Start n) es s \<Longrightarrow> knows L es s"
proof (induction "Start n" es s rule: ctl_run.induct)
  case (run_snoc es s' ev s'')
  then show ?case by (simp add: knows_step)
qed simp

lemma run_knows:
  assumes "ctl_run L (Start n) (pre @ ev # post) s"
  obtains t t' where "knows L pre t" "ctl_step L t ev t'" "ctl_run L t' post s"
  using run_split [OF assms refl] knows_run by blast

section \<open>Facts about the calls of a run\<close>

lemma log_run:
  assumes "Reconcile (recorded_reconciler r) req (w, []) = Some (out, (w', log))"
  obtains s where "ctl_run (r_Lib r) (Start req) log s"
  using Reconcile_follows [of r req "(w, [])"] assms by (auto simp: follows_def)

lemma requests_uids: "req_UID ` set (port_requests mps) = mp_uid ` set mps"
  by (auto simp: port_requests_def image_iff)

lemma allocates_valid:
  "allocates mg mps al \<Longrightarrow> range_end (sp_PortRange (mg_Spec mg)) < max_int32 \<Longrightarrow>
     valid_allocation (mp_uid ` set mps) (range_start (sp_PortRange (mg_Spec mg)))
       (range_end (sp_PortRange (mg_Spec mg))) al"
  unfolding allocates_def using allocator.valid by (fastforce simp: requests_uids)

lemma active_range: "active L mg \<Longrightarrow> 0 < range_start (sp_PortRange (mg_Spec mg))"
  by (auto simp: active_def valid_spec_def Validate_def split: if_splits)

lemma set_managed_ports:
  "set (managed_ports mg items) =
     {p \<in> set items. refers_to (mps_MachineGroupRef (mp_Spec p)) (mp_meta p) mg}"
  by (auto simp: managed_ports_def)

lemma distinct_sorted_filter:
  assumes "distinct (map f xs)"
  shows "distinct (map f (sort_key g (filter P xs)))"
proof -
  have "mset (map f (sort_key g (filter P xs))) = mset (map f (filter P xs))" by simp
  then show ?thesis using distinct_map_filter [OF assms] mset_eq_imp_distinct_iff by blast
qed

lemma distinct_managed:
  "distinct (map lk_uid items) \<Longrightarrow> distinct (map lk_uid (managed_links mg items))"
  "distinct (map mp_uid items') \<Longrightarrow> distinct (map mp_uid (managed_ports mg items'))"
  unfolding managed_links_def managed_ports_def by (rule distinct_sorted_filter, assumption)+

text \<open>A status patch comes from a refusal or from a report.\<close>

definition reported_by ::
  "kube_lib \<Rightarrow> event list \<Rightarrow> machine_group \<Rightarrow> pool_link list \<Rightarrow> machine_port list \<Rightarrow>
   (string, int) gomap \<Rightarrow> ensure_result \<Rightarrow> bool" where
  "reported_by L pre mg links mps al res \<longleftrightarrow>
     active L mg \<and> listed pre mg links \<and> listed_ports pre mg mps \<and> allocates mg mps al \<and>
     (if uses_cloud mg then CloudEnsure mg mps al res \<in> set pre else res = fst (noop_Ensure mg mps al ()))"

lemma patch_status_step:
  assumes "ctl_step L t (PatchGroupStatus base obj answer) t'" "knows L pre t"
  shows "(\<exists>reason msg now. obj = set_group_condition L ConditionFalse reason msg now base) \<or>
    (\<exists>mg links mps al res. status_patch L mg links mps al res base obj \<and> reported_by L pre mg links mps al res)"
  using assms
proof (induction t "PatchGroupStatus base obj answer" t' rule: ctl_step.induct)
  case (report mg links mps al res)
  then have "reported_by L pre mg links mps al res" by (simp add: reported_by_def)
  with report(1) show ?case by blast
next
  case (report_noop mg mps al res links)
  then have "reported_by L pre mg links mps al res" by (simp add: reported_by_def)
  with report_noop(4) show ?case by blast
next
  case (refuse mg links mps s)
  then show ?case by simp
qed blast+

lemma patch_status_cases:
  assumes "knows L pre t" "ctl_step L t (PatchGroupStatus base obj answer) t'"
  obtains (error) reason msg now where "obj = set_group_condition L ConditionFalse reason msg now base"
  | (report) mg links mps al res where "status_patch L mg links mps al res base obj"
      "reported_by L pre mg links mps al res"
  using patch_status_step [OF assms(2,1)] by blast

lemma patch_of_run:
  assumes "Reconcile (recorded_reconciler r) req (w, []) = Some (out, (w', pre @ PatchGroupStatus base obj answer # post))"
  obtains (error) reason msg now where "obj = set_group_condition (r_Lib r) ConditionFalse reason msg now base"
  | (report) mg links mps al res where "status_patch (r_Lib r) mg links mps al res base obj"
      "reported_by (r_Lib r) pre mg links mps al res"
proof -
  obtain s where "ctl_run (r_Lib r) (Start req) (pre @ PatchGroupStatus base obj answer # post) s"
    using log_run [OF assms] .
  from run_knows [OF this] obtain t t' where "knows (r_Lib r) pre t"
    "ctl_step (r_Lib r) t (PatchGroupStatus base obj answer) t'" .
  then show thesis by (cases rule: patch_status_cases) (rule error report; assumption)+
qed

lemma group_status_fields:
  "st_AllocatedPorts (mg_Status (group_status L now al rls cs err errs n g)) = al"
  "st_ResolvedLinks (mg_Status (group_status L now al rls cs err errs n g)) = rls"
  "st_Cloud (mg_Status (group_status L now al rls cs err errs n g)) = cs"
  "st_Machines (mg_Status (group_status L now al rls cs err errs n g)) = st_Machines (mg_Status g)"
  "mg_Spec (group_status L now al rls cs err errs n g) = mg_Spec g"
  "mg_meta (group_status L now al rls cs err errs n g) = mg_meta g"
  by (simp_all add: group_status_def Let_def set_group_condition_def split: option.split)

lemma group_status_ready:
  assumes "set_condition_law L"
  shows "group_status_of ConditionReady (group_status L now al rls cs err errs n g) =
    Some (if err = None \<and> errs = [] then ConditionTrue else ConditionFalse)"
  by (simp add: group_status_def Let_def group_status_of_set [OF assms] split: option.split)

lemma set_group_condition_fields:
  "st_ResolvedLinks (mg_Status (set_group_condition L s r m now g)) = st_ResolvedLinks (mg_Status g)"
  "st_Machines (mg_Status (set_group_condition L s r m now g)) = st_Machines (mg_Status g)"
  "mg_Spec (set_group_condition L s r m now g) = mg_Spec g"
  by (simp_all add: set_group_condition_def)

lemma all_resolved:
  assumes "snd (assignPortsToLinks links mps al) = []"
  shows "map rl_UID (buildResolvedLinks links (fst (assignPortsToLinks links mps al))) = map lk_uid links"
proof -
  have "lk_uid l \<in> fst ` set (fst (assignPortsToLinks links mps al))" if "l \<in> set links" for l
    using that assignPortsToLinks_parts [of links mps al] assms by auto
  then have "filter (\<lambda>l. map_of (fst (assignPortsToLinks links mps al)) (lk_uid l) \<noteq> None) links = links"
    by (simp add: filter_id_conv map_of_None_keys)
  then show ?thesis by (simp add: buildResolvedLinks_uids)
qed

section \<open>A concrete run\<close>

text \<open>
  A group with the provider \<^verbatim>\<open>aws\<close>, exposure disabled, the machine port \<^verbatim>\<open>ns/b\<close> and the link \<^verbatim>\<open>ns/b\<close>; the
  cloud manager is instantiated by the one without a cloud.
\<close>

definition run_mg :: machine_group where
  "run_mg = \<lparr>mg_meta = (sample_meta ''g1'' ''g'')\<lparr>meta_finalizers := [machineGroupFinalizer]\<rparr>,
     mg_Spec = sample_spec\<lparr>sp_Provider := ''aws'', sp_Exposure := \<lparr>ex_LoadBalancers = Some []\<rparr>\<rparr>,
     mg_Status = sample_status\<rparr>"

definition run_link :: pool_link where
  "run_link = sample_link ''l1'' ''b''"
definition run_port :: machine_port where
  "run_port = sample_port ''p2'' ''b''"

definition run_reconciler :: "unit reconciler" where
  "run_reconciler = sample_reconciler\<lparr>
     r_Client := sample_client\<lparr>k_get_group := (\<lambda>_ w. (Inr run_mg, w)),
       k_list_links := (\<lambda>_ _ w. (Inr [run_link], w)), k_list_ports := (\<lambda>_ w. (Inr [run_port], w))\<rparr>,
     r_CloudManager := Some noop_manager, r_Provider := ''aws''\<rparr>"

definition run_name :: namespaced_name where
  "run_name = \<lparr>nn_namespace = ''ns'', nn_name = ''g''\<rparr>"

definition run_cloud :: cloud_status where
  "run_cloud = empty_cloud_status\<lparr>cs_MachineGroupName := ''ns-g-asg'', cs_MachineTemplateName := ''ns-g-lt''\<rparr>"

definition run_group :: machine_group where
  "run_group = group_status sample_lib 1000 [(''p2'', 10000)]
     (buildResolvedLinks [run_link] [(''l1'', 10000)]) run_cloud None [] 0 run_mg"

definition run_log :: "event list" where
  "run_log = [GetGroup run_name (Inr run_mg), ListLinks ''ns'' None (Inr [run_link]),
     ListPorts ''ns'' (Inr [run_port]),
     CloudEnsure run_mg [run_port] [(''p2'', 10000)] (run_cloud, [], None),
     PatchGroupStatus run_mg run_group None,
     PatchPortStatus run_port (updated_port sample_lib 1000 [] [(''p2'', 10000)] [] None run_port) None,
     PatchLinkStatus run_link (updated_link sample_lib 1000 [(''l1'', 10000)] []
       ''no allocated TiProxyMachinePort is available for this link'' run_link) None]"

lemma run_lists: "managed_links run_mg [run_link] = [run_link]" "managed_ports run_mg [run_port] = [run_port]"
  by (simp_all add: managed_links_def managed_ports_def run_link_def run_port_def run_mg_def sample_group
      refers_to_def NamespacedName_def Let_def)

lemma run_allocation: "ReconcilePorts [] (port_requests [run_port]) 10000 10010 = Some (Inr [(''p2'', 10000)])"
  by (simp add: port_requests_def run_port_def sample_group ReconcilePorts_def prepare_requests_def
      named_request_def request_key_def find_next.simps wrap32_def meta_key_def)

lemma run_assignment:
  "assignPortsToLinks [run_link] [run_port] [(''p2'', 10000)] = ([(''l1'', 10000)], [])"
  unfolding run_link_def run_port_def by code_simp

lemma run_ensure: "noop_Ensure run_mg [run_port] al w = ((run_cloud, [], None), w)"
  by (simp add: noop_Ensure_def run_mg_def sample_group NormalizeLoadBalancers_def ResolveNames_def
      run_cloud_def Let_def)

lemma run_manager: "cloudManagerFor (recorded_reconciler run_reconciler) run_mg = Inr (recorded_manager noop_manager)"
proof -
  have "to_lower (trim_space ''aws'') = ''aws''" by code_simp
  then show ?thesis by (simp add: cloudManagerFor_def run_reconciler_def run_mg_def Let_def)
qed

lemma run_prune: "pruneStaleMachineStatuses r run_mg now = (0, run_mg)"
  by (simp add: pruneStaleMachineStatuses_def run_mg_def sample_status_def)

lemma run_client [simp]:
  "k_get_group (r_Client run_reconciler) n w = (Inr run_mg, w)"
  "k_list_links (r_Client run_reconciler) ns sel w = (Inr [run_link], w)"
  "k_list_ports (r_Client run_reconciler) ns w = (Inr [run_port], w)"
  "k_patch_group_status (r_Client run_reconciler) b g w = (None, w)"
  "k_patch_port_status (r_Client run_reconciler) p q w = (None, w)"
  "k_patch_link_status (r_Client run_reconciler) l m w = (None, w)"
  "k_now (r_Client run_reconciler) w = 1000" "r_Lib run_reconciler = sample_lib"
  by (simp_all add: run_reconciler_def sample_reconciler_def sample_client_def act_skip_def)

lemma run_run:
  "Reconcile (recorded_reconciler run_reconciler) run_name ((), []) = Some ((no_requeue, None), ((), run_log))"
proof -
  let ?r = "recorded_reconciler run_reconciler"
  have meta: "meta_deletion_timestamp (mg_meta run_mg) = None" "meta_namespace (mg_meta run_mg) = ''ns''"
    "sp_LinkSelector (mg_Spec run_mg) = None" "st_AllocatedPorts (mg_Status run_mg) = []"
    "sp_PortRange (mg_Spec run_mg) = \<lparr>range_start = 10000, range_end = 10010\<rparr>"
    by (simp_all add: run_mg_def sample_group)
  have fin: "lib_contains_finalizer sample_lib (mg_meta run_mg) machineGroupFinalizer"
    by (simp add: sample_lib_def run_mg_def)
  have spec: "Validate \<lparr>range_start = 10000, range_end = 10010\<rparr> = Inr ()"
    "NormalizeLoadBalancers (sp_Exposure (mg_Spec run_mg)) = Inr []"
    by (simp_all add: Validate_def run_mg_def sample_group NormalizeLoadBalancers_def)
  have rest: "reconcile_allocated ?r run_mg [] [run_link] [run_port] [(''p2'', 10000)]
      ((), take 3 run_log) = ((no_requeue, None), ((), run_log))"
    by (simp add: reconcile_allocated_eq run_manager noop_manager_def log_call_eq run_ensure
        after_ensure_def run_prune run_assignment syncMachinePortStatuses_def syncLinkStatuses_def
        run_log_def run_group_def)
  show ?thesis
    by (simp add: Reconcile_def reconcile_group_def is_zero_time_def meta fin spec reconcile_ports_def
        list_links_recorded list_ports_recorded on_items_def log_call_eq run_lists
        maxMachinePortsPerGroup_def run_allocation Let_def rest [unfolded run_log_def, simplified] run_log_def)
qed

lemma run_run_at:
  "run_log = log \<Longrightarrow> Reconcile (recorded_reconciler run_reconciler) run_name ((), []) =
     Some ((no_requeue, None), ((), log))"
  using run_run by simp

section \<open>Properties\<close>

text \<open>
  C1: Refinement. Recording does not change what \<^verbatim>\<open>Reconcile\<close> does, and the recorded calls of every
  \<^verbatim>\<open>Reconcile\<close> form a run of the protocol, whatever the API server and the cloud answer.
\<close>

theorem Reconcile_refines_protocol:
  assumes "Reconcile (recorded_reconciler r) req (w, []) = Some (out, (w', log))"
  shows "Reconcile r req w = Some (out, w') \<and> (\<exists>s. ctl_run (r_Lib r) (Start req) log s)"
  using Reconcile_drop [of r req "(w, [])"] log_run [OF assms] assms by (auto simp: drop_log_def)

theorem Reconcile_refines_protocol_witness:
  "\<exists>s. ctl_run sample_lib (Start run_name) run_log s"
  using Reconcile_refines_protocol [OF run_run] by simp

text \<open>
  C3: The finalizer. A group is patched only to add the finalizer to a group that is not deleted and has
  none, or to remove it from a deleted group; and when the group uses a cloud provider, the removal is
  immediately preceded by a \<^verbatim>\<open>DeleteMachineGroup\<close> of that group that reported no error.
\<close>

theorem finalizer_removed_only_after_delete:
  assumes "Reconcile (recorded_reconciler r) req (w, []) = Some (out, (w', pre @ PatchGroup base obj answer # post))"
  shows "if deleted base then finalized (r_Lib r) base \<and> obj = without_finalizer (r_Lib r) base \<and>
      (uses_cloud base \<longrightarrow> (\<exists>pre'. pre = pre' @ [CloudDelete base None]))
    else \<not> finalized (r_Lib r) base \<and> obj = with_finalizer (r_Lib r) base"
proof -
  obtain s where "ctl_run (r_Lib r) (Start req) (pre @ PatchGroup base obj answer # post) s"
    using log_run [OF assms] .
  from run_knows [OF this] obtain t t' where k: "knows (r_Lib r) pre t"
    and step: "ctl_step (r_Lib r) t (PatchGroup base obj answer) t'" .
  show ?thesis
    using step k
  proof (induction t "PatchGroup base obj answer" t' rule: ctl_step.induct)
    case (refuse mg links mps s)
    then show ?case by (auto elim: step_Refusing)
  qed (auto simp: deleted_def)
qed

text \<open>The deletion of the same group.\<close>

definition gone_mg :: machine_group where
  "gone_mg = run_mg\<lparr>mg_meta := (mg_meta run_mg)\<lparr>meta_deletion_timestamp := Some 5\<rparr>\<rparr>"

definition gone_reconciler :: "unit reconciler" where
  "gone_reconciler = run_reconciler\<lparr>r_Client := sample_client\<lparr>k_get_group := (\<lambda>_ w. (Inr gone_mg, w))\<rparr>\<rparr>"

lemma gone_run:
  "Reconcile (recorded_reconciler gone_reconciler) run_name ((), []) =
     Some ((no_requeue, None), ((), [GetGroup run_name (Inr gone_mg), CloudDelete gone_mg None] @
       PatchGroup gone_mg (without_finalizer sample_lib gone_mg) None # []))"
proof -
  have m: "cloudManagerFor (recorded_reconciler gone_reconciler) gone_mg = Inr (recorded_manager noop_manager)"
  proof -
    have "to_lower (trim_space ''aws'') = ''aws''" by code_simp
    then show ?thesis
      by (simp add: cloudManagerFor_def gone_reconciler_def run_reconciler_def gone_mg_def run_mg_def Let_def)
  qed
  have meta: "meta_deletion_timestamp (mg_meta gone_mg) = Some 5" by (simp add: gone_mg_def)
  have fin: "lib_contains_finalizer sample_lib (mg_meta gone_mg) machineGroupFinalizer"
    by (simp add: sample_lib_def gone_mg_def run_mg_def)
  have r: "r_Client gone_reconciler = sample_client\<lparr>k_get_group := (\<lambda>_ w. (Inr gone_mg, w))\<rparr>"
    "r_Lib gone_reconciler = sample_lib"
    by (simp_all add: gone_reconciler_def run_reconciler_def sample_reconciler_def)
  show ?thesis
    by (simp add: Reconcile_def reconcile_group_def is_zero_time_def meta fin reconcileDelete_def m
        noop_manager_def noop_Delete_def r log_call_eq act_skip_def sample_client_def Let_def
        without_finalizer_def)
qed

theorem finalizer_removed_only_after_delete_witness:
  "\<exists>pre'. [GetGroup run_name (Inr gone_mg), CloudDelete gone_mg None] = pre' @ [CloudDelete gone_mg None]"
proof -
  have "deleted gone_mg" by (simp add: deleted_def gone_mg_def is_zero_time_def)
  moreover have "uses_cloud gone_mg"
  proof -
    have "to_lower (trim_space ''aws'') = ''aws''" by code_simp
    then show ?thesis by (simp add: uses_cloud_def gone_mg_def run_mg_def)
  qed
  ultimately show ?thesis using finalizer_removed_only_after_delete [OF gone_run] by simp
qed

text \<open>
  C2: What the provider is asked for. \<^verbatim>\<open>EnsureMachineGroup\<close> is called at most once, for a group that is not
  deleted, has the finalizer and a valid specification, with at most 50 machine ports that all refer to
  the group, and with an allocation that gives each of them, and nothing else, its own port in the
  group's range, if that range ends below the largest \<^verbatim>\<open>int32\<close>.
\<close>

theorem ensure_called_only_with_valid_input:
  assumes "Reconcile (recorded_reconciler r) req (w, []) =
    Some (out, (w', pre @ CloudEnsure mg mps al res # post))"
  shows "active (r_Lib r) mg \<and> length mps \<le> 50 \<and>
    (\<forall>p \<in> set mps. refers_to (mps_MachineGroupRef (mp_Spec p)) (mp_meta p) mg) \<and>
    \<not> ensured_in pre \<and>
    (range_end (sp_PortRange (mg_Spec mg)) < max_int32 \<longrightarrow>
       valid_allocation (mp_uid ` set mps) (range_start (sp_PortRange (mg_Spec mg)))
         (range_end (sp_PortRange (mg_Spec mg))) al)"
proof -
  obtain s where "ctl_run (r_Lib r) (Start req) (pre @ CloudEnsure mg mps al res # post) s"
    using log_run [OF assms] .
  from run_knows [OF this] obtain t t' where k: "knows (r_Lib r) pre t"
    and step: "ctl_step (r_Lib r) t (CloudEnsure mg mps al res) t'" .
  from step have "(\<exists>links. t = HavePorts mg links mps) \<and> allocates mg mps al"
    by (induction t "CloudEnsure mg mps al res" t' rule: ctl_step.induct) auto
  with k have "active (r_Lib r) mg" "listed_ports pre mg mps" "\<not> ensured_in pre" "allocates mg mps al"
    by auto
  with allocates_valid [of mg mps al] show ?thesis
    by (auto simp: listed_ports_def set_managed_ports allocates_def maxMachinePortsPerGroup_def)
qed

lemma run_at_ensure:
  "run_log = take 3 run_log @ CloudEnsure run_mg [run_port] [(''p2'', 10000)] (run_cloud, [], None) # drop 4 run_log"
  by (simp add: run_log_def)

theorem ensure_called_only_with_valid_input_witness:
  "valid_allocation {''p2''} 10000 10010 [(''p2'', 10000)]"
proof -
  have "mp_uid ` set [run_port] = {''p2''}"
    "sp_PortRange (mg_Spec run_mg) = \<lparr>range_start = 10000, range_end = 10010\<rparr>"
    by (simp_all add: run_port_def run_mg_def sample_group)
  with ensure_called_only_with_valid_input [OF run_run_at [OF run_at_ensure]] show ?thesis
    by (simp add: max_int32_def)
qed

text \<open>
  C4: A group is reported \<^verbatim>\<open>Ready\<close> only when the provider's \<^verbatim>\<open>EnsureMachineGroup\<close> succeeded in the same
  \<^verbatim>\<open>Reconcile\<close> and every managed link has a port: the patched status then holds the provider's status,
  and its resolved links are all the links that were listed, in order.
\<close>

theorem ready_means_everything_resolved:
  assumes "Reconcile (recorded_reconciler r) req (w, []) =
      Some (out, (w', pre @ PatchGroupStatus base obj answer # post))"
    "set_condition_law (r_Lib r)" "group_status_of ConditionReady obj = Some ConditionTrue"
  shows "\<exists>mg links mps al cs ports. mg_Spec mg = mg_Spec base \<and> active (r_Lib r) mg \<and>
    listed pre mg links \<and> listed_ports pre mg mps \<and> allocates mg mps al \<and>
    (if uses_cloud mg then CloudEnsure mg mps al (cs, ports, None) \<in> set pre
     else (cs, ports, None) = fst (noop_Ensure mg mps al ())) \<and>
    st_Cloud (mg_Status obj) = cs \<and> st_AllocatedPorts (mg_Status obj) = al \<and>
    map rl_UID (st_ResolvedLinks (mg_Status obj)) = map lk_uid links"
proof -
  from assms(1) show ?thesis
  proof (cases rule: patch_of_run)
    case (error reason msg now)
    then show ?thesis using assms(3) by (simp add: group_status_of_set [OF assms(2)])
  next
    case (report mg links mps al res)
    from report(1) obtain now n where obj: "obj = group_status (r_Lib r) now al
        (buildResolvedLinks links (fst (assignPortsToLinks links mps al))) (fst res) (snd (snd res))
        (snd (assignPortsToLinks links mps al)) n base" and spec: "mg_Spec base = mg_Spec mg"
      by (auto simp: status_patch_unfold)
    from assms(3) have ok: "snd (snd res) = None" "snd (assignPortsToLinks links mps al) = []"
      by (auto simp: obj group_status_ready [OF assms(2)] split: if_splits)
    then have "res = (fst res, fst (snd res), None)" by (metis prod.collapse)
    then show ?thesis
      using report(2) spec all_resolved [OF ok(2)]
      unfolding reported_by_def obj group_status_fields by metis
  qed
qed

lemma run_at_status: "run_log = take 4 run_log @ PatchGroupStatus run_mg run_group None # drop 5 run_log"
  by (simp add: run_log_def)

lemma run_law: "set_condition_law (r_Lib run_reconciler)"
  by (simp add: sample_set_condition_law)

theorem ready_means_everything_resolved_witness:
  "\<exists>mg links mps al cs ports. mg_Spec mg = mg_Spec run_mg \<and> active (r_Lib run_reconciler) mg \<and>
    listed (take 4 run_log) mg links \<and> listed_ports (take 4 run_log) mg mps \<and> allocates mg mps al \<and>
    (if uses_cloud mg then CloudEnsure mg mps al (cs, ports, None) \<in> set (take 4 run_log)
     else (cs, ports, None) = fst (noop_Ensure mg mps al ())) \<and>
    st_Cloud (mg_Status run_group) = cs \<and> st_AllocatedPorts (mg_Status run_group) = al \<and>
    map rl_UID (st_ResolvedLinks (mg_Status run_group)) = map lk_uid links"
proof -
  have "group_status_of ConditionReady run_group = Some ConditionTrue"
    by (simp add: run_group_def group_status_ready [OF sample_set_condition_law])
  from ready_means_everything_resolved [OF run_run_at [OF run_at_status] run_law this] show ?thesis .
qed

text \<open>The resolved links of a report have different ports, all of the group's range.\<close>

lemma reported_links_ports:
  assumes "reported_by L pre mg links mps al res"
    "\<forall>ns sel items. ListLinks ns sel (Inr items) \<in> set pre \<longrightarrow> distinct (map lk_uid items)"
    "\<forall>ns items. ListPorts ns (Inr items) \<in> set pre \<longrightarrow> distinct (map mp_uid items)"
    "range_end (sp_PortRange (mg_Spec mg)) < max_int32"
  shows "distinct (map rl_Port (buildResolvedLinks links (fst (assignPortsToLinks links mps al))))"
    "l \<in> set (buildResolvedLinks links (fst (assignPortsToLinks links mps al))) \<Longrightarrow>
       range_start (sp_PortRange (mg_Spec mg)) \<le> rl_Port l \<and> rl_Port l \<le> range_end (sp_PortRange (mg_Spec mg))"
proof -
  let ?as = "fst (assignPortsToLinks links mps al)"
  have uids: "distinct (map lk_uid links)" "distinct (map mp_uid mps)"
    using assms(1-3) distinct_managed by (auto simp: reported_by_def listed_def listed_ports_def)
  have valid: "valid_allocation (mp_uid ` set mps) (range_start (sp_PortRange (mg_Spec mg)))
       (range_end (sp_PortRange (mg_Spec mg))) al"
    using assms(1,4) allocates_valid by (simp add: reported_by_def)
  then have "distinct (available_ports mps al)"
    using distinct_available_ports [OF uids(2)] by (simp add: valid_allocation_def)
  from assignPortsToLinks_inv [OF uids(1) this]
  have inv: "distinct (map snd ?as)" "snd ` set ?as \<subseteq> set (available_ports mps al)"
    by (simp_all add: assign_inv_def)
  show "distinct (map rl_Port (buildResolvedLinks links ?as))" by (rule buildResolvedLinks_distinct_ports [OF uids(1) inv(1)])
  assume "l \<in> set (buildResolvedLinks links ?as)"
  then obtain u where "map_of ?as u = Some (rl_Port l)" by (auto simp: set_buildResolvedLinks)
  then have "rl_Port l \<in> set (available_ports mps al)" using inv(2) by (force dest: map_of_SomeD)
  then obtain u where "map_of al u = Some (rl_Port l)" by (auto simp: set_available_ports)
  then have "rl_Port l \<in> snd ` set al" by (force dest: map_of_SomeD)
  with valid have "in_range (range_start (sp_PortRange (mg_Spec mg))) (range_end (sp_PortRange (mg_Spec mg))) (rl_Port l)"
    unfolding valid_allocation_def by blast
  then show "range_start (sp_PortRange (mg_Spec mg)) \<le> rl_Port l \<and> rl_Port l \<le> range_end (sp_PortRange (mg_Spec mg))"
    by (simp add: in_range_def)
qed

text \<open>
  C14: No two links share a frontend port: in every status the group is patched with, the resolved links
  are unchanged or have pairwise different ports, all in the group's range, provided the API server
  lists objects with distinct UIDs and the range ends below the largest \<^verbatim>\<open>int32\<close>.
\<close>

theorem resolved_links_have_own_ports:
  assumes "Reconcile (recorded_reconciler r) req (w, []) =
      Some (out, (w', pre @ PatchGroupStatus base obj answer # post))"
    "\<forall>ns sel items. ListLinks ns sel (Inr items) \<in> set pre \<longrightarrow> distinct (map lk_uid items)"
    "\<forall>ns items. ListPorts ns (Inr items) \<in> set pre \<longrightarrow> distinct (map mp_uid items)"
    "range_end (sp_PortRange (mg_Spec base)) < max_int32"
  shows "st_ResolvedLinks (mg_Status obj) = st_ResolvedLinks (mg_Status base) \<or>
    distinct (map rl_Port (st_ResolvedLinks (mg_Status obj))) \<and>
    (\<forall>l \<in> set (st_ResolvedLinks (mg_Status obj)).
       range_start (sp_PortRange (mg_Spec base)) \<le> rl_Port l \<and> rl_Port l \<le> range_end (sp_PortRange (mg_Spec base)))"
proof -
  from assms(1) show ?thesis
  proof (cases rule: patch_of_run)
    case (error reason msg now)
    then show ?thesis by (simp add: set_group_condition_fields)
  next
    case (report mg links mps al res)
    note ports = reported_links_ports [OF report(2) assms(2,3)]
    from report(1) have "st_ResolvedLinks (mg_Status obj) = buildResolvedLinks links (fst (assignPortsToLinks links mps al))"
      "mg_Spec base = mg_Spec mg"
      by (auto simp: status_patch_unfold group_status_fields)
    then show ?thesis using ports assms(4) by simp
  qed
qed

theorem resolved_links_have_own_ports_witness:
  "st_ResolvedLinks (mg_Status run_group) = st_ResolvedLinks (mg_Status run_mg) \<or>
   distinct (map rl_Port (st_ResolvedLinks (mg_Status run_group)))"
proof -
  have "\<forall>ns sel items. ListLinks ns sel (Inr items) \<in> set (take 4 run_log) \<longrightarrow> distinct (map lk_uid items)"
    "\<forall>ns items. ListPorts ns (Inr items) \<in> set (take 4 run_log) \<longrightarrow> distinct (map mp_uid items)"
    "range_end (sp_PortRange (mg_Spec run_mg)) < max_int32"
    by (simp_all add: run_log_def run_mg_def sample_group max_int32_def)
  from resolved_links_have_own_ports [OF run_run_at [OF run_at_status] this] show ?thesis by blast
qed

text \<open>The group is pruned before the base of the patch is taken: no status patch changes the machines.\<close>

lemma status_patch_keeps_machines:
  assumes "Reconcile (recorded_reconciler r) req (w, []) =
      Some (out, (w', pre @ PatchGroupStatus base obj answer # post))"
  shows "st_Machines (mg_Status obj) = st_Machines (mg_Status base)"
  using assms
  by (cases rule: patch_of_run)
    (auto simp: status_patch_unfold group_status_fields set_group_condition_fields)

text \<open>
  C25: A link is reported \<^verbatim>\<open>Ready\<close> only after the API server has accepted, in the same \<^verbatim>\<open>Reconcile\<close>, a status
  of the group whose resolved links contain it, so that the agents can already serve it; a rejected
  status patch is never followed by a link that is reported \<^verbatim>\<open>Ready\<close>.
\<close>

theorem link_ready_only_after_published:
  assumes "Reconcile (recorded_reconciler r) req (w, []) =
      Some (out, (w', pre @ PatchLinkStatus l q answer # post))" "lkt_Phase (lk_Status q) = ''Ready''"
  shows "\<exists>base obj. PatchGroupStatus base obj None \<in> set pre \<and>
    lk_uid l \<in> rl_UID ` set (st_ResolvedLinks (mg_Status obj))"
proof -
  obtain s where "ctl_run (r_Lib r) (Start req) (pre @ PatchLinkStatus l q answer # post) s"
    using log_run [OF assms(1)] .
  from run_knows [OF this] obtain t t' where k: "knows (r_Lib r) pre t"
    and step: "ctl_step (r_Lib r) t (PatchLinkStatus l q answer) t'" .
  show ?thesis
    using step k assms(2)
  proof (induction t "PatchLinkStatus l q answer" t' rule: ctl_step.induct)
    case (report_link links mg mps al res now)
    then obtain base obj where p: "PatchGroupStatus base obj None \<in> set pre"
      and s: "status_patch (r_Lib r) mg links mps al res base obj" by auto
    let ?as = "fst (assignPortsToLinks links mps al)"
    have "map_of ?as (lk_uid l) \<noteq> None"
      using report_link by (auto simp: status_simps split: if_splits)
    then have "lk_uid l \<in> rl_UID ` set (buildResolvedLinks links ?as)"
      using report_link(1) by (force simp: set_buildResolvedLinks)
    moreover have "st_ResolvedLinks (mg_Status obj) = buildResolvedLinks links ?as"
      using s by (auto simp: status_patch_unfold group_status_fields)
    ultimately show ?case using p by metis
  qed (auto simp: status_simps)
qed

lemma run_at_link:
  "run_log = take 6 run_log @ PatchLinkStatus run_link (updated_link sample_lib 1000 [(''l1'', 10000)] []
       ''no allocated TiProxyMachinePort is available for this link'' run_link) None # []"
  by (simp add: run_log_def)

theorem link_ready_only_after_published_witness:
  "\<exists>base obj. PatchGroupStatus base obj None \<in> set (take 6 run_log) \<and>
     ''l1'' \<in> rl_UID ` set (st_ResolvedLinks (mg_Status obj))"
proof -
  have l: "lk_uid run_link = ''l1''" by (simp add: run_link_def sample_group)
  then have "lkt_Phase (lk_Status (updated_link sample_lib 1000 [(''l1'', 10000)] []
       ''no allocated TiProxyMachinePort is available for this link'' run_link)) = ''Ready''"
    by (simp add: status_simps)
  from link_ready_only_after_published [OF run_run_at [OF run_at_link] this] show ?thesis
    by (simp only: l)
qed

text \<open>
  C24: \<^verbatim>\<open>Reconcile\<close> always returns: with at most 50 machine ports the allocator's search for ports ends for
  every \<^verbatim>\<open>int32\<close> range, and nothing else loops.
\<close>

theorem Reconcile_returns:
  assumes "\<forall>mg w'. k_get_group (r_Client r) req w = (Inr mg, w') \<longrightarrow>
    is_int32 (range_start (sp_PortRange (mg_Spec mg))) \<and> is_int32 (range_end (sp_PortRange (mg_Spec mg)))"
  shows "\<exists>out. Reconcile r req w = Some out"
proof -
  have ports: "reconcile_ports r mg lbs w' \<noteq> None"
    if range: "is_int32 (range_start (sp_PortRange (mg_Spec mg)))" "is_int32 (range_end (sp_PortRange (mg_Spec mg)))"
    for mg lbs w'
  proof -
    have alloc: "\<exists>x. ReconcilePorts al (port_requests mps) (range_start (sp_PortRange (mg_Spec mg)))
        (range_end (sp_PortRange (mg_Spec mg))) = Some x" if "\<not> length mps > maxMachinePortsPerGroup" for al mps
      using that by (intro Reconcile_total range) (simp add: port_requests_def maxMachinePortsPerGroup_def)
    obtain x w1 where links: "listManagedLinks r mg w' = (x, w1)" by (rule prod.exhaust)
    obtain y w2 where mps: "listManagedMachinePorts r mg w1 = (y, w2)" by (rule prod.exhaust)
    show ?thesis
    proof (cases "\<exists>ls ps. x = Inr ls \<and> y = Inr ps \<and> \<not> length ps > maxMachinePortsPerGroup")
      case True
      then obtain ls ps where xy: "x = Inr ls" "y = Inr ps" "\<not> length ps > maxMachinePortsPerGroup" by blast
      from alloc [OF xy(3)] obtain z where "ReconcilePorts (st_AllocatedPorts (mg_Status mg)) (port_requests ps)
          (range_start (sp_PortRange (mg_Spec mg))) (range_end (sp_PortRange (mg_Spec mg))) = Some z" by blast
      then show ?thesis by (cases z) (simp_all add: reconcile_ports_def links mps xy Let_def)
    next
      case False
      then show ?thesis by (cases x; cases y) (auto simp: reconcile_ports_def links mps Let_def)
    qed
  qed
  obtain x w' where get: "k_get_group (r_Client r) req w = (x, w')" by (rule prod.exhaust)
  have "Reconcile r req w \<noteq> None"
  proof (cases x)
    case (Inr mg)
    then have "reconcile_group r mg w' \<noteq> None"
      using assms ports get
      by (auto simp: reconcile_group_def Let_def simp del: not_None_eq split: prod.split option.split sum.split)
    then show ?thesis using get Inr by (simp add: Reconcile_def)
  qed (simp add: Reconcile_def get)
  then show ?thesis by blast
qed

theorem Reconcile_returns_witness: "\<exists>out. Reconcile run_reconciler run_name () = Some out"
  by (rule Reconcile_returns) (simp add: run_mg_def sample_group is_int32_def)

end
