(* ===== verification/Tiproxy_Config.thy ===== *)
theory Tiproxy_Config
  imports Sample_Objects Sha256
begin

text \<open>
  \<^verbatim>\<open>internal/agent/config/render.go\<close>: the TiProxy configuration an agent renders from the resolved links
  of its group. \<open>build_clusters\<close> is the loop of \<^verbatim>\<open>buildBackendClusters\<close>; the text is built line by line as
  the code does.

  The lemmas characterise when rendering succeeds, show that the text does not depend on the order of
  the links, and that reading the lines back gives exactly the rendered values, so that no name can
  add a line to the file.
\<close>

section \<open>Definitions\<close>

record render_options =
  opt_ResolvedLinks :: "resolved_link_status list"
  opt_APIPort :: int
  opt_ListenHost :: string
  opt_PortRangeStart :: int
  opt_PortRangeEnd :: int
  opt_DefaultListenPort :: int

record backend_cluster =
  bc_Name :: string
  bc_PDAddrs :: string
  bc_NSServers :: string

definition defaultClusterName :: "resolved_link_status \<Rightarrow> string" where
  "defaultClusterName link =
     (if rl_Namespace link = [] then rl_Name link else rl_Namespace link @ ''.'' @ rl_Name link)"

definition ClusterName :: "resolved_link_status \<Rightarrow> string" where
  "ClusterName link =
     (if trim_space (rl_ClusterName link) \<noteq> [] then trim_space (rl_ClusterName link)
      else defaultClusterName link)"

definition pd_addresses :: "resolved_link_status \<Rightarrow> string list" where
  "pd_addresses link = filter (\<lambda>addr. addr \<noteq> []) (map trim_space (rl_PDAddresses link))"

fun build_clusters :: "string list \<Rightarrow> resolved_link_status list \<Rightarrow> backend_cluster list result" where
  "build_clusters names [] = Inr []"
| "build_clusters names (link # links) =
     (if rl_Port link \<le> 0 then
        Inl (errorf (''link '' @ rl_Namespace link @ ''/'' @ rl_Name link @
          '' has invalid assigned port '' @ show_int (rl_Port link)))
      else
        (let clusterName = trim_space (rl_ClusterName link);
             clusterName = (if clusterName = [] then defaultClusterName link else clusterName) in
         if clusterName \<in> set names then
           Inl (errorf (''duplicate cluster name '' @ quote clusterName @ '' in resolved links''))
         else
           (let pdAddrs = pd_addresses link in
            if pdAddrs = [] then
              Inl (errorf (''cluster '' @ quote clusterName @ '' has empty pd addresses''))
            else
              rbind (build_clusters (clusterName # names) links) (\<lambda>clusters.
                Inr (\<lparr>bc_Name = clusterName, bc_PDAddrs = join '','' pdAddrs,
                      bc_NSServers = trim_space (rl_NSServerAddr link)\<rparr> # clusters)))))"

definition buildBackendClusters :: "resolved_link_status list \<Rightarrow> backend_cluster list result" where
  "buildBackendClusters links =
     rbind (build_clusters [] links) (\<lambda>clusters. Inr (sort_key bc_Name clusters))"

fun infer_range :: "int \<Rightarrow> int \<Rightarrow> resolved_link_status list \<Rightarrow> int \<times> int" where
  "infer_range start end [] = (start, end)"
| "infer_range start end (link # links) =
     (if rl_Port link \<le> 0 then infer_range start end links
      else infer_range (if start = 0 \<or> rl_Port link < start then rl_Port link else start)
             (if end = 0 \<or> rl_Port link > end then rl_Port link else end) links)"

definition inferPortRange :: "resolved_link_status list \<Rightarrow> int \<times> int" where
  "inferPortRange links = infer_range 0 0 links"

text \<open>The listening range: the given one, or else that of the links, or else the default port.\<close>

definition listen_range :: "render_options \<Rightarrow> int \<times> int" where
  "listen_range opts =
     (let (rangeStart, rangeEnd) = (opt_PortRangeStart opts, opt_PortRangeEnd opts);
          (rangeStart, rangeEnd) = (if rangeStart \<le> 0 \<or> rangeEnd < rangeStart
             then inferPortRange (opt_ResolvedLinks opts) else (rangeStart, rangeEnd)) in
      if rangeStart \<le> 0 \<or> rangeEnd < rangeStart then
        (let p = (if opt_DefaultListenPort opts \<le> 0 then 6000 else opt_DefaultListenPort opts) in (p, p))
      else (rangeStart, rangeEnd))"

definition newline :: string where
  "newline = [CHR 0x0A]"

definition cluster_text :: "backend_cluster \<Rightarrow> string" where
  "cluster_text cluster =
     newline @ ''[[proxy.backend-clusters]]'' @ newline @
     ''name = '' @ quote (bc_Name cluster) @ newline @
     ''pd-addrs = '' @ quote (bc_PDAddrs cluster) @ newline @
     (if bc_NSServers cluster \<noteq> [] then ''ns-servers = '' @ quote (bc_NSServers cluster) @ newline else [])"

definition config_text :: "string \<Rightarrow> int \<Rightarrow> int \<times> int \<Rightarrow> backend_cluster list \<Rightarrow> string" where
  "config_text listenHost apiPort ports clusters =
     ''[proxy]'' @ newline @
     ''addr = '' @ quote (listenHost @ '':'' @ show_int (fst ports)) @ newline @
     ''port-range = ['' @ show_int (fst ports) @ '', '' @ show_int (snd ports) @ '']'' @ newline @
     (if clusters = [] then ''backend-clusters = []'' @ newline
      else concat (map cluster_text clusters)) @
     newline @ ''[balance]'' @ newline @
     ''routing-rule = '' @ quote ''port'' @ newline @
     newline @ ''[api]'' @ newline @
     ''addr = '' @ quote (''0.0.0.0:'' @ show_int apiPort) @ newline"

definition effective_api_port :: "render_options \<Rightarrow> int" where
  "effective_api_port opts = (if opt_APIPort opts = 0 then 3080 else opt_APIPort opts)"

definition listen_host :: "render_options \<Rightarrow> string" where
  "listen_host opts =
     (let listenHost = trim_space (opt_ListenHost opts)
      in if listenHost = [] then ''0.0.0.0'' else listenHost)"

definition BuildTiProxyConfig :: "render_options \<Rightarrow> string result" where
  "BuildTiProxyConfig opts =
     (let apiPort = effective_api_port opts in
      if apiPort \<le> 0 then Inl (errorf (''invalid api port '' @ show_int apiPort))
      else rbind (buildBackendClusters (opt_ResolvedLinks opts)) (\<lambda>clusters.
        Inr (config_text (listen_host opts) apiPort (listen_range opts) clusters)))"

definition HashBytes :: "string \<Rightarrow> string" where
  "HashBytes data = hex_encode (sum256 data)"

section \<open>When the clusters can be built\<close>

definition cluster_of :: "resolved_link_status \<Rightarrow> backend_cluster" where
  "cluster_of link = \<lparr>bc_Name = ClusterName link, bc_PDAddrs = join '','' (pd_addresses link),
     bc_NSServers = trim_space (rl_NSServerAddr link)\<rparr>"

definition renderable :: "resolved_link_status list \<Rightarrow> bool" where
  "renderable links \<longleftrightarrow> (\<forall>l \<in> set links. 0 < rl_Port l \<and> pd_addresses l \<noteq> []) \<and>
     distinct (map ClusterName links)"

lemma cluster_name_if: "(if trim_space (rl_ClusterName l) = [] then defaultClusterName l
    else trim_space (rl_ClusterName l)) = ClusterName l"
  by (simp add: ClusterName_def)

lemma build_clusters_Cons:
  "build_clusters names (l # ls) =
     (if rl_Port l \<le> 0 then
        Inl (errorf (''link '' @ rl_Namespace l @ ''/'' @ rl_Name l @
          '' has invalid assigned port '' @ show_int (rl_Port l)))
      else if ClusterName l \<in> set names then
        Inl (errorf (''duplicate cluster name '' @ quote (ClusterName l) @ '' in resolved links''))
      else if pd_addresses l = [] then
        Inl (errorf (''cluster '' @ quote (ClusterName l) @ '' has empty pd addresses''))
      else rbind (build_clusters (ClusterName l # names) ls) (\<lambda>cs. Inr (cluster_of l # cs)))"
  unfolding build_clusters.simps Let_def cluster_name_if cluster_of_def ..

lemma build_clusters_iff:
  "build_clusters names links = Inr cs \<longleftrightarrow> cs = map cluster_of links \<and>
     (\<forall>l \<in> set links. 0 < rl_Port l \<and> pd_addresses l \<noteq> []) \<and> distinct (map ClusterName links) \<and>
     set names \<inter> ClusterName ` set links = {}"
proof (induction links arbitrary: names cs)
  case (Cons l links)
  show ?case
    unfolding build_clusters_Cons
    by (auto simp: rbind_Inr_iff Cons)
qed auto

lemma buildBackendClusters_iff:
  "buildBackendClusters links = Inr cs \<longleftrightarrow>
     renderable links \<and> cs = sort_key bc_Name (map cluster_of links)"
  by (auto simp: buildBackendClusters_def rbind_Inr_iff build_clusters_iff renderable_def)

lemma cluster_of_name [simp]: "bc_Name (cluster_of l) = ClusterName l"
  by (simp add: cluster_of_def)

section \<open>The order of the links does not matter\<close>

lemma renderable_mset: "mset links' = mset links \<Longrightarrow> renderable links' = renderable links"
  by (metis (no_types, lifting) mset_eq_imp_distinct_iff mset_map renderable_def set_mset_mset)

lemma sorted_clusters_mset:
  assumes "renderable links" "mset links' = mset links"
  shows "sort_key bc_Name (map cluster_of links') = sort_key bc_Name (map cluster_of links)"
proof (rule sort_key_mset_cong)
  show "distinct (map bc_Name (map cluster_of links))" using assms(1) by (simp add: renderable_def comp_def)
qed (simp add: assms(2))

text \<open>The inferred range: the smallest and the largest positive port.\<close>

definition positive_ports :: "resolved_link_status list \<Rightarrow> int set" where
  "positive_ports links = {p \<in> rl_Port ` set links. 0 < p}"

lemma infer_range_running:
  assumes "0 < s" "0 < e"
  shows "infer_range s e links =
    (Min (insert s (positive_ports links)), Max (insert e (positive_ports links)))"
  using assms
proof (induction links arbitrary: s e)
  case (Cons l links)
  have fin: "finite (positive_ports links)" by (simp add: positive_ports_def)
  show ?case
  proof (cases "0 < rl_Port l")
    case True
    then have pp: "positive_ports (l # links) = insert (rl_Port l) (positive_ports links)"
      by (auto simp: positive_ports_def)
    have "infer_range s e (l # links) = infer_range (min s (rl_Port l)) (max e (rl_Port l)) links"
      using True Cons.prems by (auto simp: min_def max_def)
    also have "\<dots> = (Min (insert (min s (rl_Port l)) (positive_ports links)),
        Max (insert (max e (rl_Port l)) (positive_ports links)))"
      using True Cons.prems by (intro Cons.IH) auto
    finally show ?thesis using fin
      by (cases "positive_ports links = {}") (simp_all add: pp min.assoc max.assoc)
  next
    case False
    then have "positive_ports (l # links) = positive_ports links" by (auto simp: positive_ports_def)
    with False show ?thesis using Cons by simp
  qed
qed (simp add: positive_ports_def)

lemma inferPortRange_eq:
  "inferPortRange links = (if positive_ports links = {} then (0, 0)
     else (Min (positive_ports links), Max (positive_ports links)))"
  unfolding inferPortRange_def
proof (induction links)
  case (Cons l links)
  show ?case
  proof (cases "0 < rl_Port l")
    case True
    then have "positive_ports (l # links) = insert (rl_Port l) (positive_ports links)"
      by (auto simp: positive_ports_def)
    with True show ?thesis by (simp add: infer_range_running)
  next
    case False
    then have "positive_ports (l # links) = positive_ports links" by (auto simp: positive_ports_def)
    with False Cons show ?thesis by simp
  qed
qed (simp add: positive_ports_def)

lemma inferPortRange_mset: "mset links' = mset links \<Longrightarrow> inferPortRange links' = inferPortRange links"
  by (metis inferPortRange_eq positive_ports_def set_mset_mset)

section \<open>Reading the text back\<close>

fun text_lines :: "string \<Rightarrow> string list" where
  "text_lines [] = [[]]"
| "text_lines (c # s) =
     (if c = CHR 0x0A then [] # text_lines s
      else (case text_lines s of [] \<Rightarrow> [[c]] | l # ls \<Rightarrow> (c # l) # ls))"

definition unlines :: "string list \<Rightarrow> string" where
  "unlines ls = concat (map (\<lambda>l. l @ newline) ls)"

lemma unlines_simps [simp]:
  "unlines [] = []" "unlines (l # ls) = l @ newline @ unlines ls"
  "unlines (ls @ ls') = unlines ls @ unlines ls'"
  by (simp_all add: unlines_def)

abbreviation one_line :: "string \<Rightarrow> bool" where
  "one_line l \<equiv> CHR 0x0A \<notin> set l"

lemma text_lines_line: "one_line l \<Longrightarrow> text_lines (l @ newline @ s) = l # text_lines s"
  by (induction l) (auto simp: newline_def)

lemma text_lines_unlines: "list_all one_line ls \<Longrightarrow> text_lines (unlines ls) = ls @ [[]]"
  by (induction ls) (simp_all add: text_lines_line)

lemma digit_char_line: "d < 10 \<Longrightarrow> digit_char d \<noteq> CHR 0x0A"
  using digit_char_is_digit [of d] by (auto simp: is_digit_def)

lemma show_int_line [simp]: "one_line (show_int i)"
proof -
  have "list_all is_digit (show_nat n)" for n using show_nat_digits by blast
  moreover have "\<not> is_digit (CHR 0x0A)" by (simp add: is_digit_def)
  ultimately have "one_line (show_nat n)" for n by (metis list_all_iff)
  then show ?thesis by (auto simp: show_int_def)
qed

declare quote_line [simp]

text \<open>The lines of the configuration.\<close>

definition cluster_lines :: "backend_cluster \<Rightarrow> string list" where
  "cluster_lines c = [[], ''[[proxy.backend-clusters]]'', ''name = '' @ quote (bc_Name c),
     ''pd-addrs = '' @ quote (bc_PDAddrs c)] @
     (if bc_NSServers c \<noteq> [] then [''ns-servers = '' @ quote (bc_NSServers c)] else [])"

definition config_lines :: "string \<Rightarrow> int \<Rightarrow> int \<times> int \<Rightarrow> backend_cluster list \<Rightarrow> string list" where
  "config_lines listenHost apiPort ports clusters =
     [''[proxy]'', ''addr = '' @ quote (listenHost @ '':'' @ show_int (fst ports)),
      ''port-range = ['' @ show_int (fst ports) @ '', '' @ show_int (snd ports) @ '']''] @
     (if clusters = [] then [''backend-clusters = []''] else concat (map cluster_lines clusters)) @
     [[], ''[balance]'', ''routing-rule = '' @ quote ''port'', [], ''[api]'',
      ''addr = '' @ quote (''0.0.0.0:'' @ show_int apiPort)]"

lemma cluster_text_lines: "cluster_text c = unlines (cluster_lines c)"
  by (simp add: cluster_text_def cluster_lines_def)

lemma config_text_lines: "config_text h a r cs = unlines (config_lines h a r cs)"
proof -
  have "concat (map cluster_text cs) = unlines (concat (map cluster_lines cs))"
    by (induction cs) (simp_all add: cluster_text_lines)
  then show ?thesis by (simp add: config_text_def config_lines_def)
qed

lemma config_one_line: "list_all one_line (config_lines h a r cs)"
proof -
  have "list_all one_line (cluster_lines c)" for c by (simp add: cluster_lines_def)
  then have "list_all one_line (concat (map cluster_lines cs))" by (induction cs) simp_all
  then show ?thesis by (simp add: config_lines_def)
qed

text \<open>The quoted value of a line \<open>key = "value"\<close>.\<close>

definition value_of :: "string \<Rightarrow> string \<Rightarrow> string option" where
  "value_of key l = (if prefix (key @ '' = '') l then unquote (drop (length key + 3) l) else None)"

definition values_of :: "string \<Rightarrow> string \<Rightarrow> string list" where
  "values_of key text = List.map_filter (value_of key) (text_lines text)"

lemma value_of_line: "value_of key (key @ '' = '' @ quote v) = Some v"
  by (simp add: value_of_def unquote_quote)

lemma map_filter_append: "List.map_filter f (xs @ ys) = List.map_filter f xs @ List.map_filter f ys"
  by (simp add: List.map_filter_def)

lemma map_filter_concat: "List.map_filter f (concat xss) = concat (map (List.map_filter f) xss)"
  by (induction xss) (simp_all add: map_filter_append map_filter_simps)

lemma values_of_config:
  "values_of key (config_text h a r cs) = List.map_filter (value_of key) (config_lines h a r cs @ [[]])"
  by (simp add: values_of_def config_text_lines text_lines_unlines config_one_line)

text \<open>The three parts of the text.\<close>

lemma values_of_parts:
  "values_of key (config_text h a r cs) =
     List.map_filter (value_of key) [''[proxy]'', ''addr = '' @ quote (h @ '':'' @ show_int (fst r)),
      ''port-range = ['' @ show_int (fst r) @ '', '' @ show_int (snd r) @ '']''] @
     (if cs = [] then List.map_filter (value_of key) [''backend-clusters = []'']
      else concat (map (\<lambda>c. List.map_filter (value_of key) (cluster_lines c)) cs)) @
     List.map_filter (value_of key) [[], ''[balance]'', ''routing-rule = '' @ quote ''port'', [], ''[api]'',
      ''addr = '' @ quote (''0.0.0.0:'' @ show_int a), []]"
    (is "_ = List.map_filter _ ?a @ _ @ List.map_filter _ ?b")
proof -
  have "config_lines h a r cs @ [[]] =
      ?a @ (if cs = [] then [''backend-clusters = []''] else concat (map cluster_lines cs)) @ ?b"
    by (simp only: config_lines_def append_assoc append_Cons append_Nil)
  then show ?thesis
    by (cases "cs = []")
      (simp_all only: values_of_config map_filter_append map_filter_concat map_map comp_def simp_thms if_True if_False)
qed

lemma config_names: "values_of ''name'' (config_text h a r cs) = map bc_Name cs"
proof -
  have "List.map_filter (value_of ''name'') (cluster_lines c) = [bc_Name c]" for c
    using value_of_line [of "''name''" "bc_Name c"]
    by (simp add: cluster_lines_def map_filter_simps value_of_def)
  then show ?thesis
    by (auto simp: values_of_parts map_filter_simps value_of_def)
qed

lemma config_pd_addrs: "values_of ''pd-addrs'' (config_text h a r cs) = map bc_PDAddrs cs"
proof -
  have "List.map_filter (value_of ''pd-addrs'') (cluster_lines c) = [bc_PDAddrs c]" for c
    using value_of_line [of "''pd-addrs''" "bc_PDAddrs c"]
    by (simp add: cluster_lines_def map_filter_simps value_of_def)
  then show ?thesis
    by (auto simp: values_of_parts map_filter_simps value_of_def)
qed

lemma config_addrs:
  "values_of ''addr'' (config_text h a r cs) = [h @ '':'' @ show_int (fst r), ''0.0.0.0:'' @ show_int a]"
proof -
  have "List.map_filter (value_of ''addr'') (cluster_lines c) = []" for c
    by (simp add: cluster_lines_def map_filter_simps value_of_def)
  then show ?thesis
    using value_of_line [of "''addr''" "h @ '':'' @ show_int (fst r)"]
      value_of_line [of "''addr''" "''0.0.0.0:'' @ show_int a"]
    by (auto simp: values_of_parts map_filter_simps value_of_def)
qed

lemma BuildTiProxyConfig_iff:
  "BuildTiProxyConfig opts = Inr cfg \<longleftrightarrow> 0 \<le> opt_APIPort opts \<and> renderable (opt_ResolvedLinks opts) \<and>
     cfg = config_text (listen_host opts) (effective_api_port opts) (listen_range opts)
       (sort_key bc_Name (map cluster_of (opt_ResolvedLinks opts)))"
  by (auto simp: BuildTiProxyConfig_def Let_def rbind_Inr_iff buildBackendClusters_iff effective_api_port_def)

lemma map_sort_key: "map f (sort_key f xs) = sort (map f xs)"
  by (rule properties_for_sort [symmetric]) simp_all

lemma listen_range_mset:
  "mset links' = mset (opt_ResolvedLinks opts) \<Longrightarrow>
     listen_range (opts\<lparr>opt_ResolvedLinks := links'\<rparr>) = listen_range opts"
  by (simp add: listen_range_def Let_def split_def inferPortRange_mset [of links' "opt_ResolvedLinks opts"])

section \<open>Properties\<close>

definition sample_resolved :: "string \<Rightarrow> string \<Rightarrow> int \<Rightarrow> resolved_link_status" where
  "sample_resolved name pd port = \<lparr>rl_UID = name, rl_Name = name, rl_Namespace = ''ns'',
     rl_RouteNamespace = name, rl_FrontendUser = [], rl_Port = port, rl_ClusterName = [],
     rl_PDAddresses = [pd], rl_NSServerAddr = [], rl_TLSSecretRef = None, rl_ConfigHash = []\<rparr>"

definition sample_options :: render_options where
  "sample_options = \<lparr>opt_ResolvedLinks = [sample_resolved ''b'' ''pd-b:2379'' 10001,
       sample_resolved ''a'' ''pd-a:2379'' 10000],
     opt_APIPort = 0, opt_ListenHost = [], opt_PortRangeStart = 10000, opt_PortRangeEnd = 10010,
     opt_DefaultListenPort = 10000\<rparr>"

lemma sample_renderable: "renderable (opt_ResolvedLinks sample_options)"
  by code_simp

text \<open>A cluster name with a quote, a line break, a byte that is not UTF-8 and a no-break space in it.\<close>

definition awkward_name :: string where
  "awkward_name = [CHR ''a'', CHR 0x22, CHR 0x0A, CHR 0xFF, CHR 0xC2, CHR 0xA0, CHR ''b'']"

definition awkward_options :: render_options where
  "awkward_options = sample_options\<lparr>opt_ResolvedLinks := [
     (sample_resolved ''b'' ''pd-b:2379'' 10001)\<lparr>rl_ClusterName := awkward_name\<rparr>,
     sample_resolved ''a'' ''pd-a:2379'' 10000]\<rparr>"

text \<open>
  C28: Rendering succeeds exactly when the API port is not negative, every link has a positive port and
  a PD address that is not blank, and the names of the clusters are pairwise different.
\<close>

theorem BuildTiProxyConfig_succeeds_iff:
  "is_ok (BuildTiProxyConfig opts) \<longleftrightarrow> 0 \<le> opt_APIPort opts \<and>
     (\<forall>l \<in> set (opt_ResolvedLinks opts). 0 < rl_Port l \<and> (\<exists>a \<in> set (rl_PDAddresses l). \<not> blank a)) \<and>
     distinct (map ClusterName (opt_ResolvedLinks opts))"
proof -
  have "pd_addresses l \<noteq> [] \<longleftrightarrow> (\<exists>a \<in> set (rl_PDAddresses l). \<not> blank a)" for l
    by (auto simp: pd_addresses_def filter_empty_conv)
  then show ?thesis by (auto simp: is_ok_iff BuildTiProxyConfig_iff renderable_def)
qed

theorem BuildTiProxyConfig_succeeds_iff_witness: "is_ok (BuildTiProxyConfig sample_options)"
  unfolding BuildTiProxyConfig_succeeds_iff by code_simp

text \<open>
  C29: The rendered text, and so the hash by which an agent notices changes, depends only on which links
  there are and not on their order.
\<close>

theorem BuildTiProxyConfig_order_independent:
  assumes "is_ok (BuildTiProxyConfig opts)" "mset links = mset (opt_ResolvedLinks opts)"
  shows "BuildTiProxyConfig (opts\<lparr>opt_ResolvedLinks := links\<rparr>) = BuildTiProxyConfig opts"
proof -
  from assms(1) obtain cfg where cfg: "BuildTiProxyConfig opts = Inr cfg" by (auto simp: is_ok_iff)
  then have r: "renderable (opt_ResolvedLinks opts)" by (simp add: BuildTiProxyConfig_iff)
  have "BuildTiProxyConfig (opts\<lparr>opt_ResolvedLinks := links\<rparr>) = Inr cfg"
    using cfg renderable_mset [OF assms(2)] sorted_clusters_mset [OF r assms(2)] listen_range_mset [OF assms(2)]
    by (simp add: BuildTiProxyConfig_iff listen_host_def effective_api_port_def)
  then show ?thesis by (simp only: cfg)
qed

theorem BuildTiProxyConfig_order_independent_witness:
  "BuildTiProxyConfig (sample_options\<lparr>opt_ResolvedLinks := rev (opt_ResolvedLinks sample_options)\<rparr>) =
     BuildTiProxyConfig sample_options"
proof (rule BuildTiProxyConfig_order_independent)
  show "is_ok (BuildTiProxyConfig sample_options)"
    using sample_renderable by (auto simp: is_ok_iff BuildTiProxyConfig_iff sample_options_def)
qed simp

text \<open>
  C30: Round trip. Reading the rendered text line by line, and each quoted value as \<^verbatim>\<open>strconv.Unquote\<close> does,
  gives back the sorted cluster names, the PD addresses of the clusters in that order, and the two listening
  addresses, and nothing else under these keys: whatever bytes the names contain, they cannot add a line.
\<close>

theorem BuildTiProxyConfig_reads_back:
  assumes "BuildTiProxyConfig opts = Inr cfg"
  shows "values_of ''name'' cfg = sort (map ClusterName (opt_ResolvedLinks opts)) \<and>
    values_of ''pd-addrs'' cfg = map bc_PDAddrs (sort_key bc_Name (map cluster_of (opt_ResolvedLinks opts))) \<and>
    values_of ''addr'' cfg = [listen_host opts @ '':'' @ show_int (fst (listen_range opts)),
      ''0.0.0.0:'' @ show_int (effective_api_port opts)]"
  using assms by (simp add: BuildTiProxyConfig_iff config_names config_pd_addrs config_addrs map_sort_key comp_def)

theorem BuildTiProxyConfig_reads_back_witness:
  "\<exists>cfg. BuildTiProxyConfig awkward_options = Inr cfg \<and> values_of ''name'' cfg = [awkward_name, ''ns.a'']"
proof -
  have "sort (map ClusterName (opt_ResolvedLinks awkward_options)) = [awkward_name, ''ns.a'']"
    "renderable (opt_ResolvedLinks awkward_options)" by code_simp+
  moreover from this(2) obtain cfg where "BuildTiProxyConfig awkward_options = Inr cfg"
    by (auto simp: BuildTiProxyConfig_iff awkward_options_def sample_options_def)
  ultimately show ?thesis using BuildTiProxyConfig_reads_back by metis
qed

end
