(* ===== verification/Agent_Env.thy ===== *)
theory Agent_Env
  imports Api_Types
begin

text \<open>
  The surroundings of the machine agent as parameters: the Kubernetes client and \<^verbatim>\<open>RetryOnConflict\<close>, the
  Docker API, HTTP and the file system. Each operation takes an environment \<open>'w\<close> and returns the next
  one. What theorems need of them is stated as named predicates.

  On top of them: \<^verbatim>\<open>internal/agent/docker/runner.go\<close> and \<^verbatim>\<open>internal/agent/imds/imds.go\<close>.
\<close>

section \<open>The environment\<close>

record container_state =
  ctr_Running :: bool
  ctr_Restarting :: bool

record container_config =
  ctr_Name :: string
  ctr_Image :: string
  ctr_Entrypoint :: "string list"
  ctr_Cmd :: "string list"
  ctr_Binds :: "string list"
  ctr_NetworkMode :: string
  ctr_RestartPolicy :: string

record http_request =
  hr_Method :: string
  hr_URL :: string
  hr_Headers :: "(string \<times> string) list"
  hr_Body :: string

record http_response =
  hs_StatusCode :: int
  hs_Body :: string
  hs_ReadError :: "go_error option"

record 'w agent_env =
  ae_get_group :: "namespaced_name \<Rightarrow> 'w \<Rightarrow> machine_group result \<times> 'w"
  ae_patch_status :: "machine_group \<Rightarrow> machine_group \<Rightarrow> 'w act"
  ae_is_not_found :: "go_error \<Rightarrow> bool"
  ae_retry :: "'w act \<Rightarrow> 'w act"
  ae_now :: "'w \<Rightarrow> time"
  ae_new_docker :: "string \<Rightarrow> 'w act"
  ae_inspect :: "string \<Rightarrow> 'w \<Rightarrow> container_state option result \<times> 'w"
  ae_docker_not_found :: "go_error \<Rightarrow> bool"
  ae_pull :: "string \<Rightarrow> 'w act"
  ae_drain :: "string \<Rightarrow> 'w act"
  ae_remove :: "string \<Rightarrow> 'w act"
  ae_create :: "container_config \<Rightarrow> 'w \<Rightarrow> string result \<times> 'w"
  ae_start :: "string \<Rightarrow> 'w act"
  ae_request_error :: "http_request \<Rightarrow> go_error option"
  ae_http :: "http_request \<Rightarrow> 'w \<Rightarrow> http_response result \<times> 'w"
  ae_mkdir_parents :: "string \<Rightarrow> 'w act"
  ae_read_file :: "string \<Rightarrow> 'w \<Rightarrow> string result"
  ae_write_file :: "string \<Rightarrow> string \<Rightarrow> 'w act"
  ae_getenv :: "string \<Rightarrow> string"
  ae_hostname :: "string result"

text \<open>
  The documentation of \<^verbatim>\<open>retry.RetryOnConflict\<close>: the function is run at least once, again after some of
  the runs that return an error, and the result is that of the last run.
\<close>

inductive attempts :: "'w act \<Rightarrow> 'w \<Rightarrow> go_error option \<times> 'w \<Rightarrow> bool" for f :: "'w act" where
  last_run: "attempts f w (f w)"
| run_again: "f w = (Some e, w') \<Longrightarrow> attempts f w' res \<Longrightarrow> attempts f w res"

definition retry_law :: "'w agent_env \<Rightarrow> bool" where
  "retry_law E \<longleftrightarrow> (\<forall>f w. attempts f w (ae_retry E f w))"

text \<open>
  What the agent process keeps between calls: the hash of the last configuration it applied, and the
  result of creating the Docker client, which \<^verbatim>\<open>sync.Once\<close> does at most once.
\<close>

record 'w machine =
  mc_lastConfigHash :: string
  mc_docker :: "go_error option option"
  mc_world :: 'w

definition lift_world :: "('w \<Rightarrow> 'r \<times> 'w) \<Rightarrow> 'w machine \<Rightarrow> 'r \<times> 'w machine" where
  "lift_world f m = (case f (mc_world m) of (r, w) \<Rightarrow> (r, m\<lparr>mc_world := w\<rparr>))"

lemma lift_world_fields:
  assumes "lift_world f m = (r, m')"
  shows "mc_lastConfigHash m' = mc_lastConfigHash m" "mc_docker m' = mc_docker m"
    "f (mc_world m) = (r, mc_world m')"
  using assms by (auto simp: lift_world_def split: prod.splits)

section \<open>The Docker runner\<close>

record start_options =
  so_Name :: string
  so_Image :: string
  so_ConfigPath :: string
  so_CertDir :: string
  so_ExtraArgs :: "string list"

definition getClient :: "'w agent_env \<Rightarrow> string \<Rightarrow> 'w machine act" where
  "getClient E host m =
     (case mc_docker m of
        Some initErr \<Rightarrow> (initErr, m)
      | None \<Rightarrow> (case lift_world (ae_new_docker E host) m of
          (initErr, m) \<Rightarrow> (initErr, m\<lparr>mc_docker := Some initErr\<rparr>)))"

definition IsRunning :: "'w agent_env \<Rightarrow> string \<Rightarrow> string \<Rightarrow> 'w machine \<Rightarrow> bool result \<times> 'w machine" where
  "IsRunning E host name m =
     (if name = [] then (Inl (errorf ''container name is required''), m)
      else (case getClient E host m of
          (Some e, m) \<Rightarrow> (Inl e, m)
        | (None, m) \<Rightarrow>
            (case lift_world (ae_inspect E name) m of
               (Inl e, m) \<Rightarrow> if ae_docker_not_found E e then (Inr False, m) else (Inl e, m)
             | (Inr None, m) \<Rightarrow> (Inr False, m)
             | (Inr (Some s), m) \<Rightarrow> (Inr (ctr_Running s \<and> \<not> ctr_Restarting s), m))))"

definition container_for :: "start_options \<Rightarrow> container_config" where
  "container_for opts = \<lparr>ctr_Name = so_Name opts, ctr_Image = so_Image opts,
     ctr_Entrypoint = [''/bin/tiproxy''],
     ctr_Cmd = [''--config'', ''/etc/tiproxy/tiproxy.toml''] @ so_ExtraArgs opts,
     ctr_Binds = (so_ConfigPath opts @ '':/etc/tiproxy/tiproxy.toml:ro'') #
       (if so_CertDir opts \<noteq> [] then [so_CertDir opts @ '':/etc/tiproxy/certs:ro''] else []),
     ctr_NetworkMode = ''host'', ctr_RestartPolicy = ''unless-stopped''\<rparr>"

definition Start :: "'w agent_env \<Rightarrow> string \<Rightarrow> start_options \<Rightarrow> 'w machine act" where
  "Start E host opts m =
     (if so_Name opts = [] then (Some (errorf ''container name is required''), m)
      else if so_Image opts = [] then (Some (errorf ''image is required''), m)
      else if so_ConfigPath opts = [] then (Some (errorf ''config path is required''), m)
      else (case getClient E host m of
        (Some e, m) \<Rightarrow> (Some e, m)
      | (None, m) \<Rightarrow>
        (case lift_world (ae_pull E (so_Image opts)) m of
          (Some e, m) \<Rightarrow> (Some (wrap_error (''docker pull '' @ so_Image opts @ '' failed'') e), m)
        | (None, m) \<Rightarrow>
          (case lift_world (ae_drain E (so_Image opts)) m of
            (Some e, m) \<Rightarrow> (Some (wrap_error ''drain image pull output'' e), m)
          | (None, m) \<Rightarrow>
            (case lift_world (ae_remove E (so_Name opts)) m of (removeErr, m) \<Rightarrow>
              (if (case removeErr of None \<Rightarrow> False | Some e \<Rightarrow> \<not> ae_docker_not_found E e)
               then (Some (wrap_error (''docker rm '' @ so_Name opts @ '' failed'') (the removeErr)), m)
               else (case lift_world (ae_create E (container_for opts)) m of
                   (Inl e, m) \<Rightarrow> (Some (wrap_error ''docker create failed'' e), m)
                 | (Inr ctrID, m) \<Rightarrow>
                     (case lift_world (ae_start E ctrID) m of
                        (Some e, m) \<Rightarrow> (Some (wrap_error ''docker start failed'' e), m)
                      | (None, m) \<Rightarrow> (None, m)))))))))"

section \<open>The identity of the machine\<close>

definition metadataAddr :: string where
  "metadataAddr = ''http://169.254.169.254''"

definition success_code :: "int \<Rightarrow> bool" where
  "success_code c \<longleftrightarrow> 200 \<le> c \<and> c < 300"

text \<open>A response body read through \<^verbatim>\<open>io.LimitReader(_, 4096)\<close>.\<close>

definition limited_body :: "http_response \<Rightarrow> string" where
  "limited_body resp = take 4096 (hs_Body resp)"

definition metadata_token :: "http_response result \<Rightarrow> string" where
  "metadata_token resp = (case resp of
      Inl _ \<Rightarrow> []
    | Inr resp \<Rightarrow> if success_code (hs_StatusCode resp) then trim_space (limited_body resp) else [])"

definition token_request :: http_request where
  "token_request = \<lparr>hr_Method = ''PUT'', hr_URL = metadataAddr @ ''/latest/api/token'',
     hr_Headers = [(''X-aws-ec2-metadata-token-ttl-seconds'', ''60'')], hr_Body = []\<rparr>"

definition identity_request :: "string \<Rightarrow> http_request" where
  "identity_request token = \<lparr>hr_Method = ''GET'', hr_URL = metadataAddr @ ''/latest/meta-data/instance-id'',
     hr_Headers = (if token \<noteq> [] then [(''X-aws-ec2-metadata-token'', token)] else []), hr_Body = []\<rparr>"

definition queryInstanceID :: "'w agent_env \<Rightarrow> 'w \<Rightarrow> string result \<times> 'w" where
  "queryInstanceID E w =
     (case ae_request_error E token_request of
        Some e \<Rightarrow> (Inl e, w)
      | None \<Rightarrow>
        (case ae_http E token_request w of (tokenResp, w) \<Rightarrow>
          (let idReq = identity_request (metadata_token tokenResp) in
           case ae_request_error E idReq of
             Some e \<Rightarrow> (Inl e, w)
           | None \<Rightarrow>
             (case ae_http E idReq w of
                (Inl e, w) \<Rightarrow> (Inl e, w)
              | (Inr resp, w) \<Rightarrow>
                  (case hs_ReadError resp of
                     Some e \<Rightarrow> (Inl e, w)
                   | None \<Rightarrow>
                       if \<not> success_code (hs_StatusCode resp)
                       then (Inl (errorf ''metadata server returned non-success status''), w)
                       else (Inr (trim_space (limited_body resp)), w))))))"

definition ResolveMachineID :: "'w agent_env \<Rightarrow> string \<Rightarrow> 'w \<Rightarrow> string \<times> 'w" where
  "ResolveMachineID E explicit w =
     (if explicit \<noteq> [] then (explicit, w)
      else if ae_getenv E ''TIPROXY_MACHINE_ID'' \<noteq> [] then (ae_getenv E ''TIPROXY_MACHINE_ID'', w)
      else (case queryInstanceID E w of (found, w) \<Rightarrow>
        (if (case found of Inl _ \<Rightarrow> False | Inr machineID \<Rightarrow> machineID \<noteq> []) then (projr found, w)
         else (case ae_hostname E of
             Inr host \<Rightarrow> if host \<noteq> [] then (host, w) else (''unknown-machine'', w)
           | Inl _ \<Rightarrow> (''unknown-machine'', w)))))"

definition getenv :: "'w agent_env \<Rightarrow> string \<Rightarrow> string \<Rightarrow> string" where
  "getenv E key fallback = (if ae_getenv E key \<noteq> [] then ae_getenv E key else fallback)"

lemma ResolveMachineID_nonempty: "fst (ResolveMachineID E explicit w) \<noteq> []"
  by (auto simp: ResolveMachineID_def split: prod.split sum.split)

end
