(* ===== verification/Agent.thy ===== *)
theory Agent
  imports Agent_Env Tiproxy_Config
begin

text \<open>
  \<^verbatim>\<open>internal/agent/agent.go\<close>: the agent of one machine. \<open>syncOnce\<close> renders the configuration of the group,
  writes it, starts TiProxy or pushes the configuration to it, and reports the machine's status;
  \<open>run_events\<close> is the loop of \<^verbatim>\<open>Run\<close> over the sequence of ticks and the final cancellation.
\<close>

section \<open>Settings\<close>

record agent =
  ag_Namespace :: string
  ag_MachineGroup :: string
  ag_MachineID :: string
  ag_SyncPeriod :: int
  ag_DefaultImage :: string
  ag_DockerHost :: string

record runtime_settings =
  set_image :: string
  set_containerName :: string
  set_configPath :: string
  set_certDir :: string
  set_listenHost :: string
  set_apiPort :: int
  set_apiBaseURL :: string
  set_extraArgs :: "string list"

definition imageBase :: "string \<Rightarrow> string" where
  "imageBase img =
     (let trimmed = trim_space img in
      if trimmed = [] then ''pingcap/tiproxy''
      else
        (let lastSlash = last_index trimmed (CHR ''/''); lastColon = last_index trimmed (CHR '':'') in
         if lastColon > lastSlash then take (nat lastColon) trimmed else trimmed))"

definition resolveTiProxyImage :: "runtime_spec \<Rightarrow> string \<Rightarrow> string" where
  "resolveTiProxyImage spec fallback =
     (let img = trim_space (rt_Image spec) in
      if img \<noteq> [] then img
      else
        (let base = trim_space (rt_BaseImage spec); version = trim_space (rt_Version spec) in
         if base = [] \<and> version = [] then fallback
         else
           (let base = (if base = [] then imageBase fallback else base) in
            if version = [] then base else base @ '':'' @ version)))"

definition runtimeSettings :: "agent \<Rightarrow> machine_group \<Rightarrow> runtime_settings" where
  "runtimeSettings a mg =
     (let spec = sp_TiProxy (mg_Spec mg);
          img = resolveTiProxyImage spec (ag_DefaultImage a);
          apiPort = (if rt_APIPort spec = 0 then 3080 else rt_APIPort spec);
          scheme = (if rt_APIScheme spec = [] then ''http'' else rt_APIScheme spec)
      in \<lparr>set_image = (if img = [] then ag_DefaultImage a else img),
          set_containerName = (if rt_ContainerName spec = [] then ''tiproxy'' else rt_ContainerName spec),
          set_configPath = (if rt_ConfigPath spec = []
             then ''/var/lib/tiproxy-machine-agent/tiproxy.toml'' else rt_ConfigPath spec),
          set_certDir = rt_CertDir spec, set_listenHost = ''0.0.0.0'', set_apiPort = apiPort,
          set_apiBaseURL = scheme @ ''://127.0.0.1:'' @ show_int apiPort,
          set_extraArgs = rt_ExtraArgs spec\<rparr>)"

definition render_options_for :: "runtime_settings \<Rightarrow> machine_group \<Rightarrow> render_options" where
  "render_options_for s mg = \<lparr>opt_ResolvedLinks = st_ResolvedLinks (mg_Status mg),
     opt_APIPort = set_apiPort s, opt_ListenHost = set_listenHost s,
     opt_PortRangeStart = range_start (sp_PortRange (mg_Spec mg)),
     opt_PortRangeEnd = range_end (sp_PortRange (mg_Spec mg)),
     opt_DefaultListenPort = range_start (sp_PortRange (mg_Spec mg))\<rparr>"

section \<open>The configuration file and the API of TiProxy\<close>

definition writeConfigFile :: "'w agent_env \<Rightarrow> string \<Rightarrow> string \<Rightarrow> 'w machine act" where
  "writeConfigFile E path content m =
     (if path = [] then (Some (errorf ''empty config path''), m)
      else (case lift_world (ae_mkdir_parents E path) m of
          (Some e, m) \<Rightarrow> (Some e, m)
        | (None, m) \<Rightarrow>
            if ae_read_file E path (mc_world m) = Inr content then (None, m)
            else lift_world (ae_write_file E path content) m))"

definition config_request :: "string \<Rightarrow> string \<Rightarrow> http_request" where
  "config_request apiBaseURL cfg = \<lparr>hr_Method = ''PUT'',
     hr_URL = trim_right_char (CHR ''/'') apiBaseURL @ ''/api/admin/config'',
     hr_Headers = [(''Content-Type'', ''application/toml'')], hr_Body = cfg\<rparr>"

definition pushConfig :: "'w agent_env \<Rightarrow> string \<Rightarrow> string \<Rightarrow> 'w machine act" where
  "pushConfig E apiBaseURL cfg m =
     (case ae_request_error E (config_request apiBaseURL cfg) of
        Some e \<Rightarrow> (Some e, m)
      | None \<Rightarrow>
        (case lift_world (ae_http E (config_request apiBaseURL cfg)) m of
           (Inl e, m) \<Rightarrow> (Some e, m)
         | (Inr resp, m) \<Rightarrow>
             if hs_StatusCode resp < 200 \<or> hs_StatusCode resp \<ge> 300
             then (Some (errorf (''config api status='' @ show_int (hs_StatusCode resp) @ '' body='' @
                    trim_space (limited_body resp))), m)
             else (None, m)))"

section \<open>The status of the machine\<close>

definition group_name :: "agent \<Rightarrow> namespaced_name" where
  "group_name a = \<lparr>nn_namespace = ag_Namespace a, nn_name = ag_MachineGroup a\<rparr>"

definition set_machines :: "(string, machine_status) gomap option \<Rightarrow> machine_group \<Rightarrow> machine_group" where
  "set_machines ms mg = mg\<lparr>mg_Status := (mg_Status mg)\<lparr>st_Machines := ms\<rparr>\<rparr>"

definition stored_machines :: "machine_group \<Rightarrow> (string, machine_status) gomap" where
  "stored_machines mg = (case st_Machines (mg_Status mg) of None \<Rightarrow> [] | Some ms \<Rightarrow> ms)"

definition with_machine :: "string \<Rightarrow> machine_status \<Rightarrow> machine_group \<Rightarrow> machine_group" where
  "with_machine machineID s mg = set_machines (Some (AList.update machineID s (stored_machines mg))) mg"

definition upsert_attempt ::
  "'w agent_env \<Rightarrow> agent \<Rightarrow> string \<Rightarrow> string \<Rightarrow> string \<Rightarrow> string \<Rightarrow> 'w act" where
  "upsert_attempt E a phase img cfgHash message w =
     (case ae_get_group E (group_name a) w of
        (Inl e, w) \<Rightarrow> (Some e, w)
      | (Inr mg, w) \<Rightarrow>
          (let statusBase = mg;
               status = \<lparr>mst_ObservedGeneration = meta_generation (mg_meta mg),
                 mst_LastHeartbeatTime = ae_now E w, mst_Phase = phase, mst_ConfigHash = cfgHash,
                 mst_TiProxyImage = img, mst_Message = message\<rparr>
           in ae_patch_status E statusBase (with_machine (ag_MachineID a) status mg) w))"

definition upsertMachineStatus ::
  "'w agent_env \<Rightarrow> agent \<Rightarrow> string \<Rightarrow> string \<Rightarrow> string \<Rightarrow> string \<Rightarrow> 'w machine act" where
  "upsertMachineStatus E a phase img cfgHash message =
     lift_world (ae_retry E (upsert_attempt E a phase img cfgHash message))"

definition without_machine :: "string \<Rightarrow> machine_group \<Rightarrow> machine_group" where
  "without_machine machineID mg =
     (let ms = AList.delete machineID (stored_machines mg)
      in set_machines (if ms = [] then None else Some ms) mg)"

definition remove_attempt :: "'w agent_env \<Rightarrow> agent \<Rightarrow> 'w act" where
  "remove_attempt E a w =
     (case ae_get_group E (group_name a) w of
        (Inl e, w) \<Rightarrow> if ae_is_not_found E e then (None, w) else (Some e, w)
      | (Inr mg, w) \<Rightarrow>
          if st_Machines (mg_Status mg) = None then (None, w)
          else if map_of (stored_machines mg) (ag_MachineID a) = None then (None, w)
          else ae_patch_status E mg (without_machine (ag_MachineID a) mg) w)"

definition removeMachineStatus :: "'w agent_env \<Rightarrow> agent \<Rightarrow> 'w machine act" where
  "removeMachineStatus E a m =
     (if ag_MachineGroup a = [] \<or> ag_MachineID a = [] then (None, m)
      else lift_world (ae_retry E (remove_attempt E a)) m)"

section \<open>One synchronisation\<close>

text \<open>An exit of \<open>syncOnce\<close>: the machine is reported failed, the error of the report is dropped.\<close>

definition fail_sync ::
  "'w agent_env \<Rightarrow> agent \<Rightarrow> string \<Rightarrow> string \<Rightarrow> go_error \<Rightarrow> 'w machine act" where
  "fail_sync E a img cfgHash e m =
     (Some e, snd (upsertMachineStatus E a MachinePhaseFailed img cfgHash (err_text e) m))"

text \<open>From the written configuration on; \<open>running\<close> is the answer of Docker.\<close>

definition start_options_for :: "runtime_settings \<Rightarrow> start_options" where
  "start_options_for s = \<lparr>so_Name = set_containerName s, so_Image = set_image s,
     so_ConfigPath = set_configPath s, so_CertDir = set_certDir s, so_ExtraArgs = set_extraArgs s\<rparr>"

definition apply_config ::
  "'w agent_env \<Rightarrow> agent \<Rightarrow> runtime_settings \<Rightarrow> string \<Rightarrow> string \<Rightarrow> bool \<Rightarrow> 'w machine act" where
  "apply_config E a settings cfg cfgHash running m =
     (case (if running then (None, m)
            else Start E (ag_DockerHost a) (start_options_for settings) m) of
        (Some e, m) \<Rightarrow> fail_sync E a (set_image settings) cfgHash e m
      | (None, m) \<Rightarrow>
          (let justStarted = \<not> running in
           case (if \<not> justStarted \<and> cfgHash \<noteq> mc_lastConfigHash m
                 then pushConfig E (set_apiBaseURL settings) cfg m else (None, m)) of
             (Some e, m) \<Rightarrow> fail_sync E a (set_image settings) cfgHash e m
           | (None, m) \<Rightarrow>
               (let m = m\<lparr>mc_lastConfigHash := cfgHash\<rparr>;
                    (phase, message) = (if justStarted
                      then (MachinePhaseStarting, ''tiproxy container started with rendered config'')
                      else (MachinePhaseRunning, ''tiproxy is running''))
                in upsertMachineStatus E a phase (set_image settings) cfgHash message m)))"

definition syncOnce :: "'w agent_env \<Rightarrow> agent \<Rightarrow> 'w machine act" where
  "syncOnce E a m =
     (if ag_MachineGroup a = [] then (Some (errorf ''machine group is required''), m)
      else if ag_MachineID a = [] then (Some (errorf ''machine id is required''), m)
      else (case lift_world (ae_get_group E (group_name a)) m of
        (Inl e, m) \<Rightarrow> (Some e, m)
      | (Inr mg, m) \<Rightarrow>
          (let settings = runtimeSettings a mg in
           case BuildTiProxyConfig (render_options_for settings mg) of
             Inl e \<Rightarrow> fail_sync E a (set_image settings) [] e m
           | Inr cfg \<Rightarrow>
               (let cfgHash = HashBytes cfg in
                case writeConfigFile E (set_configPath settings) cfg m of
                  (Some e, m) \<Rightarrow> fail_sync E a (set_image settings) cfgHash e m
                | (None, m) \<Rightarrow>
                    (case IsRunning E (ag_DockerHost a) (set_containerName settings) m of
                       (Inl e, m) \<Rightarrow> fail_sync E a (set_image settings) cfgHash e m
                     | (Inr running, m) \<Rightarrow> apply_config E a settings cfg cfgHash running m)))))"

section \<open>The loop\<close>

text \<open>
  \<^verbatim>\<open>Run\<close>: the defaults, a first synchronisation, then one per tick until the context is done. The events
  are what the \<^verbatim>\<open>select\<close> receives, in order; \<open>None\<close> means that the loop still waits at their end.
\<close>

datatype run_event = Tick | CtxDone

definition with_defaults :: "agent \<Rightarrow> agent" where
  "with_defaults a = a\<lparr>
     ag_SyncPeriod := (if ag_SyncPeriod a \<le> 0 then 10000000000 else ag_SyncPeriod a),
     ag_Namespace := (if ag_Namespace a = [] then ''default'' else ag_Namespace a)\<rparr>"

definition runOnce :: "'w agent_env \<Rightarrow> agent \<Rightarrow> 'w machine \<Rightarrow> 'w machine" where
  "runOnce E a m = snd (syncOnce E a m)"

fun run_events :: "'w agent_env \<Rightarrow> agent \<Rightarrow> run_event list \<Rightarrow> 'w machine \<Rightarrow> 'w machine option" where
  "run_events E a [] m = None"
| "run_events E a (Tick # evs) m = run_events E a evs (runOnce E a m)"
| "run_events E a (CtxDone # evs) m = Some (snd (removeMachineStatus E a m))"

definition Run :: "'w agent_env \<Rightarrow> agent \<Rightarrow> run_event list \<Rightarrow> 'w machine \<Rightarrow> 'w machine option" where
  "Run E a evs m = (let a = with_defaults a in run_events E a evs (runOnce E a m))"

section \<open>What a synchronisation leaves in the process\<close>

lemma lift_hash: "lift_world f m = (x, m') \<Longrightarrow> mc_lastConfigHash m' = mc_lastConfigHash m"
  by (rule lift_world_fields)

lemma getClient_hash: "getClient E host m = (e, m') \<Longrightarrow> mc_lastConfigHash m' = mc_lastConfigHash m"
  by (auto simp: getClient_def dest: lift_hash split: option.splits prod.splits)

lemma IsRunning_hash: "IsRunning E host name m = (x, m') \<Longrightarrow> mc_lastConfigHash m' = mc_lastConfigHash m"
  by (fastforce simp: IsRunning_def dest: getClient_hash lift_hash
      split: if_splits option.splits prod.splits sum.splits)

lemma Start_hash: "Start E host opts m = (x, m') \<Longrightarrow> mc_lastConfigHash m' = mc_lastConfigHash m"
  unfolding Start_def
  by (auto dest!: getClient_hash lift_hash split: if_splits option.splits prod.splits sum.splits)

lemma pushConfig_hash: "pushConfig E url cfg m = (x, m') \<Longrightarrow> mc_lastConfigHash m' = mc_lastConfigHash m"
  by (auto simp: pushConfig_def dest!: lift_hash split: if_splits option.splits prod.splits sum.splits)

lemma writeConfigFile_hash:
  "writeConfigFile E path cfg m = (x, m') \<Longrightarrow> mc_lastConfigHash m' = mc_lastConfigHash m"
  by (auto simp: writeConfigFile_def dest!: lift_hash split: if_splits option.splits prod.splits)

lemma upsert_hash:
  "mc_lastConfigHash (snd (upsertMachineStatus E a phase img h msg m)) = mc_lastConfigHash m"
  by (simp add: upsertMachineStatus_def lift_world_def split: prod.split)

lemma upsert_hash_eq:
  "upsertMachineStatus E a phase img h msg m = (r, m') \<Longrightarrow> mc_lastConfigHash m' = mc_lastConfigHash m"
  unfolding upsertMachineStatus_def by (rule lift_hash)

lemma fail_sync_result [simp]:
  "fst (fail_sync E a img h e m) = Some e"
  "mc_lastConfigHash (snd (fail_sync E a img h e m)) = mc_lastConfigHash m"
  by (simp_all add: fail_sync_def upsert_hash)

text \<open>
  The configuration reaches TiProxy from the state \<open>m\<close> on: the container is started with the written
  file, or the running one accepts it over its API or had it already.
\<close>

definition delivers ::
  "'w agent_env \<Rightarrow> agent \<Rightarrow> runtime_settings \<Rightarrow> string \<Rightarrow> bool \<Rightarrow> 'w machine \<Rightarrow> bool" where
  "delivers E a s cfg running m \<longleftrightarrow>
     (if running
      then HashBytes cfg = mc_lastConfigHash m \<or> fst (pushConfig E (set_apiBaseURL s) cfg m) = None
      else fst (Start E (ag_DockerHost a) (start_options_for s) m) = None)"

lemma apply_config_cases:
  assumes "apply_config E a s cfg (HashBytes cfg) running m = (r, m')"
  shows "(\<exists>e. r = Some e) \<and> mc_lastConfigHash m' = mc_lastConfigHash m \<or>
    mc_lastConfigHash m' = HashBytes cfg \<and> delivers E a s cfg running m"
proof -
  let ?h = "HashBytes cfg"
  obtain e1 m1 where started: "(if running then (None, m)
      else Start E (ag_DockerHost a) (start_options_for s) m) = (e1, m1)" by (rule prod.exhaust)
  have h1: "mc_lastConfigHash m1 = mc_lastConfigHash m"
    using started Start_hash by (cases running) auto
  have failed: "(\<exists>e. r = Some e) \<and> mc_lastConfigHash m' = mc_lastConfigHash m"
    if "(r, m') = fail_sync E a (set_image s) ?h e mm" "mc_lastConfigHash mm = mc_lastConfigHash m" for e mm
    using that(2) fail_sync_result [of E a "set_image s" ?h e mm] unfolding that(1) [symmetric] by simp
  show ?thesis
  proof (cases e1)
    case (Some e)
    then have "(r, m') = fail_sync E a (set_image s) ?h e m1"
      using assms started unfolding apply_config_def by simp
    from failed [OF this h1] show ?thesis ..
  next
    case None
    obtain e2 m2 where pushed: "(if \<not> \<not> running \<and> ?h \<noteq> mc_lastConfigHash m1
        then pushConfig E (set_apiBaseURL s) cfg m1 else (None, m1)) = (e2, m2)" by (rule prod.exhaust)
    have h2: "mc_lastConfigHash m2 = mc_lastConfigHash m"
      using pushed h1 by (auto dest: pushConfig_hash split: if_splits)
    show ?thesis
    proof (cases e2)
      case (Some e)
      then have "(r, m') = fail_sync E a (set_image s) ?h e m2"
        using assms started \<open>e1 = None\<close> pushed unfolding apply_config_def Let_def by simp
      from failed [OF this h2] show ?thesis ..
    next
      case None
      then have "\<exists>ph msg. upsertMachineStatus E a ph (set_image s) ?h msg (m2\<lparr>mc_lastConfigHash := ?h\<rparr>) = (r, m')"
        using assms started \<open>e1 = None\<close> pushed unfolding apply_config_def Let_def
        by (simp split: prod.splits) blast
      then obtain ph msg where "upsertMachineStatus E a ph (set_image s) ?h msg (m2\<lparr>mc_lastConfigHash := ?h\<rparr>) = (r, m')"
        by blast
      from upsert_hash_eq [OF this] have "mc_lastConfigHash m' = ?h" by simp
      moreover have "delivers E a s cfg running m"
        using started pushed \<open>e1 = None\<close> None
        by (cases running; cases "?h = mc_lastConfigHash m") (simp_all add: delivers_def)
      ultimately show ?thesis by blast
    qed
  qed
qed

section \<open>Images\<close>

lemma takeWhile_pass:
  "c \<notin> set t \<Longrightarrow> takeWhile (\<lambda>x. x \<noteq> c) (rev t @ s) = rev t @ takeWhile (\<lambda>x. x \<noteq> c) s"
  by (rule takeWhile_append2) auto

lemma last_index_append:
  "c \<notin> set t \<Longrightarrow> last_index (s @ c # t) c = int (length s)"
  by (simp add: last_index_def takeWhile_pass)

lemma last_index_le: "c \<notin> set t \<Longrightarrow> last_index (s @ d # t) c \<le> int (length s)"
proof (cases "d = c")
  case True
  then show "c \<notin> set t \<Longrightarrow> ?thesis" using last_index_append [of c t s] by simp
next
  case False
  assume "c \<notin> set t"
  then have "takeWhile (\<lambda>x. x \<noteq> c) (rev (s @ d # t)) = rev t @ d # takeWhile (\<lambda>x. x \<noteq> c) (rev s)"
    using False by (simp add: takeWhile_pass)
  then show ?thesis by (simp add: last_index_def)
qed

lemma imageBase_tag:
  assumes "trim_space (base @ CHR '':'' # tag) = base @ CHR '':'' # tag" "CHR '':'' \<notin> set tag" "CHR ''/'' \<notin> set tag"
  shows "imageBase (base @ CHR '':'' # tag) = base"
proof -
  have "last_index (base @ CHR '':'' # tag) (CHR ''/'') \<le> int (length base)"
    using assms(3) by (rule last_index_le)
  moreover have "last_index (base @ CHR '':'' # tag) (CHR ''/'') \<noteq> int (length base)"
  proof (cases "CHR ''/'' \<in> set base")
    case False
    then show ?thesis using assms(3) by (simp add: last_index_def)
  next
    case True
    have "takeWhile (\<lambda>x. x \<noteq> CHR ''/'') (rev (base @ CHR '':'' # tag)) =
        rev tag @ CHR '':'' # takeWhile (\<lambda>x. x \<noteq> CHR ''/'') (rev base)"
      using assms(3) by (simp add: takeWhile_pass)
    then show ?thesis using True by (simp add: last_index_def)
  qed
  ultimately show ?thesis
    using assms(1) last_index_append [OF assms(2), of base] by (simp add: imageBase_def Let_def)
qed

section \<open>Properties\<close>

text \<open>
  C16: The agent remembers a configuration as applied only when it was. After any synchronisation either
  an error was returned and the remembered hash is unchanged, or the hash is that of the configuration
  rendered from the fetched group, this configuration was written to the file, and TiProxy was started
  with it, accepted it over the API, or was running with it before. A failed push or start is therefore
  repeated by the next synchronisation.
\<close>

theorem syncOnce_remembers_only_applied_config:
  "(\<exists>e. fst (syncOnce E a m) = Some e) \<and> mc_lastConfigHash (snd (syncOnce E a m)) = mc_lastConfigHash m \<or>
   (\<exists>mg m1 cfg m2 running m3.
      lift_world (ae_get_group E (group_name a)) m = (Inr mg, m1) \<and>
      BuildTiProxyConfig (render_options_for (runtimeSettings a mg) mg) = Inr cfg \<and>
      writeConfigFile E (set_configPath (runtimeSettings a mg)) cfg m1 = (None, m2) \<and>
      IsRunning E (ag_DockerHost a) (set_containerName (runtimeSettings a mg)) m2 = (Inr running, m3) \<and>
      delivers E a (runtimeSettings a mg) cfg running m3 \<and>
      mc_lastConfigHash (snd (syncOnce E a m)) = HashBytes cfg)"
    (is "?failed \<or> _")
proof (cases "ag_MachineGroup a = [] \<or> ag_MachineID a = []")
  case True
  then show ?thesis by (auto simp: syncOnce_def)
next
  case False
  obtain x m1 where get: "lift_world (ae_get_group E (group_name a)) m = (x, m1)" by (rule prod.exhaust)
  note h1 = lift_hash [OF get]
  show ?thesis
  proof (cases x)
    case (Inl e)
    then show ?thesis using False get h1 by (auto simp: syncOnce_def)
  next
    case (Inr mg)
    let ?s = "runtimeSettings a mg"
    show ?thesis
    proof (cases "BuildTiProxyConfig (render_options_for ?s mg)")
      case (Inl e)
      then have "syncOnce E a m = fail_sync E a (set_image ?s) [] e m1"
        using False get \<open>x = Inr mg\<close> unfolding syncOnce_def Let_def by simp
      then have ?failed using h1 by simp
      then show ?thesis ..
    next
      case (Inr cfg)
      obtain e2 m2 where wr: "writeConfigFile E (set_configPath ?s) cfg m1 = (e2, m2)" by (rule prod.exhaust)
      obtain e3 m3 where run: "IsRunning E (ag_DockerHost a) (set_containerName ?s) m2 = (e3, m3)"
        by (rule prod.exhaust)
      note h2 = writeConfigFile_hash [OF wr] and h3 = IsRunning_hash [OF run]
      have eq: "syncOnce E a m = (case e2 of
          Some e \<Rightarrow> fail_sync E a (set_image ?s) (HashBytes cfg) e m2
        | None \<Rightarrow> (case e3 of
            Inl e \<Rightarrow> fail_sync E a (set_image ?s) (HashBytes cfg) e m3
          | Inr running \<Rightarrow> apply_config E a ?s cfg (HashBytes cfg) running m3))"
        using False by (cases e2; cases e3) (simp_all add: syncOnce_def Let_def get \<open>x = Inr mg\<close> Inr wr run)
      show ?thesis
      proof (cases "\<exists>running. e2 = None \<and> e3 = Inr running")
        case True
        then obtain running where "e2 = None" "e3 = Inr running" by blast
        then have "apply_config E a ?s cfg (HashBytes cfg) running m3 = (fst (syncOnce E a m), snd (syncOnce E a m))"
          using eq by simp
        from apply_config_cases [OF this] show ?thesis
          using get wr run h1 h2 h3 \<open>x = Inr mg\<close> \<open>e2 = None\<close> \<open>e3 = Inr running\<close> Inr by auto
      next
        case False
        then have ?failed using eq h1 h2 h3 by (cases e2; cases e3) simp_all
        then show ?thesis ..
      qed
    qed
  qed
qed

text \<open>
  The base of a tagged image is the image without its tag, also when the name contains the port of
  a registry; with a version but no base image, the agent runs that base at the given version.
\<close>

theorem resolveTiProxyImage_retags:
  assumes "trim_space (base @ CHR '':'' # tag) = base @ CHR '':'' # tag"
    "CHR '':'' \<notin> set tag" "CHR ''/'' \<notin> set tag"
    "blank (rt_Image spec)" "blank (rt_BaseImage spec)" "\<not> blank (rt_Version spec)"
  shows "resolveTiProxyImage spec (base @ CHR '':'' # tag) = base @ CHR '':'' # trim_space (rt_Version spec)"
  using assms(4-6) imageBase_tag [OF assms(1-3)] by (simp add: resolveTiProxyImage_def Let_def)

theorem resolveTiProxyImage_retags_witness:
  "resolveTiProxyImage ((sp_TiProxy sample_spec)\<lparr>rt_Version := ''v1.4''\<rparr>) ''reg:5000/tiproxy:latest'' =
     ''reg:5000/tiproxy:v1.4''"
proof -
  have t: "trim_space (''reg:5000/tiproxy'' @ CHR '':'' # ''latest'') = ''reg:5000/tiproxy'' @ CHR '':'' # ''latest''"
    "trim_space ''v1.4'' = ''v1.4''"
    by code_simp+
  from resolveTiProxyImage_retags [OF t(1), of "(sp_TiProxy sample_spec)\<lparr>rt_Version := ''v1.4''\<rparr>"] t(2)
  show ?thesis by (simp add: sample_spec_def)
qed

text \<open>
  An image given by digest is cut inside the digest: with a version and the default image
  \<^verbatim>\<open>pingcap/tiproxy@sha256:ab12\<close>, the agent would run \<^verbatim>\<open>pingcap/tiproxy@sha256:v1.4\<close>, which is no image.
\<close>

theorem resolveTiProxyImage_breaks_digests:
  "resolveTiProxyImage ((sp_TiProxy sample_spec)\<lparr>rt_Version := ''v1.4''\<rparr>) ''pingcap/tiproxy@sha256:ab12'' =
     ''pingcap/tiproxy@sha256:v1.4''"
  by code_simp

text \<open>
  The loop ends exactly when the context is done, after one synchronisation for each tick before
  it, and its last action is the removal of the machine's status.
\<close>

theorem Run_ends_with_cleanup:
  "Run E a (replicate n Tick @ CtxDone # evs) m =
     Some (snd (removeMachineStatus E (with_defaults a)
       ((runOnce E (with_defaults a) ^^ Suc n) m))) \<and>
   Run E a (replicate n Tick) m = None"
proof -
  have a: "run_events E b (replicate n Tick @ CtxDone # evs) m = Some (snd (removeMachineStatus E b ((runOnce E b ^^ n) m)))"
    for b m by (induction n arbitrary: m) (simp_all add: funpow_swap1)
  have b: "run_events E b (replicate n Tick) m = None" for b m
    by (induction n arbitrary: m) simp_all
  show ?thesis by (simp add: Run_def Let_def a b funpow_swap1)
qed

end
