(* ===== verification/Status_Writers.thy ===== *)
theory Status_Writers
  imports Agent
begin

text \<open>
  Many agents and the controller write the status of one group at the same time: each reads the group,
  changes its copy and sends a merge patch. This theory models the interleavings of their reads and
  patches on \<^verbatim>\<open>status.machines\<close> and shows when no entry is lost.

  The merge patch is a parameter, \<open>P base changed stored\<close> is the stored group after the patch that
  \<^verbatim>\<open>client.MergeFrom(base)\<close> computes for \<open>changed\<close>. Its law is that of JSON merge patches (RFC 7386) on a
  map with \<^verbatim>\<open>omitempty\<close>: what does not differ between \<open>base\<close> and \<open>changed\<close> is not in the patch; an entry
  that differs is written; a map that has become empty is patched with null, which removes all of it.
\<close>

section \<open>The merge patch\<close>

type_synonym merge_patch = "machine_group \<Rightarrow> machine_group \<Rightarrow> machine_group \<Rightarrow> machine_group"

definition entry :: "machine_group \<Rightarrow> string \<Rightarrow> machine_status option" where
  "entry mg u = map_of (stored_machines mg) u"

definition emptied :: "machine_group \<Rightarrow> machine_group \<Rightarrow> bool" where
  "emptied base changed \<longleftrightarrow> stored_machines changed = [] \<and> stored_machines base \<noteq> []"

definition merge_patch_law :: "merge_patch \<Rightarrow> bool" where
  "merge_patch_law P \<longleftrightarrow> (\<forall>base changed stored u.
     (\<not> emptied base changed \<and> entry changed u = entry base u \<longrightarrow>
        entry (P base changed stored) u = entry stored u) \<and>
     (\<not> emptied base changed \<and> entry stored u = entry base u \<longrightarrow>
        entry (P base changed stored) u = entry changed u) \<and>
     (emptied base changed \<longrightarrow> stored_machines (P base changed stored) = []))"

lemma patch_unchanged:
  "merge_patch_law P \<Longrightarrow> \<not> emptied base changed \<Longrightarrow> entry changed u = entry base u \<Longrightarrow>
     entry (P base changed stored) u = entry stored u"
  unfolding merge_patch_law_def by blast

lemma patch_written:
  "merge_patch_law P \<Longrightarrow> \<not> emptied base changed \<Longrightarrow> entry stored u = entry base u \<Longrightarrow>
     entry (P base changed stored) u = entry changed u"
  unfolding merge_patch_law_def by blast

lemma patch_emptied:
  "merge_patch_law P \<Longrightarrow> emptied base changed \<Longrightarrow> stored_machines (P base changed stored) = []"
  unfolding merge_patch_law_def by blast

lemma entry_empty: "stored_machines mg = [] \<Longrightarrow> entry mg u = None"
  by (simp add: entry_def)

section \<open>The changes of an agent\<close>

lemma stored_set_machines [simp]:
  "stored_machines (set_machines ms mg) = (case ms of None \<Rightarrow> [] | Some xs \<Rightarrow> xs)"
  by (simp add: stored_machines_def set_machines_def)

lemma entry_with_machine [simp]: "entry (with_machine u s mg) v = (if v = u then Some s else entry mg v)"
  by (simp add: entry_def with_machine_def map_of_update)

lemma with_machine_not_emptied [simp]: "\<not> emptied base (with_machine u s mg)"
proof -
  have "entry (with_machine u s mg) u \<noteq> None" by simp
  then have "stored_machines (with_machine u s mg) \<noteq> []" using entry_empty by metis
  then show ?thesis by (simp add: emptied_def)
qed

lemma stored_without_machine [simp]:
  "stored_machines (without_machine u mg) = AList.delete u (stored_machines mg)"
  by (simp add: without_machine_def Let_def)

lemma entry_without_machine [simp]: "entry (without_machine u mg) v = (if v = u then None else entry mg v)"
  by (simp add: entry_def map_of_delete)

text \<open>The group has the entry of another machine.\<close>

definition has_other :: "string \<Rightarrow> machine_group \<Rightarrow> bool" where
  "has_other u mg \<longleftrightarrow> list_ex (\<lambda>(v, s). v \<noteq> u) (stored_machines mg)"

lemma delete_empty_iff: "AList.delete u ms = [] \<longleftrightarrow> (\<forall>p \<in> set ms. fst p = u)"
  by (auto simp: AList.delete_eq filter_empty_conv)

lemma without_machine_emptied:
  "entry mg u \<noteq> None \<Longrightarrow> emptied mg (without_machine u mg) \<longleftrightarrow> \<not> has_other u mg"
  by (auto simp: emptied_def has_other_def list_ex_iff delete_empty_iff entry_def)

section \<open>The step relation\<close>

text \<open>
  The shared state: the stored group, and for each agent the copy it has read and not yet patched. An
  agent reports its status from the copy, removes its entry, or gives up (an error, or an entry that
  is not there). \<open>ControllerPatches\<close> is a patch of the reconciler, which leaves the machines as they are
  in its copy; that it does is \<open>status_patch_keeps_machines\<close> of the reconciler.
\<close>

record shared =
  sh_group :: machine_group
  sh_copy :: "string \<Rightarrow> machine_group option"

datatype writer_event =
    AgentReads string
  | AgentReports string machine_status
  | AgentRemoves string bool
  | AgentGivesUp string
  | ControllerPatches machine_group machine_group

inductive writer_step :: "merge_patch \<Rightarrow> shared \<Rightarrow> writer_event \<Rightarrow> shared \<Rightarrow> bool" for P :: merge_patch where
  reads: "writer_step P s (AgentReads u) (s\<lparr>sh_copy := (sh_copy s)(u \<mapsto> sh_group s)\<rparr>)"
| reports: "sh_copy s u = Some c \<Longrightarrow>
    writer_step P s (AgentReports u st)
      \<lparr>sh_group = P c (with_machine u st c) (sh_group s), sh_copy = (sh_copy s)(u := None)\<rparr>"
| removes: "sh_copy s u = Some c \<Longrightarrow> entry c u \<noteq> None \<Longrightarrow>
    writer_step P s (AgentRemoves u (has_other u c))
      \<lparr>sh_group = P c (without_machine u c) (sh_group s), sh_copy = (sh_copy s)(u := None)\<rparr>"
| gives_up: "writer_step P s (AgentGivesUp u) (s\<lparr>sh_copy := (sh_copy s)(u := None)\<rparr>)"
| controller: "st_Machines (mg_Status changed) = st_Machines (mg_Status base) \<Longrightarrow>
    writer_step P s (ControllerPatches base changed) (s\<lparr>sh_group := P base changed (sh_group s)\<rparr>)"

inductive writer_run :: "merge_patch \<Rightarrow> shared \<Rightarrow> writer_event list \<Rightarrow> shared \<Rightarrow> bool" for P :: merge_patch where
  nothing: "writer_run P s [] s"
| more: "writer_step P s e s' \<Longrightarrow> writer_run P s' es s'' \<Longrightarrow> writer_run P s (e # es) s''"

text \<open>The abstract view of one machine: what it wrote last.\<close>

fun own_write :: "string \<Rightarrow> writer_event \<Rightarrow> machine_status option \<Rightarrow> machine_status option" where
  "own_write u (AgentReports v st) old = (if v = u then Some st else old)"
| "own_write u (AgentRemoves v others) old = (if v = u then None else old)"
| "own_write u e old = old"

definition own_writes :: "string \<Rightarrow> writer_event list \<Rightarrow> machine_status option \<Rightarrow> machine_status option" where
  "own_writes u es old = fold (own_write u) es old"

definition own_view :: "shared \<Rightarrow> string \<Rightarrow> bool" where
  "own_view s u \<longleftrightarrow> (\<forall>c. sh_copy s u = Some c \<longrightarrow> entry c u = entry (sh_group s) u)"

text \<open>The removal whose copy has no other machine; it is patched with null.\<close>

fun wipes :: "writer_event \<Rightarrow> bool" where
  "wipes (AgentRemoves u others) \<longleftrightarrow> \<not> others"
| "wipes e \<longleftrightarrow> False"

lemma controller_patch_entry:
  assumes "merge_patch_law P" "st_Machines (mg_Status changed) = st_Machines (mg_Status base)"
  shows "entry (P base changed s) u = entry s u"
proof (rule patch_unchanged [OF assms(1)])
  have "stored_machines changed = stored_machines base" using assms(2) by (simp add: stored_machines_def)
  then show "\<not> emptied base changed" "entry changed u = entry base u" by (simp_all add: emptied_def entry_def)
qed

lemma report_entry:
  assumes "merge_patch_law P"
  shows "v \<noteq> u \<Longrightarrow> entry (P c (with_machine u st c) s) v = entry s v"
    "entry s u = entry c u \<Longrightarrow> entry (P c (with_machine u st c) s) u = Some st"
  using patch_unchanged [OF assms, of c "with_machine u st c" v s]
    patch_written [OF assms, of c "with_machine u st c" s u] by simp_all

lemma removal_entry:
  assumes "merge_patch_law P" "entry c u \<noteq> None" "has_other u c"
  shows "v \<noteq> u \<Longrightarrow> entry (P c (without_machine u c) s) v = entry s v"
    "entry s u = entry c u \<Longrightarrow> entry (P c (without_machine u c) s) u = None"
proof -
  have n: "\<not> emptied c (without_machine u c)" using without_machine_emptied [OF assms(2)] assms(3) by simp
  show "v \<noteq> u \<Longrightarrow> entry (P c (without_machine u c) s) v = entry s v"
    "entry s u = entry c u \<Longrightarrow> entry (P c (without_machine u c) s) u = None"
    using patch_unchanged [OF assms(1) n, of v s] patch_written [OF assms(1) n, of s u] by simp_all
qed

lemma removal_wipes:
  assumes "merge_patch_law P" "entry c u \<noteq> None" "\<not> has_other u c"
  shows "stored_machines (P c (without_machine u c) s) = []"
  using patch_emptied [OF assms(1)] without_machine_emptied [OF assms(2)] assms(3) by simp

text \<open>Without a wiping removal each step is the abstract step of every machine.\<close>

lemma writer_step_refines:
  assumes "merge_patch_law P" "writer_step P s e s'" "\<not> wipes e" "\<forall>v. own_view s v"
  shows "entry (sh_group s') u = own_write u e (entry (sh_group s) u) \<and> (\<forall>v. own_view s' v)"
  using assms(2-4)
proof cases
  case (reads v)
  then show ?thesis using assms(4) by (simp add: own_view_def)
next
  case (reports v c st)
  have own: "entry (sh_group s) v = entry c v" using assms(4) reports(3) by (simp add: own_view_def)
  then show ?thesis
    using reports assms(4) report_entry(1) [OF assms(1), of _ v c st "sh_group s"] report_entry(2) [OF assms(1) own, of st]
    by (cases "u = v") (simp_all add: own_view_def)
next
  case (removes v c)
  have own: "entry (sh_group s) v = entry c v" using assms(4) removes(3) by (simp add: own_view_def)
  have "has_other v c" using assms(3) removes(1) by simp
  then show ?thesis
    using removes assms(4) removal_entry(1) [OF assms(1) removes(4), of _ "sh_group s"]
      removal_entry(2) [OF assms(1) removes(4) _ own]
    by (cases "u = v") (simp_all add: own_view_def)
next
  case (gives_up v)
  then show ?thesis using assms(4) by (simp add: own_view_def)
next
  case (controller changed base)
  then show ?thesis using assms(4) by (simp add: own_view_def controller_patch_entry [OF assms(1)])
qed

lemma writer_run_refines:
  assumes "merge_patch_law P" "writer_run P s es s'" "list_all (\<lambda>e. \<not> wipes e) es" "\<forall>v. own_view s v"
  shows "entry (sh_group s') u = own_writes u es (entry (sh_group s) u)"
  using assms(2-4)
proof induction
  case (nothing s)
  then show ?case by (simp add: own_writes_def)
next
  case (more s e s' es s'')
  then show ?case using writer_step_refines [OF assms(1) more(1)] by (simp add: own_writes_def)
qed

section \<open>The calls of the agent\<close>

text \<open>
  Surroundings whose environment is the stored group: a read returns it, then the others change it, and
  a patch is applied to what they left. \<open>others\<close> is any function: what happens between the two calls of
  one attempt.
\<close>

definition shares_group ::
  "machine_group agent_env \<Rightarrow> agent \<Rightarrow> merge_patch \<Rightarrow> (machine_group \<Rightarrow> machine_group) \<Rightarrow> bool" where
  "shares_group E a P others \<longleftrightarrow> retry_law E \<and> merge_patch_law P \<and>
     (\<forall>g. ae_get_group E (group_name a) g = (Inr g, others g)) \<and>
     (\<forall>base changed g. ae_patch_status E base changed g = (None, P base changed g))"

lemma retry_success: "retry_law E \<Longrightarrow> f w = (None, w') \<Longrightarrow> ae_retry E f w = (None, w')"
proof -
  assume "retry_law E" "f w = (None, w')"
  then have "attempts f w (ae_retry E f w)" by (simp add: retry_law_def)
  then show "ae_retry E f w = (None, w')" using \<open>f w = (None, w')\<close> by cases auto
qed

definition reported_status ::
  "machine_group agent_env \<Rightarrow> string \<Rightarrow> string \<Rightarrow> string \<Rightarrow> string \<Rightarrow> machine_group \<Rightarrow> machine_group \<Rightarrow> machine_status" where
  "reported_status E phase img h msg copy now = \<lparr>mst_ObservedGeneration = meta_generation (mg_meta copy),
     mst_LastHeartbeatTime = ae_now E now, mst_Phase = phase, mst_ConfigHash = h,
     mst_TiProxyImage = img, mst_Message = msg\<rparr>"

lemma upsert_shared:
  assumes "shares_group E a P others"
  shows "upsertMachineStatus E a phase img h msg m = (None, m\<lparr>mc_world := P (mc_world m)
    (with_machine (ag_MachineID a) (reported_status E phase img h msg (mc_world m) (others (mc_world m)))
      (mc_world m)) (others (mc_world m))\<rparr>)"
proof -
  let ?w = "mc_world m"
  have "upsert_attempt E a phase img h msg ?w = (None, P ?w (with_machine (ag_MachineID a)
      (reported_status E phase img h msg ?w (others ?w)) ?w) (others ?w))"
    using assms by (simp add: upsert_attempt_def shares_group_def Let_def reported_status_def)
  then show ?thesis
    using assms by (simp add: retry_success upsertMachineStatus_def lift_world_def shares_group_def)
qed

lemma remove_shared:
  assumes "shares_group E a P others" "ag_MachineGroup a \<noteq> []" "ag_MachineID a \<noteq> []"
    "entry (mc_world m) (ag_MachineID a) \<noteq> None"
  shows "removeMachineStatus E a m = (None, m\<lparr>mc_world := P (mc_world m)
    (without_machine (ag_MachineID a) (mc_world m)) (others (mc_world m))\<rparr>)"
proof -
  let ?w = "mc_world m"
  have "st_Machines (mg_Status ?w) \<noteq> None"
    using assms(4) by (auto simp: entry_def stored_machines_def split: option.splits)
  then have "remove_attempt E a ?w = (None, P ?w (without_machine (ag_MachineID a) ?w) (others ?w))"
    using assms by (simp add: remove_attempt_def shares_group_def entry_def del: not_None_eq)
  then show ?thesis
    using assms by (simp add: retry_success removeMachineStatus_def lift_world_def shares_group_def)
qed

text \<open>A report is a read and a patch of the step relation, with the steps of the others in between.\<close>

lemma writer_run_append:
  "writer_run P s es s' \<Longrightarrow> writer_run P s' es' s'' \<Longrightarrow> writer_run P s (es @ es') s''"
  by (induction rule: writer_run.induct) (simp_all add: writer_run.more)

lemma upsert_is_run:
  assumes "shares_group E a P others"
    "writer_run P \<lparr>sh_group = mc_world m, sh_copy = copies(ag_MachineID a \<mapsto> mc_world m)\<rparr> es
       \<lparr>sh_group = others (mc_world m), sh_copy = copies'\<rparr>"
    "copies' (ag_MachineID a) = Some (mc_world m)"
  shows "\<exists>st. writer_run P \<lparr>sh_group = mc_world m, sh_copy = copies\<rparr>
    (AgentReads (ag_MachineID a) # es @ [AgentReports (ag_MachineID a) st])
    \<lparr>sh_group = mc_world (snd (upsertMachineStatus E a phase img h msg m)),
     sh_copy = copies'(ag_MachineID a := None)\<rparr>"
proof -
  let ?u = "ag_MachineID a" and ?w = "mc_world m"
  let ?st = "reported_status E phase img h msg ?w (others ?w)"
  have "writer_step P \<lparr>sh_group = ?w, sh_copy = copies\<rparr> (AgentReads ?u)
      \<lparr>sh_group = ?w, sh_copy = copies(?u \<mapsto> ?w)\<rparr>"
    using reads [of P "\<lparr>sh_group = ?w, sh_copy = copies\<rparr>" ?u] by simp
  moreover have "writer_step P \<lparr>sh_group = others ?w, sh_copy = copies'\<rparr> (AgentReports ?u ?st)
      \<lparr>sh_group = mc_world (snd (upsertMachineStatus E a phase img h msg m)), sh_copy = copies'(?u := None)\<rparr>"
    using reports [of "\<lparr>sh_group = others ?w, sh_copy = copies'\<rparr>" ?u ?w P ?st] assms(3)
    by (simp add: upsert_shared [OF assms(1)])
  ultimately show ?thesis
    by (blast intro: writer_run.intros writer_run_append [OF assms(2)])
qed

section \<open>Surroundings for the witnesses\<close>

definition merge_machines :: merge_patch where
  "merge_machines base changed stored =
     (if emptied base changed then set_machines None stored
      else set_machines (Some
        (filter (\<lambda>(u, s). entry changed u \<noteq> entry base u) (stored_machines changed) @
         filter (\<lambda>(u, s). entry changed u = entry base u) (stored_machines stored))) stored)"

lemma map_of_filter_key: "map_of (filter (\<lambda>(k, v). Q k) m) k = (if Q k then map_of m k else None)"
  by (induction m) auto

lemma merge_machines_law: "merge_patch_law merge_machines"
  by (auto simp: merge_patch_law_def merge_machines_def entry_def map_of_filter_key map_add_def
      split: option.split)

definition sample_env :: "(machine_group \<Rightarrow> machine_group) \<Rightarrow> machine_group agent_env" where
  "sample_env others = \<lparr>ae_get_group = (\<lambda>_ g. (Inr g, others g)),
     ae_patch_status = (\<lambda>b c g. (None, merge_machines b c g)),
     ae_is_not_found = (\<lambda>_. False), ae_retry = (\<lambda>f. f), ae_now = (\<lambda>_. 7),
     ae_new_docker = (\<lambda>_ g. (None, g)),
     ae_inspect = (\<lambda>_ g. (Inr (Some \<lparr>ctr_Running = True, ctr_Restarting = False\<rparr>), g)),
     ae_docker_not_found = (\<lambda>_. False), ae_pull = (\<lambda>_ g. (None, g)), ae_drain = (\<lambda>_ g. (None, g)),
     ae_remove = (\<lambda>_ g. (None, g)), ae_create = (\<lambda>_ g. (Inr ''c1'', g)), ae_start = (\<lambda>_ g. (None, g)),
     ae_request_error = (\<lambda>_. None),
     ae_http = (\<lambda>_ g. (Inr \<lparr>hs_StatusCode = 200, hs_Body = [], hs_ReadError = None\<rparr>, g)),
     ae_mkdir_parents = (\<lambda>_ g. (None, g)), ae_read_file = (\<lambda>_ _. Inl (errorf ''no file'')),
     ae_write_file = (\<lambda>_ _ g. (None, g)), ae_getenv = (\<lambda>_. []), ae_hostname = Inr ''host''\<rparr>"

lemma sample_env_shares: "shares_group (sample_env others) a merge_machines others"
  by (simp add: shares_group_def sample_env_def merge_machines_law retry_law_def attempts.last_run)

definition sample_agent :: "string \<Rightarrow> agent" where
  "sample_agent u = \<lparr>ag_Namespace = ''ns'', ag_MachineGroup = ''g'', ag_MachineID = u, ag_SyncPeriod = 1,
     ag_DefaultImage = ''pingcap/tiproxy:latest'', ag_DockerHost = []\<rparr>"

definition machine_report :: "string \<Rightarrow> machine_status" where
  "machine_report phase = \<lparr>mst_ObservedGeneration = 1, mst_LastHeartbeatTime = 7, mst_Phase = phase,
     mst_ConfigHash = [], mst_TiProxyImage = [], mst_Message = []\<rparr>"

section \<open>Properties\<close>

text \<open>
  C17: Agents that report and leave concurrently do not lose each other's entries. In any interleaving
  of reads, reports, removals and patches of the controller, with copies as old as they may be, the
  entry of a machine is what that machine wrote last, provided no removal was computed from a copy in
  which the machine was alone.
\<close>

theorem agents_keep_their_entries:
  assumes "merge_patch_law P" "writer_run P \<lparr>sh_group = g, sh_copy = (\<lambda>_. None)\<rparr> es s'"
    "list_all (\<lambda>e. \<not> wipes e) es"
  shows "entry (sh_group s') u = own_writes u es (entry g u)"
  using writer_run_refines [OF assms] by (simp add: own_view_def)

definition sample_events :: "writer_event list" where
  "sample_events =
  [AgentReads ''a'', AgentReads ''b'', AgentReports ''a'' (machine_report ''Running''),
   AgentReports ''b'' (machine_report ''Starting''), AgentReads ''a'', AgentRemoves ''a'' True]"

theorem agents_keep_their_entries_witness:
  "\<exists>s'. writer_run merge_machines \<lparr>sh_group = sample_mg, sh_copy = (\<lambda>_. None)\<rparr> sample_events s' \<and>
     entry (sh_group s') ''a'' = None \<and> entry (sh_group s') ''b'' = Some (machine_report ''Starting'')"
proof -
  let ?P = merge_machines
  let ?g1 = "?P sample_mg (with_machine ''a'' (machine_report ''Running'') sample_mg) sample_mg"
  let ?g2 = "?P sample_mg (with_machine ''b'' (machine_report ''Starting'') sample_mg) ?g1"
  have e2: "entry ?g2 ''a'' = Some (machine_report ''Running'')"
    "entry ?g2 ''b'' = Some (machine_report ''Starting'')"
    by code_simp+
  have other: "has_other ''a'' ?g2" by code_simp
  have "\<exists>s'. writer_run ?P \<lparr>sh_group = sample_mg, sh_copy = (\<lambda>_. None)\<rparr> sample_events s'"
    unfolding sample_events_def
    using e2(1) other by (auto simp: writer_run.simps [of _ _ "_ # _"] writer_run.simps [of _ _ "[]"] writer_step.simps)
  then obtain s' where run: "writer_run ?P \<lparr>sh_group = sample_mg, sh_copy = (\<lambda>_. None)\<rparr> sample_events s'" ..
  have "list_all (\<lambda>e. \<not> wipes e) sample_events" by (simp add: sample_events_def)
  note kept = agents_keep_their_entries [OF merge_machines_law run this]
  show ?thesis using run kept [of "''a''"] kept [of "''b''"]
    by (auto simp: sample_events_def own_writes_def)
qed

text \<open>
  A report changes the entry of the machine itself and no other: whatever the others do between the
  read and the patch, their entries stay as they left them, and the machine's own entry is the report,
  stamped with the generation that was read.
\<close>

theorem upsertMachineStatus_keeps_others:
  assumes "shares_group E a P others"
    "entry (others (mc_world m)) (ag_MachineID a) = entry (mc_world m) (ag_MachineID a)"
  shows "fst (upsertMachineStatus E a phase img h msg m) = None \<and>
    entry (mc_world (snd (upsertMachineStatus E a phase img h msg m))) u =
      (if u = ag_MachineID a
       then Some (reported_status E phase img h msg (mc_world m) (others (mc_world m)))
       else entry (others (mc_world m)) u)"
proof -
  have "merge_patch_law P" using assms(1) by (simp add: shares_group_def)
  from report_entry [OF this] show ?thesis using assms(2) by (simp add: upsert_shared [OF assms(1)])
qed

theorem upsertMachineStatus_keeps_others_witness:
  "entry (mc_world (snd (upsertMachineStatus
       (sample_env (with_machine ''b'' (machine_report ''Running''))) (sample_agent ''a'')
       ''Starting'' [] [] [] \<lparr>mc_lastConfigHash = [], mc_docker = None, mc_world = sample_mg\<rparr>))) ''b'' =
     Some (machine_report ''Running'')"
  using upsertMachineStatus_keeps_others [OF sample_env_shares, of "with_machine ''b'' (machine_report ''Running'')"
      "\<lparr>mc_lastConfigHash = [], mc_docker = None, mc_world = sample_mg\<rparr>" "sample_agent ''a''"
      "''Starting''" "[]" "[]" "[]" "''b''"]
  by (simp add: sample_agent_def)

text \<open>
  C26: The cleanup of a stopped agent removes its entry and, when the copy it read holds another machine,
  nothing else. When the machine was alone in that copy, all entries are removed, also those that other
  agents have written since.
\<close>

theorem removeMachineStatus_effect:
  assumes "shares_group E a P others" "ag_MachineGroup a \<noteq> []" "ag_MachineID a \<noteq> []"
    "entry (mc_world m) (ag_MachineID a) \<noteq> None"
    "entry (others (mc_world m)) (ag_MachineID a) = entry (mc_world m) (ag_MachineID a)"
  shows "fst (removeMachineStatus E a m) = None \<and>
    entry (mc_world (snd (removeMachineStatus E a m))) u =
      (if u = ag_MachineID a then None
       else if has_other (ag_MachineID a) (mc_world m) then entry (others (mc_world m)) u
       else None)"
proof -
  have law: "merge_patch_law P" using assms(1) by (simp add: shares_group_def)
  note eq = remove_shared [OF assms(1-4)]
  show ?thesis
  proof (cases "has_other (ag_MachineID a) (mc_world m)")
    case True
    from removal_entry [OF law assms(4) this] show ?thesis using assms(5) True by (simp add: eq)
  next
    case False
    from removal_wipes [OF law assms(4) this, THEN entry_empty] show ?thesis using False by (simp add: eq)
  qed
qed

text \<open>Machine \<^verbatim>\<open>a\<close> leaves while \<^verbatim>\<open>b\<close> reports for the first time: the entry of \<^verbatim>\<open>b\<close> is gone.\<close>

theorem removeMachineStatus_effect_witness:
  "entry (mc_world (snd (removeMachineStatus
       (sample_env (with_machine ''b'' (machine_report ''Running''))) (sample_agent ''a'')
       \<lparr>mc_lastConfigHash = [], mc_docker = None,
        mc_world = with_machine ''a'' (machine_report ''Running'') sample_mg\<rparr>))) ''b'' = None"
proof -
  let ?m = "\<lparr>mc_lastConfigHash = [], mc_docker = None,
    mc_world = with_machine ''a'' (machine_report ''Running'') sample_mg\<rparr>"
  have "\<not> has_other ''a'' (mc_world ?m)" by code_simp
  then show ?thesis
    using removeMachineStatus_effect [OF sample_env_shares, of "sample_agent ''a''" ?m
        "with_machine ''b'' (machine_report ''Running'')" "''b''"]
    by (simp add: sample_agent_def)
qed

end
