(* ===== verification/Io_Steps.thy ===== *)
theory Io_Steps
  imports Prelude
begin

text \<open>
  Steps with a result: a call that reads and changes an environment \<open>'w\<close> and returns a value or an error.
  \<open>io_bind\<close> is the statement sequence with \<^verbatim>\<open>if err != nil { return err }\<close> in between, \<open>io_wrap\<close> returns
  the error as \<^verbatim>\<open>fmt.Errorf("...: %w", err)\<close>, \<open>io_loop\<close> is a \<^verbatim>\<open>range\<close> loop that carries a value.

  Two predicates carry the proofs about such code. \<open>keeps I f\<close> says that \<open>f\<close> preserves an invariant of the
  environment whatever it returns; \<open>returns f Q\<close> that every successful result satisfies \<open>Q\<close>. Both go
  through the combinators by rules, so that a property of a long function is a property of its calls.
\<close>

type_synonym ('a, 'w) io = "'w \<Rightarrow> 'a result \<times> 'w"

definition io_return :: "'a \<Rightarrow> ('a, 'w) io" where
  "io_return x w = (Inr x, w)"

definition io_fail :: "go_error \<Rightarrow> ('a, 'w) io" where
  "io_fail e w = (Inl e, w)"

definition io_bind :: "('a, 'w) io \<Rightarrow> ('a \<Rightarrow> ('b, 'w) io) \<Rightarrow> ('b, 'w) io" where
  "io_bind f g w = (case f w of (Inl e, w') \<Rightarrow> (Inl e, w') | (Inr x, w') \<Rightarrow> g x w')"

definition io_then :: "(unit, 'w) io \<Rightarrow> ('b, 'w) io \<Rightarrow> ('b, 'w) io" where
  "io_then f g = io_bind f (\<lambda>_. g)"

definition io_lift :: "'a result \<Rightarrow> ('a, 'w) io" where
  "io_lift r w = (r, w)"

definition io_wrap :: "string \<Rightarrow> ('a, 'w) io \<Rightarrow> ('a, 'w) io" where
  "io_wrap what f w = (case f w of (Inl e, w') \<Rightarrow> (Inl (wrap_error what e), w') | (Inr x, w') \<Rightarrow> (Inr x, w'))"

text \<open>The error is inspected instead of returned.\<close>

definition io_catch :: "('a, 'w) io \<Rightarrow> (go_error \<Rightarrow> ('a, 'w) io) \<Rightarrow> ('a, 'w) io" where
  "io_catch f h w = (case f w of (Inl e, w') \<Rightarrow> h e w' | (Inr x, w') \<Rightarrow> (Inr x, w'))"

definition io_when :: "bool \<Rightarrow> (unit, 'w) io \<Rightarrow> (unit, 'w) io" where
  "io_when b f = (if b then f else io_return ())"

fun io_loop :: "('x \<Rightarrow> 's \<Rightarrow> ('s, 'w) io) \<Rightarrow> 'x list \<Rightarrow> 's \<Rightarrow> ('s, 'w) io" where
  "io_loop f [] s = io_return s"
| "io_loop f (x # xs) s = io_bind (f x s) (io_loop f xs)"

definition io_each :: "('x \<Rightarrow> (unit, 'w) io) \<Rightarrow> 'x list \<Rightarrow> (unit, 'w) io" where
  "io_each f xs = io_loop (\<lambda>x _. f x) xs ()"

lemma io_each_simps [simp]:
  "io_each f [] = io_return ()"
  "io_each f (x # xs) = io_then (f x) (io_each f xs)"
  by (simp_all add: io_each_def io_then_def fun_eq_iff io_bind_def split: prod.split sum.split)

lemma io_bind_return [simp]: "io_bind (io_return x) g = g x"
  by (simp add: fun_eq_iff io_bind_def io_return_def)

lemma io_bind_fail [simp]: "io_bind (io_fail e) g = io_fail e"
  by (simp add: fun_eq_iff io_bind_def io_fail_def)

lemma io_lift_simps [simp]: "io_lift (Inr x) = io_return x" "io_lift (Inl e) = io_fail e"
  by (simp_all add: fun_eq_iff io_lift_def io_return_def io_fail_def)

lemma io_then_simps [simp]: "io_then (io_return u) g = g" "io_then (io_fail e) g = io_fail e"
  by (simp_all add: io_then_def)

lemma io_when_simps [simp]: "io_when True f = f" "io_when False f = io_return ()"
  by (simp_all add: io_when_def)

lemma io_return_inject [simp]: "io_return x = io_return y \<longleftrightarrow> x = y"
  by (simp add: fun_eq_iff io_return_def)

lemma io_return_steps [simp]:
  "io_wrap what (io_return x) = io_return x" "io_wrap what (io_fail e) = io_fail (wrap_error what e)"
  "io_catch (io_return x) h = io_return x" "io_catch (io_fail e) h = h e"
  by (simp_all add: fun_eq_iff io_wrap_def io_catch_def io_return_def io_fail_def)

text \<open>Loops in which nothing happens.\<close>

lemma io_loop_invariant:
  assumes "I s" "\<And>x s. x \<in> set xs \<Longrightarrow> I s \<Longrightarrow> \<exists>y. f x s = io_return y \<and> I y"
  shows "\<exists>y. io_loop f xs s = io_return y \<and> I y"
  using assms
proof (induction xs arbitrary: s)
  case (Cons x xs)
  from Cons.prems obtain y where y: "f x s = io_return y" "I y" by (meson list.set_intros(1))
  have "\<exists>z. io_loop f xs y = io_return z \<and> I z" by (rule Cons.IH [OF y(2)]) (rule Cons.prems(2), simp_all)
  then show ?case by (simp add: y)
qed auto

lemma io_loop_return: "(\<And>x s. x \<in> set xs \<Longrightarrow> \<exists>y. f x s = io_return y) \<Longrightarrow> \<exists>y. io_loop f xs s = io_return y"
  using io_loop_invariant [of "\<lambda>_. True" s xs f] by simp

lemma io_loop_skip: "(\<And>x. x \<in> set xs \<Longrightarrow> f x s = io_return s) \<Longrightarrow> io_loop f xs s = io_return s"
  using io_loop_invariant [of "\<lambda>y. y = s" s xs f] by auto

lemma io_each_skip: "(\<And>x. x \<in> set xs \<Longrightarrow> f x = io_return ()) \<Longrightarrow> io_each f xs = io_return ()"
  unfolding io_each_def by (rule io_loop_skip)

lemma io_bind_assoc: "io_bind (io_bind f g) h = io_bind f (\<lambda>x. io_bind (g x) h)"
  by (simp add: fun_eq_iff io_bind_def split: prod.split sum.split)

section \<open>Invariants of the environment\<close>

named_theorems keeps_rules \<open>which steps preserve an invariant of the environment\<close>

definition keeps :: "('w \<Rightarrow> bool) \<Rightarrow> ('a, 'w) io \<Rightarrow> bool" where
  "keeps I f \<longleftrightarrow> (\<forall>w. I w \<longrightarrow> I (snd (f w)))"

lemma keepsD: "keeps I f \<Longrightarrow> I w \<Longrightarrow> I (snd (f w))"
  by (simp add: keeps_def)

lemma keeps_return [keeps_rules]: "keeps I (io_return x)"
  by (simp add: keeps_def io_return_def)

lemma keeps_fail [keeps_rules]: "keeps I (io_fail e)"
  by (simp add: keeps_def io_fail_def)

lemma keeps_lift [keeps_rules]: "keeps I (io_lift r)"
  by (simp add: keeps_def io_lift_def)

lemma keeps_bind [keeps_rules]:
  assumes "keeps I f" "\<And>x. keeps I (g x)"
  shows "keeps I (io_bind f g)"
  unfolding keeps_def
proof (intro allI impI)
  fix w assume "I w"
  obtain r w' where fw: "f w = (r, w')" by (rule prod.exhaust)
  have "I w'" using keepsD [OF assms(1) \<open>I w\<close>] by (simp add: fw)
  then show "I (snd (io_bind f g w))"
    using keepsD [OF assms(2), of w'] by (cases r) (simp_all add: io_bind_def fw)
qed

lemma keeps_then [keeps_rules]: "keeps I f \<Longrightarrow> keeps I g \<Longrightarrow> keeps I (io_then f g)"
  unfolding io_then_def by (rule keeps_bind)

lemma keeps_wrap [keeps_rules]: "keeps I f \<Longrightarrow> keeps I (io_wrap what f)"
proof -
  have "snd (io_wrap what f w) = snd (f w)" for w
    by (simp add: io_wrap_def split: prod.split sum.split)
  then show "keeps I f \<Longrightarrow> keeps I (io_wrap what f)" by (simp add: keeps_def)
qed

lemma keeps_catch [keeps_rules]:
  assumes "keeps I f" "\<And>e. keeps I (h e)"
  shows "keeps I (io_catch f h)"
  unfolding keeps_def
proof (intro allI impI)
  fix w assume "I w"
  obtain r w' where fw: "f w = (r, w')" by (rule prod.exhaust)
  have "I w'" using keepsD [OF assms(1) \<open>I w\<close>] by (simp add: fw)
  then show "I (snd (io_catch f h w))"
    using keepsD [OF assms(2), of w'] by (cases r) (simp_all add: io_catch_def fw)
qed

lemma keeps_when [keeps_rules]: "(b \<Longrightarrow> keeps I f) \<Longrightarrow> keeps I (io_when b f)"
  by (cases b) (simp_all add: keeps_return)

lemma keeps_if [keeps_rules]: "(b \<Longrightarrow> keeps I f) \<Longrightarrow> (\<not> b \<Longrightarrow> keeps I g) \<Longrightarrow> keeps I (if b then f else g)"
  by simp

lemma keeps_Let [keeps_rules]: "(\<And>x. x = t \<Longrightarrow> keeps I (f x)) \<Longrightarrow> keeps I (Let t f)"
  by (simp add: Let_def)

lemma keeps_cases [keeps_rules]:
  "(x = None \<Longrightarrow> keeps I f) \<Longrightarrow> (\<And>y. x = Some y \<Longrightarrow> keeps I (g y)) \<Longrightarrow>
     keeps I (case x of None \<Rightarrow> f | Some y \<Rightarrow> g y)"
  "(xs = [] \<Longrightarrow> keeps I f) \<Longrightarrow> (\<And>y ys. xs = y # ys \<Longrightarrow> keeps I (h y ys)) \<Longrightarrow>
     keeps I (case xs of [] \<Rightarrow> f | y # ys \<Rightarrow> h y ys)"
  "(\<And>a b. p = (a, b) \<Longrightarrow> keeps I (k a b)) \<Longrightarrow> keeps I (case p of (a, b) \<Rightarrow> k a b)"
  by (simp_all split: option.split list.split prod.split)

lemma keeps_loop [keeps_rules]:
  "(\<And>x s. x \<in> set xs \<Longrightarrow> keeps I (f x s)) \<Longrightarrow> keeps I (io_loop f xs s)"
  by (induction xs arbitrary: s) (simp_all add: keeps_return keeps_bind)

lemma keeps_each [keeps_rules]: "(\<And>x. x \<in> set xs \<Longrightarrow> keeps I (f x)) \<Longrightarrow> keeps I (io_each f xs)"
  unfolding io_each_def by (rule keeps_loop)

section \<open>Successful results\<close>

definition returns :: "('a, 'w) io \<Rightarrow> ('a \<Rightarrow> bool) \<Rightarrow> bool" where
  "returns f Q \<longleftrightarrow> (\<forall>w x w'. f w = (Inr x, w') \<longrightarrow> Q x)"

lemma returnsD: "returns f Q \<Longrightarrow> f w = (Inr x, w') \<Longrightarrow> Q x"
  unfolding returns_def by blast

lemma returns_return [simp]: "returns (io_return x) Q = Q x"
  by (simp add: returns_def io_return_def)

lemma returns_fail [simp]: "returns (io_fail e) Q"
  by (simp add: returns_def io_fail_def)

lemma returns_true [simp]: "returns f (\<lambda>_. True)"
  by (simp add: returns_def)

lemma io_bind_Inr:
  "io_bind f g w = (Inr y, w') \<longleftrightarrow> (\<exists>x w1. f w = (Inr x, w1) \<and> g x w1 = (Inr y, w'))"
  by (auto simp: io_bind_def split: prod.split sum.split)

lemma returns_bind: "returns f P \<Longrightarrow> (\<And>x. P x \<Longrightarrow> returns (g x) Q) \<Longrightarrow> returns (io_bind f g) Q"
  unfolding returns_def io_bind_Inr by blast

lemma returns_bind_any: "(\<And>x. returns (g x) Q) \<Longrightarrow> returns (io_bind f g) Q"
  by (rule returns_bind [of f "\<lambda>_. True"]) simp_all

lemma returns_then: "returns g Q \<Longrightarrow> returns (io_then f g) Q"
  unfolding io_then_def by (rule returns_bind_any)

lemma returns_lift: "returns (io_lift r) Q \<longleftrightarrow> (\<forall>x. r = Inr x \<longrightarrow> Q x)"
  by (simp add: returns_def io_lift_def)

lemma returns_wrap [simp]: "returns (io_wrap what f) Q = returns f Q"
  by (auto simp: returns_def io_wrap_def split: prod.splits sum.splits)

lemma returns_mono: "returns f P \<Longrightarrow> (\<And>x. P x \<Longrightarrow> Q x) \<Longrightarrow> returns f Q"
  unfolding returns_def by blast

lemma returns_loop:
  assumes "Q [] s" "\<And>done x s. Q done s \<Longrightarrow> x \<in> set xs \<Longrightarrow> returns (f x s) (Q (done @ [x]))"
  shows "returns (io_loop f xs s) (Q xs)"
proof -
  have "returns (io_loop f ys s') (Q (zs @ ys))" if "Q zs s'" "set ys \<subseteq> set xs" for zs ys s'
    using that
  proof (induction ys arbitrary: zs s')
    case (Cons y ys)
    have "returns (f y s') (Q (zs @ [y]))" using Cons.prems by (intro assms(2)) simp_all
    then show ?case
      using Cons.IH [of "zs @ [y]"] Cons.prems(2) by (auto intro: returns_bind)
  qed simp
  from this [of "[]" s xs] show ?thesis using assms(1) by simp
qed

section \<open>Conditions before and after\<close>

text \<open>
  \<open>triple P f Q R\<close>: started where \<open>P\<close> holds, \<open>f\<close> ends with a result and an environment for which \<open>Q\<close> holds,
  or with an error in an environment for which \<open>R\<close> holds.
\<close>

definition triple :: "('w \<Rightarrow> bool) \<Rightarrow> ('a, 'w) io \<Rightarrow> ('a \<Rightarrow> 'w \<Rightarrow> bool) \<Rightarrow> ('w \<Rightarrow> bool) \<Rightarrow> bool" where
  "triple P f Q R \<longleftrightarrow>
     (\<forall>w r w'. P w \<longrightarrow> f w = (r, w') \<longrightarrow> (case r of Inl e \<Rightarrow> R w' | Inr x \<Rightarrow> Q x w'))"

lemma tripleI:
  assumes "\<And>w x w'. P w \<Longrightarrow> f w = (Inr x, w') \<Longrightarrow> Q x w'" "\<And>w e w'. P w \<Longrightarrow> f w = (Inl e, w') \<Longrightarrow> R w'"
  shows "triple P f Q R"
  unfolding triple_def using assms by (auto split: sum.split)

lemma tripleD:
  assumes "triple P f Q R" "P w"
  shows "f w = (Inr x, w') \<Longrightarrow> Q x w'" "f w = (Inl e, w') \<Longrightarrow> R w'"
  using assms unfolding triple_def by force+

lemma triple_return: "(\<And>w. P w \<Longrightarrow> Q x w) \<Longrightarrow> triple P (io_return x) Q R"
  by (simp add: triple_def io_return_def)

lemma triple_bind:
  assumes "triple P f Q R" "\<And>x. triple (Q x) (g x) S R"
  shows "triple P (io_bind f g) S R"
proof (rule tripleI)
  fix w x w' assume "P w" "io_bind f g w = (Inr x, w')"
  then show "S x w'" using assms by (auto simp: io_bind_Inr dest: tripleD)
next
  fix w e w' assume P: "P w" and run: "io_bind f g w = (Inl e, w')"
  obtain r w1 where f: "f w = (r, w1)" by (rule prod.exhaust)
  show "R w'"
    using run f P by (cases r) (auto simp: io_bind_def dest: tripleD [OF assms(1)] tripleD [OF assms(2)])
qed

lemma triple_then: "triple P f (\<lambda>_. Q) R \<Longrightarrow> triple Q g S R \<Longrightarrow> triple P (io_then f g) S R"
  unfolding io_then_def by (rule triple_bind)

lemma triple_each:
  assumes "\<And>x xs. triple (I (x # xs)) (f x) (\<lambda>_. I xs) R"
  shows "triple (I xs) (io_each f xs) (\<lambda>_. I []) R"
proof (induction xs)
  case (Cons x xs)
  show ?case unfolding io_each_simps by (rule triple_then [OF assms Cons])
qed (simp add: triple_return)

text \<open>A step with an error only, as an \<open>act\<close>.\<close>

definition io_act :: "(unit, 'w) io \<Rightarrow> 'w act" where
  "io_act f w = (case f w of (Inl e, w') \<Rightarrow> (Some e, w') | (Inr _, w') \<Rightarrow> (None, w'))"

end
