(* ===== verification/Aws_Api.thy ===== *)
theory Aws_Api
  imports Io_Steps Api_Types
begin

text \<open>
  What the AWS provider \<^verbatim>\<open>internal/cloud/aws/manager.go\<close> uses of the AWS SDK: the data it reads and sends,
  as records with the fields of the SDK structs it uses, and the calls of the EC2, Auto Scaling and
  load balancing clients as functions on an environment \<open>'w\<close>. No call is defined here. A pointer field
  of an answer is an \<open>option\<close>; the values of the SDK's enumerations are their documented strings.

  \<open>recorded_aws\<close> wraps the calls so that each changing one is appended to a log, whether or not it
  succeeds; theorems about what the provider does to the account are theorems about that log.
\<close>

section \<open>Data\<close>

record subnet =
  sn_SubnetId :: "string option"
  sn_VpcId :: "string option"
  sn_AvailabilityZone :: "string option"

record load_balancer =
  lb_Arn :: "string option"
  lb_DNSName :: "string option"
  lb_Type :: string
  lb_Scheme :: string

record target_group =
  tg_Arn :: "string option"
  tg_Port :: "int option"

text \<open>\<open>ac_ForwardTargets\<close> are the target groups of the forward configuration; without one the list is empty.\<close>

record listener_action =
  ac_Type :: string
  ac_TargetGroupArn :: "string option"
  ac_ForwardTargets :: "string option list"

record aws_listener =
  li_Arn :: "string option"
  li_Port :: "int option"
  li_Protocol :: string
  li_Actions :: "listener_action list"

record scaling_group =
  as_TargetGroupARNs :: "string list"
  as_Tags :: "(string option \<times> string option) list"
  as_Instances :: "string list"

record launch_template =
  lt_Id :: "string option"
  lt_LatestVersion :: "int option"

type_synonym aws_tags = "(string \<times> string) list"

record template_data =
  td_ImageId :: string
  td_InstanceType :: string
  td_SecurityGroupIds :: "string list"
  td_UserData :: string
  td_HttpTokens :: string
  td_TagSpecifications :: "(string \<times> aws_tags) list"
  td_ProfileArn :: "string option"
  td_ProfileName :: "string option"
  td_KeyName :: "string option"

record template_version_request =
  tv_TemplateId :: "string option"
  tv_Data :: template_data
  tv_SourceVersion :: string
  tv_Description :: string

record scaling_request =
  sr_Name :: string
  sr_MinSize :: int
  sr_MaxSize :: int
  sr_DesiredCapacity :: int
  sr_VPCZoneIdentifier :: string
  sr_AvailabilityZones :: "string list"
  sr_Distribution :: "string option"
  sr_TemplateName :: string
  sr_TemplateVersion :: string
  sr_Tags :: aws_tags

record balancer_request =
  br_Name :: string
  br_Type :: string
  br_Scheme :: string
  br_Subnets :: "string list"
  br_Tags :: aws_tags

record target_group_request =
  tr_Name :: string
  tr_Port :: int
  tr_Protocol :: string
  tr_VpcId :: string
  tr_TargetType :: string
  tr_HealthCheckEnabled :: bool
  tr_HealthCheckProtocol :: string
  tr_HealthCheckPort :: string
  tr_HealthyThreshold :: int
  tr_UnhealthyThreshold :: int
  tr_TimeoutSeconds :: int
  tr_IntervalSeconds :: int
  tr_Tags :: aws_tags

record listener_request =
  lr_Port :: int
  lr_Protocol :: string
  lr_Actions :: "listener_action list"

text \<open>\<^verbatim>\<open>aws.ToString\<close> and \<^verbatim>\<open>aws.ToInt64\<close>: the zero value for a nil pointer.\<close>

definition to_str :: "string option \<Rightarrow> string" where
  "to_str p = (case p of None \<Rightarrow> [] | Some s \<Rightarrow> s)"

definition to_int :: "int option \<Rightarrow> int" where
  "to_int p = (case p of None \<Rightarrow> 0 | Some i \<Rightarrow> i)"

lemma to_str_simps [simp]: "to_str None = []" "to_str (Some s) = s"
  by (simp_all add: to_str_def)

lemma to_int_simps [simp]: "to_int None = 0" "to_int (Some i) = i"
  by (simp_all add: to_int_def)

section \<open>Calls\<close>

text \<open>
  \<open>aw_port_order\<close> and \<open>aw_arn_order\<close> are the order in which a \<^verbatim>\<open>range\<close> over a Go map visits its keys, which
  the language leaves open; the number tells the loops apart. \<open>aw_spec_json\<close> is \<^verbatim>\<open>json.Marshal\<close> of a spec,
  used only for a description.
\<close>

record 'w aws_api =
  aw_DescribeSubnets :: "string list \<Rightarrow> (subnet list, 'w) io"
  aw_DescribeLaunchTemplates :: "string list \<Rightarrow> (launch_template list, 'w) io"
  aw_CreateLaunchTemplate :: "string \<Rightarrow> template_data \<Rightarrow> string \<Rightarrow> (launch_template, 'w) io"
  aw_CreateLaunchTemplateVersion :: "template_version_request \<Rightarrow> (int option, 'w) io"
  aw_ModifyLaunchTemplate :: "string option \<Rightarrow> string \<Rightarrow> (unit, 'w) io"
  aw_DeleteLaunchTemplate :: "string \<Rightarrow> (unit, 'w) io"
  aw_DescribeAutoScalingGroups :: "string list \<Rightarrow> (scaling_group list, 'w) io"
  aw_CreateAutoScalingGroup :: "scaling_request \<Rightarrow> (unit, 'w) io"
  aw_UpdateAutoScalingGroup :: "scaling_request \<Rightarrow> (unit, 'w) io"
  aw_DeleteAutoScalingGroup :: "string \<Rightarrow> bool \<Rightarrow> (unit, 'w) io"
  aw_AttachTargetGroups :: "string \<Rightarrow> string list \<Rightarrow> (unit, 'w) io"
  aw_DetachTargetGroups :: "string \<Rightarrow> string list \<Rightarrow> (unit, 'w) io"
  aw_DescribeInstanceRefreshes :: "string \<Rightarrow> int \<Rightarrow> (string list, 'w) io"
  aw_StartInstanceRefresh :: "string \<Rightarrow> string \<Rightarrow> (unit, 'w) io"
  aw_SetTag :: "string \<Rightarrow> string \<Rightarrow> string \<Rightarrow> (unit, 'w) io"
  aw_DescribeLoadBalancers :: "string list \<Rightarrow> (load_balancer list, 'w) io"
  aw_CreateLoadBalancer :: "balancer_request \<Rightarrow> (load_balancer list, 'w) io"
  aw_DeleteLoadBalancer :: "string \<Rightarrow> (unit, 'w) io"
  aw_DescribeListeners :: "string \<Rightarrow> (aws_listener list, 'w) io"
  aw_CreateListener :: "string \<Rightarrow> listener_request \<Rightarrow> (aws_listener list, 'w) io"
  aw_ModifyListener :: "string \<Rightarrow> listener_request \<Rightarrow> (unit, 'w) io"
  aw_DeleteListener :: "string \<Rightarrow> (unit, 'w) io"
  aw_DescribeTargetGroups :: "string \<Rightarrow> (target_group list, 'w) io"
  aw_CreateTargetGroup :: "target_group_request \<Rightarrow> (target_group list, 'w) io"
  aw_DeleteTargetGroup :: "string \<Rightarrow> (unit, 'w) io"
  aw_port_order :: "nat \<Rightarrow> int list \<Rightarrow> int list"
  aw_arn_order :: "string list \<Rightarrow> string list"
  aw_spec_json :: "machine_group_spec \<Rightarrow> string"

text \<open>Whatever the order is, it visits every key once.\<close>

definition in_order :: "('a list \<Rightarrow> 'a list) \<Rightarrow> 'a list \<Rightarrow> 'a list" where
  "in_order order xs = (if mset (order xs) = mset xs then order xs else xs)"

lemma mset_in_order [simp]: "mset (in_order order xs) = mset xs"
  by (simp add: in_order_def)

lemma set_in_order [simp]: "set (in_order order xs) = set xs"
  using mset_in_order [of order xs] by (rule mset_eq_setD)

lemma distinct_in_order [simp]: "distinct (in_order order xs) = distinct xs"
  using mset_in_order [of order xs] by (rule mset_eq_imp_distinct_iff)

section \<open>Errors\<close>

definition isNotFound :: "go_error \<Rightarrow> bool" where
  "isNotFound e =
     (let msg = to_lower (err_text e) in
      if contains msg ''not found'' \<or> contains msg ''does not exist'' then True
      else (case err_api e of
          None \<Rightarrow> False
        | Some (code, message) \<Rightarrow>
            (let code = to_lower code in
             if contains code ''notfound'' then True
             else if code = ''validationerror'' then
               (let msg = to_lower message in contains msg ''not found'' \<or> contains msg ''does not exist'')
             else False)))"

definition isInstanceRefreshInProgress :: "go_error \<Rightarrow> bool" where
  "isInstanceRefreshInProgress e = (case err_api e of
      None \<Rightarrow> False
    | Some (code, _) \<Rightarrow> equal_fold code ''InstanceRefreshInProgress'')"

text \<open>A deletion: an object that is not there counts as deleted.\<close>

definition delete_step :: "string \<Rightarrow> (unit, 'w) io \<Rightarrow> (unit, 'w) io" where
  "delete_step what f = io_catch f (\<lambda>e. if isNotFound e then io_return () else io_fail (wrap_error what e))"

text \<open>A description: nothing found is an empty answer.\<close>

definition describe_step :: "string \<Rightarrow> ('a list, 'w) io \<Rightarrow> ('a list, 'w) io" where
  "describe_step what f = io_catch f (\<lambda>e. if isNotFound e then io_return [] else io_fail (wrap_error what e))"

lemma keeps_delete_step [keeps_rules]: "keeps I f \<Longrightarrow> keeps I (delete_step what f)"
  unfolding delete_step_def by (intro keeps_rules)

lemma keeps_describe_step [keeps_rules]: "keeps I f \<Longrightarrow> keeps I (describe_step what f)"
  unfolding describe_step_def by (intro keeps_rules)

section \<open>Recorded calls\<close>

datatype aws_call =
    CreateTemplate string template_data
  | CreateTemplateVersion template_version_request
  | SetDefaultVersion "string option" string
  | DeleteTemplate string
  | CreateGroup scaling_request
  | UpdateGroup scaling_request
  | DeleteGroup string bool
  | AttachTargets string "string list"
  | DetachTargets string "string list"
  | StartRefresh string
  | SetTag string string string
  | CreateBalancer balancer_request
  | DeleteBalancer string
  | CreateListener string listener_request
  | ModifyListener string listener_request
  | DeleteListener string
  | CreateTargetGroup target_group_request
  | DeleteTargetGroup string

definition unlogged :: "('a, 'w) io \<Rightarrow> ('a, 'w \<times> aws_call list) io" where
  "unlogged f = (\<lambda>(w, log). case f w of (r, w') \<Rightarrow> (r, (w', log)))"

definition logged_as :: "aws_call \<Rightarrow> ('a, 'w) io \<Rightarrow> ('a, 'w \<times> aws_call list) io" where
  "logged_as c f = (\<lambda>(w, log). case f w of (r, w') \<Rightarrow> (r, (w', log @ [c])))"

definition recorded_aws :: "'w aws_api \<Rightarrow> ('w \<times> aws_call list) aws_api" where
  "recorded_aws A = \<lparr>
     aw_DescribeSubnets = (\<lambda>ids. unlogged (aw_DescribeSubnets A ids)),
     aw_DescribeLaunchTemplates = (\<lambda>ns. unlogged (aw_DescribeLaunchTemplates A ns)),
     aw_CreateLaunchTemplate = (\<lambda>n d v. logged_as (CreateTemplate n d) (aw_CreateLaunchTemplate A n d v)),
     aw_CreateLaunchTemplateVersion = (\<lambda>r. logged_as (CreateTemplateVersion r) (aw_CreateLaunchTemplateVersion A r)),
     aw_ModifyLaunchTemplate = (\<lambda>i v. logged_as (SetDefaultVersion i v) (aw_ModifyLaunchTemplate A i v)),
     aw_DeleteLaunchTemplate = (\<lambda>n. logged_as (DeleteTemplate n) (aw_DeleteLaunchTemplate A n)),
     aw_DescribeAutoScalingGroups = (\<lambda>ns. unlogged (aw_DescribeAutoScalingGroups A ns)),
     aw_CreateAutoScalingGroup = (\<lambda>r. logged_as (CreateGroup r) (aw_CreateAutoScalingGroup A r)),
     aw_UpdateAutoScalingGroup = (\<lambda>r. logged_as (UpdateGroup r) (aw_UpdateAutoScalingGroup A r)),
     aw_DeleteAutoScalingGroup = (\<lambda>n b. logged_as (DeleteGroup n b) (aw_DeleteAutoScalingGroup A n b)),
     aw_AttachTargetGroups = (\<lambda>n arns. logged_as (AttachTargets n arns) (aw_AttachTargetGroups A n arns)),
     aw_DetachTargetGroups = (\<lambda>n arns. logged_as (DetachTargets n arns) (aw_DetachTargetGroups A n arns)),
     aw_DescribeInstanceRefreshes = (\<lambda>n k. unlogged (aw_DescribeInstanceRefreshes A n k)),
     aw_StartInstanceRefresh = (\<lambda>n s. logged_as (StartRefresh n) (aw_StartInstanceRefresh A n s)),
     aw_SetTag = (\<lambda>n k v. logged_as (SetTag n k v) (aw_SetTag A n k v)),
     aw_DescribeLoadBalancers = (\<lambda>ns. unlogged (aw_DescribeLoadBalancers A ns)),
     aw_CreateLoadBalancer = (\<lambda>r. logged_as (CreateBalancer r) (aw_CreateLoadBalancer A r)),
     aw_DeleteLoadBalancer = (\<lambda>a. logged_as (DeleteBalancer a) (aw_DeleteLoadBalancer A a)),
     aw_DescribeListeners = (\<lambda>a. unlogged (aw_DescribeListeners A a)),
     aw_CreateListener = (\<lambda>a r. logged_as (CreateListener a r) (aw_CreateListener A a r)),
     aw_ModifyListener = (\<lambda>a r. logged_as (ModifyListener a r) (aw_ModifyListener A a r)),
     aw_DeleteListener = (\<lambda>a. logged_as (DeleteListener a) (aw_DeleteListener A a)),
     aw_DescribeTargetGroups = (\<lambda>a. unlogged (aw_DescribeTargetGroups A a)),
     aw_CreateTargetGroup = (\<lambda>r. logged_as (CreateTargetGroup r) (aw_CreateTargetGroup A r)),
     aw_DeleteTargetGroup = (\<lambda>a. logged_as (DeleteTargetGroup a) (aw_DeleteTargetGroup A a)),
     aw_port_order = aw_port_order A, aw_arn_order = aw_arn_order A, aw_spec_json = aw_spec_json A\<rparr>"

lemma recorded_aws_simps [simp]:
  "aw_DescribeSubnets (recorded_aws A) ids = unlogged (aw_DescribeSubnets A ids)"
  "aw_DescribeLaunchTemplates (recorded_aws A) names = unlogged (aw_DescribeLaunchTemplates A names)"
  "aw_CreateLaunchTemplate (recorded_aws A) name data ver = logged_as (CreateTemplate name data) (aw_CreateLaunchTemplate A name data ver)"
  "aw_CreateLaunchTemplateVersion (recorded_aws A) vreq = logged_as (CreateTemplateVersion vreq) (aw_CreateLaunchTemplateVersion A vreq)"
  "aw_ModifyLaunchTemplate (recorded_aws A) tid ver = logged_as (SetDefaultVersion tid ver) (aw_ModifyLaunchTemplate A tid ver)"
  "aw_DeleteLaunchTemplate (recorded_aws A) name = logged_as (DeleteTemplate name) (aw_DeleteLaunchTemplate A name)"
  "aw_DescribeAutoScalingGroups (recorded_aws A) names = unlogged (aw_DescribeAutoScalingGroups A names)"
  "aw_CreateAutoScalingGroup (recorded_aws A) req = logged_as (CreateGroup req) (aw_CreateAutoScalingGroup A req)"
  "aw_UpdateAutoScalingGroup (recorded_aws A) req = logged_as (UpdateGroup req) (aw_UpdateAutoScalingGroup A req)"
  "aw_DeleteAutoScalingGroup (recorded_aws A) name force = logged_as (DeleteGroup name force) (aw_DeleteAutoScalingGroup A name force)"
  "aw_AttachTargetGroups (recorded_aws A) name arns = logged_as (AttachTargets name arns) (aw_AttachTargetGroups A name arns)"
  "aw_DetachTargetGroups (recorded_aws A) name arns = logged_as (DetachTargets name arns) (aw_DetachTargetGroups A name arns)"
  "aw_DescribeInstanceRefreshes (recorded_aws A) name most = unlogged (aw_DescribeInstanceRefreshes A name most)"
  "aw_StartInstanceRefresh (recorded_aws A) name strat = logged_as (StartRefresh name) (aw_StartInstanceRefresh A name strat)"
  "aw_SetTag (recorded_aws A) name key ver = logged_as (SetTag name key ver) (aw_SetTag A name key ver)"
  "aw_DescribeLoadBalancers (recorded_aws A) names = unlogged (aw_DescribeLoadBalancers A names)"
  "aw_CreateLoadBalancer (recorded_aws A) breq = logged_as (CreateBalancer breq) (aw_CreateLoadBalancer A breq)"
  "aw_DeleteLoadBalancer (recorded_aws A) arn = logged_as (DeleteBalancer arn) (aw_DeleteLoadBalancer A arn)"
  "aw_DescribeListeners (recorded_aws A) arn = unlogged (aw_DescribeListeners A arn)"
  "aw_CreateListener (recorded_aws A) arn lreq = logged_as (CreateListener arn lreq) (aw_CreateListener A arn lreq)"
  "aw_ModifyListener (recorded_aws A) arn lreq = logged_as (ModifyListener arn lreq) (aw_ModifyListener A arn lreq)"
  "aw_DeleteListener (recorded_aws A) arn = logged_as (DeleteListener arn) (aw_DeleteListener A arn)"
  "aw_DescribeTargetGroups (recorded_aws A) arn = unlogged (aw_DescribeTargetGroups A arn)"
  "aw_CreateTargetGroup (recorded_aws A) treq = logged_as (CreateTargetGroup treq) (aw_CreateTargetGroup A treq)"
  "aw_DeleteTargetGroup (recorded_aws A) arn = logged_as (DeleteTargetGroup arn) (aw_DeleteTargetGroup A arn)"
  "aw_port_order (recorded_aws A) = aw_port_order A"
  "aw_arn_order (recorded_aws A) = aw_arn_order A"
  "aw_spec_json (recorded_aws A) = aw_spec_json A"
  by (simp_all add: recorded_aws_def)

text \<open>Every call of the log satisfies \<open>G\<close>.\<close>

definition obeys :: "(aws_call \<Rightarrow> bool) \<Rightarrow> 'w \<times> aws_call list \<Rightarrow> bool" where
  "obeys G wl \<longleftrightarrow> list_all G (snd wl)"

lemma keeps_unlogged [keeps_rules]: "keeps (obeys G) (unlogged f)"
  by (simp add: keeps_def obeys_def unlogged_def split: prod.split)

lemma keeps_logged_as [keeps_rules]: "G c \<Longrightarrow> keeps (obeys G) (logged_as c f)"
  by (simp add: keeps_def obeys_def logged_as_def split: prod.split)

lemma obeys_log: "keeps (obeys G) f \<Longrightarrow> f (w, []) = (r, (w', log)) \<Longrightarrow> c \<in> set log \<Longrightarrow> G c"
proof -
  assume "keeps (obeys G) f" and run: "f (w, []) = (r, (w', log))" and "c \<in> set log"
  from keepsD [OF this(1), of "(w, [])"] have "obeys G (w', log)" unfolding run by (simp add: obeys_def)
  then show "G c" using \<open>c \<in> set log\<close> by (simp add: obeys_def list_all_iff)
qed

section \<open>An account for the witnesses\<close>

text \<open>
  Fixed answers: every subnet exists, the scaling group \<open>g\<close> exists, nothing else does, and every change
  succeeds.
\<close>

definition sample_aws :: "scaling_group \<Rightarrow> 'w aws_api" where
  "sample_aws g = \<lparr>
     aw_DescribeSubnets = (\<lambda>ids. io_return (map (\<lambda>i. \<lparr>sn_SubnetId = Some i, sn_VpcId = Some ''vpc-1'',
       sn_AvailabilityZone = Some ''az-1''\<rparr>) ids)),
     aw_DescribeLaunchTemplates = (\<lambda>ns. io_return []),
     aw_CreateLaunchTemplate = (\<lambda>n d v. io_return \<lparr>lt_Id = Some ''lt-1'', lt_LatestVersion = Some 1\<rparr>),
     aw_CreateLaunchTemplateVersion = (\<lambda>r. io_return (Some 2)),
     aw_ModifyLaunchTemplate = (\<lambda>i v. io_return ()), aw_DeleteLaunchTemplate = (\<lambda>n. io_return ()),
     aw_DescribeAutoScalingGroups = (\<lambda>ns. io_return [g]),
     aw_CreateAutoScalingGroup = (\<lambda>r. io_return ()), aw_UpdateAutoScalingGroup = (\<lambda>r. io_return ()),
     aw_DeleteAutoScalingGroup = (\<lambda>n b. io_return ()),
     aw_AttachTargetGroups = (\<lambda>n arns. io_return ()), aw_DetachTargetGroups = (\<lambda>n arns. io_return ()),
     aw_DescribeInstanceRefreshes = (\<lambda>n k. io_return []),
     aw_StartInstanceRefresh = (\<lambda>n s. io_return ()), aw_SetTag = (\<lambda>n k v. io_return ()),
     aw_DescribeLoadBalancers = (\<lambda>ns. io_return []),
     aw_CreateLoadBalancer = (\<lambda>r. io_return [\<lparr>lb_Arn = Some (''lb/'' @ br_Name r), lb_DNSName = Some (br_Name r),
       lb_Type = br_Type r, lb_Scheme = br_Scheme r\<rparr>]),
     aw_DeleteLoadBalancer = (\<lambda>a. io_return ()), aw_DescribeListeners = (\<lambda>a. io_return []),
     aw_CreateListener = (\<lambda>a r. io_return [\<lparr>li_Arn = Some (''listener/'' @ show_int (lr_Port r)),
       li_Port = Some (lr_Port r), li_Protocol = lr_Protocol r, li_Actions = lr_Actions r\<rparr>]),
     aw_ModifyListener = (\<lambda>a r. io_return ()), aw_DeleteListener = (\<lambda>a. io_return ()),
     aw_DescribeTargetGroups = (\<lambda>a. io_return []),
     aw_CreateTargetGroup = (\<lambda>r. io_return [\<lparr>tg_Arn = Some (''tg/'' @ tr_Name r), tg_Port = Some (tr_Port r)\<rparr>]),
     aw_DeleteTargetGroup = (\<lambda>a. io_return ()),
     aw_port_order = (\<lambda>_ ps. ps), aw_arn_order = (\<lambda>as. as), aw_spec_json = (\<lambda>_. [])\<rparr>"

lemma describe_return [simp]: "describe_step what (io_return xs) = io_return xs"
  by (simp add: describe_step_def)

lemma delete_return [simp]: "delete_step what (io_return x) = io_return x"
  by (simp add: delete_step_def)

lemma sample_aws_simps [simp]:
  "aw_DescribeSubnets (sample_aws g) ids = io_return (map (\<lambda>i. \<lparr>sn_SubnetId = Some i, sn_VpcId = Some ''vpc-1'', sn_AvailabilityZone = Some ''az-1''\<rparr>) ids)"
  "aw_DescribeLaunchTemplates (sample_aws g) ns = io_return []"
  "aw_CreateLaunchTemplate (sample_aws g) n tdata ver = io_return \<lparr>lt_Id = Some ''lt-1'', lt_LatestVersion = Some 1\<rparr>"
  "aw_CreateLaunchTemplateVersion (sample_aws g) vreq = io_return (Some 2)"
  "aw_ModifyLaunchTemplate (sample_aws g) tid ver = io_return ()"
  "aw_DeleteLaunchTemplate (sample_aws g) n = io_return ()"
  "aw_DescribeAutoScalingGroups (sample_aws g) ns = io_return [g]"
  "aw_CreateAutoScalingGroup (sample_aws g) req = io_return ()"
  "aw_UpdateAutoScalingGroup (sample_aws g) req = io_return ()"
  "aw_DeleteAutoScalingGroup (sample_aws g) n b = io_return ()"
  "aw_AttachTargetGroups (sample_aws g) n arns = io_return ()"
  "aw_DetachTargetGroups (sample_aws g) n arns = io_return ()"
  "aw_DescribeInstanceRefreshes (sample_aws g) n most = io_return []"
  "aw_StartInstanceRefresh (sample_aws g) n strat = io_return ()"
  "aw_SetTag (sample_aws g) n key ver = io_return ()"
  "aw_DescribeLoadBalancers (sample_aws g) ns = io_return []"
  "aw_CreateLoadBalancer (sample_aws g) breq = io_return [\<lparr>lb_Arn = Some (''lb/'' @ br_Name breq), lb_DNSName = Some (br_Name breq), lb_Type = br_Type breq, lb_Scheme = br_Scheme breq\<rparr>]"
  "aw_DeleteLoadBalancer (sample_aws g) a = io_return ()"
  "aw_DescribeListeners (sample_aws g) a = io_return []"
  "aw_CreateListener (sample_aws g) a lreq = io_return [\<lparr>li_Arn = Some (''listener/'' @ show_int (lr_Port lreq)), li_Port = Some (lr_Port lreq), li_Protocol = lr_Protocol lreq, li_Actions = lr_Actions lreq\<rparr>]"
  "aw_ModifyListener (sample_aws g) a lreq = io_return ()"
  "aw_DeleteListener (sample_aws g) a = io_return ()"
  "aw_DescribeTargetGroups (sample_aws g) a = io_return []"
  "aw_CreateTargetGroup (sample_aws g) treq = io_return [\<lparr>tg_Arn = Some (''tg/'' @ tr_Name treq), tg_Port = Some (tr_Port treq)\<rparr>]"
  "aw_DeleteTargetGroup (sample_aws g) a = io_return ()"
  "aw_port_order (sample_aws g) k ps = ps"
  "aw_arn_order (sample_aws g) arns = arns"
  "aw_spec_json (sample_aws g) spec = []"
  by (simp_all add: sample_aws_def)

end
