(* ===== verification/Aws_Names.thy ===== *)
theory Aws_Names
  imports Aws_Api Sha256 Cloud_Manager
begin

text \<open>
  The names, tags and hashes of the AWS provider: pure functions of \<^verbatim>\<open>internal/cloud/aws/manager.go\<close>.

  \<open>awsResourceName\<close> reduces any string to what AWS allows in a name. The code visits the code points of
  the string and the model its bytes: every code point outside \<^verbatim>\<open>a-z0-9-\<close> becomes a dash, runs of dashes
  are collapsed afterwards, so that the number of dashes a code point becomes makes no difference.
\<close>

section \<open>Resource names\<close>

definition name_char :: "char \<Rightarrow> bool" where
  "name_char c \<longleftrightarrow> (let n = (of_char c :: nat) in 97 \<le> n \<and> n \<le> 122 \<or> 48 \<le> n \<and> n \<le> 57 \<or> c = CHR ''-'')"

definition letter :: "char \<Rightarrow> bool" where
  "letter c \<longleftrightarrow> (let n = (of_char c :: nat) in 97 \<le> n \<and> n \<le> 122)"

definition name_chars :: "string \<Rightarrow> string" where
  "name_chars raw = map (\<lambda>c. if name_char c then c else CHR ''-'') (to_lower (trim_space raw))"

text \<open>The loop that replaces double dashes until there is none.\<close>

abbreviation "dash \<equiv> CHR ''-''"

lemma replace_dashes [simp]:
  "replace_all ''--'' ''-'' (dash # dash # s) = dash # replace_all ''--'' ''-'' s"
  "c \<noteq> dash \<Longrightarrow> replace_all ''--'' ''-'' (c # s) = c # replace_all ''--'' ''-'' s"
  "d \<noteq> dash \<Longrightarrow> replace_all ''--'' ''-'' (dash # d # s) = dash # d # replace_all ''--'' ''-'' s"
  by simp_all

lemma replace_dashes_length: "length (replace_all ''--'' ''-'' s) \<le> length s"
proof (induction s rule: induct_list012)
  case (3 c d s)
  then show ?case by (cases "c = dash"; cases "d = dash") (simp_all del: replace_all.simps)
qed simp_all

lemma replace_dashes_shorter:
  "contains s ''--'' \<Longrightarrow> length (replace_all ''--'' ''-'' s) < length s"
proof (induction s rule: induct_list012)
  case (3 c d s)
  have "contains (c # d # s) ''--'' \<longleftrightarrow> c = dash \<and> d = dash \<or> contains (d # s) ''--''"
    by (auto simp: sublist_Cons_right)
  with 3 replace_dashes_length [of s] show ?case
    by (cases "c = dash"; cases "d = dash") (auto simp: sublist_Cons_right simp del: replace_all.simps)
qed (simp_all add: sublist_Cons_right)

function collapse_dashes :: "string \<Rightarrow> string" where
  "collapse_dashes name =
     (if contains name ''--'' then collapse_dashes (replace_all ''--'' ''-'' name) else name)"
  by pat_completeness auto
termination
  by (relation "measure length") (simp_all add: replace_dashes_shorter)

declare collapse_dashes.simps [simp del]

text \<open>The name before it is cut: not empty, with a letter in front and single dashes.\<close>

definition clean_name :: "string \<Rightarrow> string" where
  "clean_name raw =
     (let name = trim_char (CHR ''-'') (name_chars raw);
          name = (if name = [] then ''tpm'' else name);
          name = (if letter (hd name) then name else ''tpm-'' @ name)
      in collapse_dashes name)"

definition awsResourceName :: "string \<Rightarrow> int \<Rightarrow> string" where
  "awsResourceName raw maxLen =
     (if maxLen \<le> 0 then []
      else
        (let name = clean_name raw in
         if int (length name) \<le> maxLen then name
         else
           (let suff = ''-'' @ take 8 (hex_encode (sum256 name));
                prefixLen = maxLen - int (length suff) in
            if prefixLen < 3 then take (nat maxLen) name
            else
              (let pre = trim_char (CHR ''-'') (take (nat prefixLen) name);
                   pre = (if pre = [] then ''tpm'' else pre)
               in pre @ suff))))"

definition loadBalancerName :: "machine_group \<Rightarrow> lb_exposure_spec \<Rightarrow> string" where
  "loadBalancerName mg lb =
     (let name = trim_space (lbs_LoadBalancerName lb);
          name = (if name = [] then ''tpm-'' @ meta_namespace (mg_meta mg) @ ''-'' @ meta_name (mg_meta mg) @
                    ''-'' @ lbs_Name lb else name)
      in awsResourceName name 32)"

definition targetGroupName :: "machine_group \<Rightarrow> lb_exposure_spec \<Rightarrow> int \<Rightarrow> string" where
  "targetGroupName mg lb port =
     awsResourceName (''tpm-'' @ meta_namespace (mg_meta mg) @ ''-'' @ meta_name (mg_meta mg) @ ''-'' @
       lbs_Name lb @ ''-p'' @ show_int port) 32"

section \<open>Hashes and tags\<close>

definition tiproxyImageSpecHash :: "runtime_spec \<Rightarrow> string" where
  "tiproxyImageSpecHash spec =
     (let img = trim_space (rt_Image spec); baseImage = trim_space (rt_BaseImage spec);
          version = trim_space (rt_Version spec) in
      if img = [] \<and> baseImage = [] \<and> version = [] then []
      else hex_encode (take 8 (sum256 (img @ [CHR 0x0A] @ baseImage @ [CHR 0x0A] @ version))))"

definition versionDescription :: "'w aws_api \<Rightarrow> machine_group \<Rightarrow> string" where
  "versionDescription A mg =
     ''tiproxy-machine-operator-'' @ hex_encode (take 8 (sum256 (aw_spec_json A (mg_Spec mg))))"

text \<open>The tags of the provider, overwritten by those of the spec, in the order of their keys.\<close>

definition sorted_tags :: "(string, string) gomap \<Rightarrow> (string, string) gomap \<Rightarrow> aws_tags" where
  "sorted_tags own extra = sort_key fst (store_all extra own)"

definition buildEC2Tags :: "machine_group \<Rightarrow> aws_tags" where
  "buildEC2Tags mg = sorted_tags
     [(''Name'', meta_namespace (mg_meta mg) @ ''-'' @ meta_name (mg_meta mg)),
      (''tiproxy.pingcap.com/group'', meta_name (mg_meta mg)),
      (''tiproxy.pingcap.com/namespace'', meta_namespace (mg_meta mg)),
      (''tiproxy.pingcap.com/managed-by'', ''tiproxy-machine-operator'')] (sp_Tags (mg_Spec mg))"

definition buildASGTags :: "machine_group \<Rightarrow> aws_tags" where
  "buildASGTags mg = sorted_tags
     [(''Name'', meta_namespace (mg_meta mg) @ ''-'' @ meta_name (mg_meta mg)),
      (''tiproxy.pingcap.com/group'', meta_name (mg_meta mg)),
      (''tiproxy.pingcap.com/namespace'', meta_namespace (mg_meta mg)),
      (''tiproxy.pingcap.com/managed-by'', ''tiproxy-machine-operator'')] (sp_Tags (mg_Spec mg))"

definition buildELBTags :: "machine_group \<Rightarrow> lb_exposure_spec \<Rightarrow> aws_tags" where
  "buildELBTags mg lb = sorted_tags
     [(''Name'', meta_namespace (mg_meta mg) @ ''-'' @ meta_name (mg_meta mg) @ ''-'' @ lbs_Name lb),
      (''tiproxy.pingcap.com/group'', meta_name (mg_meta mg)),
      (''tiproxy.pingcap.com/load-balancer'', lbs_Name lb),
      (''tiproxy.pingcap.com/namespace'', meta_namespace (mg_meta mg)),
      (''tiproxy.pingcap.com/managed-by'', ''tiproxy-machine-operator'')] (sp_Tags (mg_Spec mg))"

section \<open>What a resource name looks like\<close>

text \<open>The loop does what one pass over the string does.\<close>

fun squeeze :: "string \<Rightarrow> string" where
  "squeeze (c # d # s) = (if c = dash \<and> d = dash then squeeze (d # s) else c # squeeze (d # s))"
| "squeeze s = s"

lemma squeeze_replace: "squeeze (c # replace_all ''--'' ''-'' s) = squeeze (c # s)"
proof (induction s arbitrary: c rule: induct_list012)
  case (3 d e s)
  then show ?case by (cases "d = dash"; cases "e = dash") (simp_all del: replace_all.simps)
qed simp_all

lemma squeeze_single: "\<not> contains s ''--'' \<Longrightarrow> squeeze s = s"
  by (induction s rule: squeeze.induct) (auto simp: sublist_Cons_right)

lemma collapse_dashes_squeeze: "collapse_dashes name = squeeze name"
proof (induction name rule: collapse_dashes.induct)
  case (1 name)
  show ?case
  proof (cases "contains name ''--''")
    case True
    then obtain c s where "name = c # s" by (cases name) auto
    have "squeeze (replace_all ''--'' ''-'' name) = squeeze name"
    proof (cases "c = dash \<and> (\<exists>t. s = dash # t)")
      case True
      then show ?thesis using \<open>name = c # s\<close> squeeze_replace [of dash]
        by (auto simp del: replace_all.simps)
    next
      case False
      then have "replace_all ''--'' ''-'' name = c # replace_all ''--'' ''-'' s"
        using \<open>name = c # s\<close> by (cases s) (auto simp: prefix_Cons)
      then show ?thesis using squeeze_replace [of c s] \<open>name = c # s\<close> by simp
    qed
    then show ?thesis using 1 True by (subst collapse_dashes.simps) simp
  next
    case False
    then show ?thesis by (subst collapse_dashes.simps) (simp add: squeeze_single)
  qed
qed

lemma set_squeeze: "set (squeeze s) \<subseteq> set s"
  by (induction s rule: squeeze.induct) auto

lemma squeeze_no_double: "\<not> contains (squeeze s) ''--''"
proof (induction s rule: squeeze.induct)
  case (1 c d s)
  have hd: "\<exists>t. squeeze (d # s) = d # t" by (induction s arbitrary: d) auto
  then obtain t where t: "squeeze (d # s) = d # t" by blast
  show ?case
  proof (cases "c = dash \<and> d = dash")
    case True
    then show ?thesis using 1 by simp
  next
    case False
    then show ?thesis using 1 t by (auto simp: sublist_Cons_right)
  qed
qed (simp_all add: sublist_Cons_right)

lemma squeeze_ends:
  "s \<noteq> [] \<Longrightarrow> squeeze s \<noteq> [] \<and> hd (squeeze s) = hd s \<and> last (squeeze s) = last s"
  by (induction s rule: squeeze.induct) auto

definition valid_name :: "string \<Rightarrow> bool" where
  "valid_name s \<longleftrightarrow> s \<noteq> [] \<and> letter (hd s) \<and> last s \<noteq> dash \<and> list_all name_char s \<and> \<not> contains s ''--''"

lemma name_char_simps [simp]: "name_char dash" "\<not> letter dash"
  by (simp_all add: name_char_def letter_def)

lemma trim_char_ends:
  assumes "trim_char c s \<noteq> []"
  shows "last (trim_char c s) \<noteq> c" "hd (trim_char c s) \<noteq> c"
proof -
  let ?t = "dropWhile (\<lambda>x. x = c) s"
  let ?u = "dropWhile (\<lambda>x. x = c) (rev ?t)"
  have ne: "?u \<noteq> []" using assms by (simp add: trim_char_def)
  show "last (trim_char c s) \<noteq> c"
    using hd_dropWhile [OF ne] by (simp add: trim_char_def last_rev)
  have "?t \<noteq> []" using ne by (metis dropWhile.simps(1) rev.simps(1))
  have "suffix ?u (rev ?t)" by (rule suffix_dropWhile)
  then obtain p where "rev ?t = p @ ?u" by (rule suffixE)
  then have "?t = rev ?u @ rev p" by (metis rev_append rev_rev_ident)
  then have "hd (rev ?u) = hd ?t" using ne by (metis hd_append2 rev_is_Nil_conv)
  then show "hd (trim_char c s) \<noteq> c" using hd_dropWhile [OF \<open>?t \<noteq> []\<close>] by (simp add: trim_char_def)
qed

lemma trim_char_sublist: "sublist (trim_char c s) s"
proof -
  have "suffix (dropWhile (\<lambda>x. x = c) s) s" "suffix (dropWhile (\<lambda>x. x = c) (rev (dropWhile (\<lambda>x. x = c) s)))
      (rev (dropWhile (\<lambda>x. x = c) s))" by (rule suffix_dropWhile)+
  then have "prefix (trim_char c s) (dropWhile (\<lambda>x. x = c) s)"
    by (simp add: trim_char_def suffix_to_prefix)
  then show ?thesis using \<open>suffix (dropWhile (\<lambda>x. x = c) s) s\<close>
    by (blast intro: prefix_imp_sublist sublist_order.order_trans suffix_imp_sublist)
qed

lemma trim_char_set: "set (trim_char c s) \<subseteq> set s"
  by (rule set_mono_sublist [OF trim_char_sublist])

lemma trim_char_hd: "s \<noteq> [] \<Longrightarrow> hd s \<noteq> c \<Longrightarrow> trim_char c s \<noteq> [] \<and> hd (trim_char c s) = hd s"
proof -
  assume "s \<noteq> []" "hd s \<noteq> c"
  then obtain d t where s: "s = d # t" "d \<noteq> c" by (cases s) auto
  then have eq: "trim_char c s = rev (dropWhile (\<lambda>x. x = c) (rev t @ [d]))" by (simp add: trim_char_def)
  have "dropWhile (\<lambda>x. x = c) (rev t @ [d]) = dropWhile (\<lambda>x. x = c) (rev t) @ [d]"
    using s(2) by (induction "rev t" arbitrary: t) (auto simp: dropWhile_append)
  then show "trim_char c s \<noteq> [] \<and> hd (trim_char c s) = hd s" using eq s by simp
qed

lemma clean_name_valid: "valid_name (clean_name raw)"
proof -
  let ?n = "trim_char dash (name_chars raw)"
  let ?m = "if ?n = [] then ''tpm'' else ?n"
  let ?k = "if letter (hd ?m) then ?m else ''tpm-'' @ ?m"
  have "set ?m \<subseteq> Collect name_char"
    using trim_char_set [of dash "name_chars raw"] by (auto simp: name_chars_def name_char_def)
  then have chars: "set ?k \<subseteq> Collect name_char" by (auto simp: name_char_def)
  have "?m \<noteq> []" "last ?m \<noteq> dash" using trim_char_ends [of dash "name_chars raw"] by auto
  then have k: "?k \<noteq> []" "last ?k \<noteq> dash" "letter (hd ?k)" by (auto simp: letter_def)
  have "clean_name raw = squeeze ?k" by (simp add: clean_name_def Let_def collapse_dashes_squeeze)
  then show ?thesis
    using k chars set_squeeze [of ?k] squeeze_ends [OF k(1)] squeeze_no_double [of ?k]
    by (auto simp: valid_name_def list_all_iff)
qed

lemma hex_byte_chars: "n < 256 \<Longrightarrow> c \<in> set (hex_byte n) \<Longrightarrow> name_char c \<and> c \<noteq> dash"
proof -
  assume n: "n < 256" "c \<in> set (hex_byte n)"
  have "name_char (hex_digit k) \<and> hex_digit k \<noteq> dash" if "k < 16" for k
  proof -
    have code: "(of_char (hex_digit k) :: nat) = (if k < 10 then 48 + k else 87 + k)"
      using that by (simp add: hex_digit_def)
    then have "hex_digit k \<noteq> dash" by (auto split: if_splits)
    then show ?thesis using that by (simp add: name_char_def Let_def code)
  qed
  then show ?thesis using n by (auto simp: hex_byte_def)
qed

lemma hex_encode_chars: "c \<in> set (hex_encode s) \<Longrightarrow> name_char c \<and> c \<noteq> dash"
proof -
  assume "c \<in> set (hex_encode s)"
  then obtain d where "c \<in> set (hex_byte (of_char d))" by (auto simp: hex_encode_def)
  then show ?thesis by (rule hex_byte_chars [rotated]) simp
qed

lemma no_double_append:
  "\<not> contains s ''--'' \<Longrightarrow> dash \<notin> set t \<Longrightarrow> (s \<noteq> [] \<Longrightarrow> last s \<noteq> dash) \<Longrightarrow> \<not> contains (s @ dash # t) ''--''"
proof (induction s)
  case Nil
  have "\<not> contains t ''--''" using Nil(2) by (auto dest: set_mono_sublist)
  then show ?case using Nil(2) by (cases t) (auto simp: sublist_Cons_right)
next
  case (Cons c s)
  then show ?case by (cases s) (auto simp: sublist_Cons_right)
qed

text \<open>The cut name: a prefix of the name, a dash and eight digits of its hash.\<close>

lemma cut_name_valid:
  assumes "valid_name name" "3 \<le> k" "k < length name" "h \<noteq> []" "\<And>c. c \<in> set h \<Longrightarrow> name_char c \<and> c \<noteq> dash"
  shows "valid_name (trim_char dash (take k name) @ dash # h)" "trim_char dash (take k name) \<noteq> []"
    "length (trim_char dash (take k name)) \<le> k"
proof -
  let ?p = "trim_char dash (take k name)"
  have "take k name \<noteq> []" "hd (take k name) = hd name" using assms(1-3) by (auto simp: valid_name_def)
  moreover have not_dash: "hd name \<noteq> dash"
    using assms(1) name_char_simps(2) unfolding valid_name_def by metis
  ultimately have p: "?p \<noteq> []" "hd ?p = hd name"
    using trim_char_hd [of "take k name" dash] not_dash by simp_all
  have sub: "sublist ?p name"
    by (rule sublist_order.order_trans [OF trim_char_sublist prefix_imp_sublist [OF take_is_prefix]])
  have "set ?p \<subseteq> Collect name_char"
    using set_mono_sublist [OF sub] assms(1) by (auto simp: valid_name_def list_all_iff)
  moreover have "\<not> contains ?p ''--''"
    using sublist_order.order_trans [OF _ sub] assms(1) by (auto simp: valid_name_def)
  then have "\<not> contains (?p @ dash # h) ''--''"
    by (rule no_double_append) (use assms(5) trim_char_ends(1) [OF p(1)] in blast)+
  moreover have "last (dash # h) \<noteq> dash" using assms(4,5) by (auto dest: last_in_set)
  ultimately show "valid_name (?p @ dash # h)"
    using p assms(1,4,5) by (auto simp: valid_name_def list_all_iff)
  show "?p \<noteq> []" by (rule p(1))
  show "length ?p \<le> k" using sublist_length_le [OF trim_char_sublist [of dash "take k name"]] by simp
qed

text \<open>A valid name is its own name.\<close>

lemma replace_all_absent: "a \<notin> set s \<Longrightarrow> replace_all (a # old) new s = s"
  by (induction "a # old" new s rule: replace_all.induct) auto

lemma white_space_chars: "w \<in> set white_space \<Longrightarrow> \<not> name_char (hd w) \<and> \<not> name_char (last w)"
proof -
  have "list_all (\<lambda>w. \<not> name_char (hd w) \<and> \<not> name_char (last w)) white_space" by code_simp
  then show "w \<in> set white_space \<Longrightarrow> ?thesis" by (simp add: list_all_iff)
qed

lemma name_chars_id: "list_all name_char s \<Longrightarrow> name_chars s = s"
proof -
  assume s: "list_all name_char s"
  have "trim_space s = s"
  proof (rule trim_space_id)
    fix w assume w: "w \<in> set white_space" "w \<noteq> []"
    have "\<not> set w \<subseteq> set s"
      using white_space_chars [OF w(1)] hd_in_set [OF w(2)] s unfolding list_all_iff by blast
    then show "\<not> prefix w s \<and> \<not> suffix w s" using set_mono_prefix set_mono_suffix by blast
  qed
  moreover have "to_lower s = s"
  proof -
    have "\<not> name_char (CHR 0xE2)" "\<not> name_char (CHR 0xC4)" by (simp_all add: name_char_def)
    then have "CHR 0xE2 \<notin> set s" "CHR 0xC4 \<notin> set s" using s by (auto simp: list_all_iff)
    moreover have "map ascii_lower s = s"
      using s by (intro map_idI) (auto simp: list_all_iff ascii_lower_def name_char_def Let_def)
    ultimately show ?thesis by (simp add: to_lower_def replace_all_absent)
  qed
  ultimately show ?thesis using s by (auto simp: name_chars_def list_all_iff intro: map_idI)
qed

lemma trim_char_id: "s \<noteq> [] \<Longrightarrow> hd s \<noteq> c \<Longrightarrow> last s \<noteq> c \<Longrightarrow> trim_char c s = s"
proof -
  assume s: "s \<noteq> []" "hd s \<noteq> c" "last s \<noteq> c"
  have "dropWhile (\<lambda>x. x = c) s = s" using s by (cases s) simp_all
  moreover have "dropWhile (\<lambda>x. x = c) (rev s) = rev s" using s by (cases "rev s") (simp_all add: hd_rev [symmetric])
  ultimately show ?thesis by (simp add: trim_char_def)
qed

lemma clean_name_id: "valid_name s \<Longrightarrow> clean_name s = s"
proof -
  assume s: "valid_name s"
  then have "hd s \<noteq> dash" using name_char_simps(2) unfolding valid_name_def by metis
  then have "trim_char dash s = s" using s by (intro trim_char_id) (simp_all add: valid_name_def)
  then show ?thesis
    using s by (simp add: clean_name_def valid_name_def name_chars_id collapse_dashes_squeeze squeeze_single)
qed

lemma resource_name:
  assumes "12 \<le> n"
  shows "valid_name (awsResourceName raw n)" "int (length (awsResourceName raw n)) \<le> n"
proof -
  let ?name = "clean_name raw"
  let ?h = "take 8 (hex_encode (sum256 ?name))"
  have h: "length ?h = 8" "\<And>c. c \<in> set ?h \<Longrightarrow> name_char c \<and> c \<noteq> dash"
    using hex_encode_chars by (auto dest: in_set_takeD)
  have "valid_name (awsResourceName raw n) \<and> int (length (awsResourceName raw n)) \<le> n"
  proof (cases "int (length ?name) \<le> n")
    case True
    then show ?thesis using assms clean_name_valid by (simp add: awsResourceName_def)
  next
    case False
    let ?k = "nat (n - 9)"
    have k: "3 \<le> ?k" "?k < length ?name" using False assms by linarith+
    have "?h \<noteq> []" using h(1) by (metis list.size(3) zero_neq_numeral)
    note cut = cut_name_valid [OF clean_name_valid k this h(2)]
    have "int (length (dash # ?h)) = 9" using h(1) by simp
    then have eq: "awsResourceName raw n = trim_char dash (take ?k ?name) @ dash # ?h"
      using False assms cut(2) by (simp add: awsResourceName_def Let_def)
    have "int ?k = n - 9" using assms by simp
    then have "int (length (trim_char dash (take ?k ?name))) \<le> n - 9" using cut(3) by linarith
    then show ?thesis unfolding eq using cut(1) h(1) by simp
  qed
  then show "valid_name (awsResourceName raw n)" "int (length (awsResourceName raw n)) \<le> n" by simp_all
qed

section \<open>Properties\<close>

text \<open>
  C35: With at least 12 characters allowed, \<open>awsResourceName\<close> turns any string into a valid name: not
  longer than allowed, lower case letters, digits and single dashes only, a letter first and no dash
  last. A name that is valid and short enough is kept.
\<close>

theorem awsResourceName_valid:
  assumes "12 \<le> n"
  shows "int (length (awsResourceName raw n)) \<le> n \<and> valid_name (awsResourceName raw n) \<and>
    awsResourceName (awsResourceName raw n) n = awsResourceName raw n"
  using resource_name [OF assms, of raw] assms
  by (simp add: awsResourceName_def [of "awsResourceName raw n"] clean_name_id)

theorem awsResourceName_valid_witness:
  "valid_name (awsResourceName ''TPM__My.Cluster'' 32) \<and>
   awsResourceName (awsResourceName ''TPM__My.Cluster'' 32) 32 = awsResourceName ''TPM__My.Cluster'' 32"
  using awsResourceName_valid [of 32 "''TPM__My.Cluster''"] by simp

definition named_group :: "string \<Rightarrow> string \<Rightarrow> machine_group" where
  "named_group ns name = sample_mg\<lparr>mg_meta := (sample_meta ''u'' name)\<lparr>meta_namespace := ns\<rparr>\<rparr>"

lemma named_group_simps [simp]:
  "meta_namespace (mg_meta (named_group ns name)) = ns" "meta_name (mg_meta (named_group ns name)) = name"
  "rn_Group (sp_ResourceNames (mg_Spec (named_group ns name))) = []"
  "rn_MachineTemplate (sp_ResourceNames (mg_Spec (named_group ns name))) = []"
  by (simp_all add: named_group_def sample_group)

text \<open>
  Different groups can have the same AWS names: group \<^verbatim>\<open>c\<close> of namespace \<^verbatim>\<open>a-b\<close> and group \<^verbatim>\<open>b-c\<close> of
  namespace \<^verbatim>\<open>a\<close> share the launch template, the auto scaling group and the load balancers.
\<close>

theorem resource_names_collide:
  "mg_meta (named_group ''a-b'' ''c'') \<noteq> mg_meta (named_group ''a'' ''b-c'') \<and>
   ResolveNames (named_group ''a-b'' ''c'') = ResolveNames (named_group ''a'' ''b-c'') \<and>
   loadBalancerName (named_group ''a-b'' ''c'') lb = loadBalancerName (named_group ''a'' ''b-c'') lb \<and>
   targetGroupName (named_group ''a-b'' ''c'') lb port = targetGroupName (named_group ''a'' ''b-c'') lb port"
proof -
  have "mg_meta (named_group ''a-b'' ''c'') \<noteq> mg_meta (named_group ''a'' ''b-c'')"
    by (auto dest: arg_cong [of _ _ meta_name])
  then show ?thesis by (simp add: ResolveNames_def loadBalancerName_def targetGroupName_def Let_def)
qed

end
