(* ===== verification/Aws_Placement.thy ===== *)
theory Aws_Placement
  imports Aws_Names
begin

text \<open>
  Placement in \<^verbatim>\<open>internal/cloud/aws/manager.go\<close>: from the subnets of a spec, their description by EC2 and
  the failure domains, \<open>selectPlacementSubnets\<close> chooses the subnets of the machines and of a load
  balancer. \<open>select_subnets\<close> is its loop over the requested subnets.
\<close>

section \<open>Definitions\<close>

record placement =
  ps_SubnetIDs :: "string list"
  ps_Zones :: "string list"
  ps_VPCID :: string
  ps_Distribution :: "string option"

definition empty_placement :: placement where
  "empty_placement = \<lparr>ps_SubnetIDs = [], ps_Zones = [], ps_VPCID = [], ps_Distribution = None\<rparr>"

definition subnet_vpc :: "subnet \<Rightarrow> string" where
  "subnet_vpc sn = trim_space (to_str (sn_VpcId sn))"

definition subnet_zone :: "subnet \<Rightarrow> string" where
  "subnet_zone sn = trim_space (to_str (sn_AvailabilityZone sn))"

fun index_subnets :: "subnet list \<Rightarrow> (string, subnet) gomap \<Rightarrow> (string, subnet) gomap" where
  "index_subnets [] byID = byID"
| "index_subnets (sn # sns) byID =
     (let subnetID = trim_space (to_str (sn_SubnetId sn)) in
      if subnetID = [] then index_subnets sns byID
      else index_subnets sns (AList.update subnetID sn byID))"

definition allowed_zones :: "string list \<Rightarrow> string list" where
  "allowed_zones failureDomains = remdups (filter (\<lambda>z. z \<noteq> []) (map trim_space failureDomains))"

text \<open>A Go slice printed with \<^verbatim>\<open>%v\<close>; \<open>sortedKeys\<close> is the list of the keys of a set in order.\<close>

definition show_slice :: "string list \<Rightarrow> string" where
  "show_slice xs = ''['' @ join '' '' xs @ '']''"

definition sortedKeys :: "string list \<Rightarrow> string list" where
  "sortedKeys m = sort m"

definition add_zone :: "string \<Rightarrow> placement \<Rightarrow> placement" where
  "add_zone zone sel =
     (if zone \<noteq> [] \<and> zone \<notin> set (ps_Zones sel) then sel\<lparr>ps_Zones := ps_Zones sel @ [zone]\<rparr> else sel)"

fun select_subnets ::
  "string list \<Rightarrow> (string, subnet) gomap \<Rightarrow> string list \<Rightarrow> placement \<Rightarrow> string list \<Rightarrow>
   (placement \<times> string list) result" where
  "select_subnets allowed byID [] selected uncovered = Inr (selected, uncovered)"
| "select_subnets allowed byID (subnetID # ids) selected uncovered =
     (case map_of byID subnetID of
        None \<Rightarrow> Inl (errorf (''subnet '' @ subnetID @ '' not found''))
      | Some sn \<Rightarrow>
          (let vpcID = subnet_vpc sn in
           if vpcID = [] then Inl (errorf (''subnet '' @ subnetID @ '' has empty vpc id''))
           else if ps_VPCID selected \<noteq> [] \<and> ps_VPCID selected \<noteq> vpcID then
             Inl (errorf (''subnets belong to different vpcs: '' @ ps_VPCID selected @ '' and '' @ vpcID))
           else
             (let selected = selected\<lparr>ps_VPCID := vpcID\<rparr>; zone = subnet_zone sn in
              if allowed \<noteq> [] \<and> zone \<notin> set allowed then select_subnets allowed byID ids selected uncovered
              else
                (let uncovered = (if allowed \<noteq> [] then removeAll zone uncovered else uncovered);
                     selected = selected\<lparr>ps_SubnetIDs := ps_SubnetIDs selected @ [subnetID]\<rparr>
                 in select_subnets allowed byID ids (add_zone zone selected) uncovered))))"

definition selectPlacementSubnets :: "string list \<Rightarrow> subnet list \<Rightarrow> string list \<Rightarrow> placement result" where
  "selectPlacementSubnets requested subnets failureDomains =
     (if requested = [] then Inl (errorf ''subnetIDs is empty'')
      else if subnets = [] then Inl (errorf ''describe subnets returned no result'')
      else
        (let byID = index_subnets subnets []; allowed = allowed_zones failureDomains in
         rbind (select_subnets allowed byID requested empty_placement allowed) (\<lambda>(selected, uncovered).
           if ps_SubnetIDs selected = [] then
             (if allowed \<noteq> [] then
                Inl (errorf (''none of spec.network.subnetIDs are in requested failure domains '' @
                  show_slice (sortedKeys allowed)))
              else Inl (errorf ''no usable subnets selected from spec.network.subnetIDs''))
           else if uncovered \<noteq> [] then
             Inl (errorf (''requested failure domains '' @ show_slice (sortedKeys uncovered) @
               '' do not have matching subnets in spec.network.subnetIDs''))
           else Inr selected)))"

definition normalizeSpreadPolicy :: "string \<Rightarrow> string" where
  "normalizeSpreadPolicy policy =
     (let p = to_lower (replace_all ''_'' ''-'' (trim_space policy)) in
      if p \<in> {[], ''none''} then []
      else if p \<in> {''balanced'', ''balanced-best-effort'', ''balancedbesteffort''} then ''balanced-best-effort''
      else if p \<in> {''balanced-only'', ''balancedonly'', ''strict-balanced''} then ''balanced-only''
      else p)"

definition availabilityZoneDistributionForSpreadPolicy :: "string \<Rightarrow> string option result" where
  "availabilityZoneDistributionForSpreadPolicy policy =
     (let p = normalizeSpreadPolicy policy in
      if p = [] then Inr None
      else if p = ''balanced'' \<or> p = ''balanced-best-effort'' then Inr (Some ''balanced-best-effort'')
      else if p = ''balanced-only'' then Inr (Some ''balanced-only'')
      else Inl (errorf (''unsupported spec.placement.spreadPolicy '' @ quote policy)))"

definition resolvePlacement :: "'w aws_api \<Rightarrow> machine_group \<Rightarrow> (placement, 'w) io" where
  "resolvePlacement A mg =
     (let subnetIDs = net_SubnetIDs (sp_Network (mg_Spec mg)) in
      if subnetIDs = [] then io_fail (errorf ''spec.network.subnetIDs is empty'')
      else io_bind (io_wrap ''describe subnets'' (aw_DescribeSubnets A subnetIDs)) (\<lambda>subnets.
        io_bind (io_lift (selectPlacementSubnets subnetIDs subnets
                  (pl_FailureDomains (sp_Placement (mg_Spec mg))))) (\<lambda>selection.
        io_bind (io_lift (availabilityZoneDistributionForSpreadPolicy
                  (pl_SpreadPolicy (sp_Placement (mg_Spec mg))))) (\<lambda>distribution.
        io_return (selection\<lparr>ps_Distribution := distribution\<rparr>)))))"

definition resolveLoadBalancerPlacement ::
  "'w aws_api \<Rightarrow> machine_group \<Rightarrow> lb_exposure_spec \<Rightarrow> placement \<Rightarrow> (placement, 'w) io" where
  "resolveLoadBalancerPlacement A mg lb fallback =
     (let subnetIDs = lbs_SubnetIDs lb in
      if subnetIDs = [] then io_return fallback
      else io_bind (io_wrap ''describe load balancer subnets'' (aw_DescribeSubnets A subnetIDs)) (\<lambda>subnets.
        io_bind (io_lift (selectPlacementSubnets subnetIDs subnets
                  (pl_FailureDomains (sp_Placement (mg_Spec mg))))) (\<lambda>selection.
        if ps_VPCID fallback \<noteq> [] \<and> ps_VPCID selection \<noteq> ps_VPCID fallback then
          io_fail (errorf (''loadBalancer '' @ quote (lbs_Name lb) @
            '' subnets must belong to the same vpc '' @ quote (ps_VPCID fallback) @
            '' as machine placement, got '' @ quote (ps_VPCID selection)))
        else io_return (selection\<lparr>ps_Distribution := ps_Distribution fallback\<rparr>))))"

section \<open>What the loop selects\<close>

definition zone_of :: "(string, subnet) gomap \<Rightarrow> string \<Rightarrow> string" where
  "zone_of byID i = (case map_of byID i of None \<Rightarrow> [] | Some sn \<Rightarrow> subnet_zone sn)"

definition vpc_of :: "(string, subnet) gomap \<Rightarrow> string \<Rightarrow> string" where
  "vpc_of byID i = (case map_of byID i of None \<Rightarrow> [] | Some sn \<Rightarrow> subnet_vpc sn)"

definition chosen_subnets :: "string list \<Rightarrow> (string, subnet) gomap \<Rightarrow> string list \<Rightarrow> string list" where
  "chosen_subnets allowed byID ids = filter (\<lambda>i. allowed = [] \<or> zone_of byID i \<in> set allowed) ids"

definition add_new :: "string \<Rightarrow> string list \<Rightarrow> string list" where
  "add_new z zs = (if z \<noteq> [] \<and> z \<notin> set zs then zs @ [z] else zs)"

lemma add_zone_eq: "add_zone z sel = sel\<lparr>ps_Zones := add_new z (ps_Zones sel)\<rparr>"
  by (simp add: add_zone_def add_new_def)

definition expected_vpc :: "(string, subnet) gomap \<Rightarrow> string list \<Rightarrow> placement \<Rightarrow> string" where
  "expected_vpc byID ids sel =
     (if ps_VPCID sel \<noteq> [] \<or> ids = [] then ps_VPCID sel else vpc_of byID (hd ids))"

text \<open>The loop as a specification: what it requires of the subnets, and what it returns then.\<close>

lemma select_subnets_iff:
  "select_subnets allowed byID ids sel uncovered = Inr res \<longleftrightarrow>
     (\<forall>i \<in> set ids. vpc_of byID i \<noteq> [] \<and> vpc_of byID i = expected_vpc byID ids sel) \<and>
     res = (sel\<lparr>ps_VPCID := expected_vpc byID ids sel,
                ps_SubnetIDs := ps_SubnetIDs sel @ chosen_subnets allowed byID ids,
                ps_Zones := fold add_new (map (zone_of byID) (chosen_subnets allowed byID ids)) (ps_Zones sel)\<rparr>,
            if allowed = [] then uncovered
            else filter (\<lambda>z. z \<notin> zone_of byID ` set (chosen_subnets allowed byID ids)) uncovered)"
proof (induction ids arbitrary: sel uncovered)
  case Nil
  then show ?case by (auto simp: expected_vpc_def chosen_subnets_def)
next
  case (Cons i ids)
  show ?case
  proof (cases "map_of byID i")
    case None
    then show ?thesis by (simp add: vpc_of_def)
  next
    case (Some sn)
    let ?v = "subnet_vpc sn"
    have v: "vpc_of byID i = ?v" "zone_of byID i = subnet_zone sn" using Some by (simp_all add: vpc_of_def zone_of_def)
    show ?thesis
    proof (cases "?v = [] \<or> ps_VPCID sel \<noteq> [] \<and> ps_VPCID sel \<noteq> ?v")
      case True
      then show ?thesis using Some by (auto simp: v expected_vpc_def Let_def)
    next
      case False
      then have e: "expected_vpc byID (i # ids) sel = ?v" "?v \<noteq> []"
        by (auto simp: expected_vpc_def v)
      let ?skip = "allowed \<noteq> [] \<and> subnet_zone sn \<notin> set allowed"
      let ?sel = "if ?skip then sel\<lparr>ps_VPCID := ?v\<rparr>
        else sel\<lparr>ps_VPCID := ?v, ps_SubnetIDs := ps_SubnetIDs sel @ [i],
                 ps_Zones := add_new (subnet_zone sn) (ps_Zones sel)\<rparr>"
      let ?unc = "if allowed \<noteq> [] \<and> \<not> ?skip then removeAll (subnet_zone sn) uncovered else uncovered"
      have eq: "select_subnets allowed byID (i # ids) sel uncovered = select_subnets allowed byID ids ?sel ?unc"
        using False Some by (auto simp: Let_def add_zone_eq)
      have e': "expected_vpc byID ids ?sel = ?v" using e(2) by (simp add: expected_vpc_def)
      have c: "chosen_subnets allowed byID (i # ids) =
          (if ?skip then chosen_subnets allowed byID ids else i # chosen_subnets allowed byID ids)"
        by (auto simp: chosen_subnets_def v)
      show ?thesis
        unfolding eq Cons.IH e' e(1) c using e(2)
        by (cases ?skip; cases "allowed = []") (simp_all add: v removeAll_filter_not_eq eq_commute [of "subnet_zone sn"])
    qed
  qed
qed

lemma dedupe_on_cong: "set seen = set seen' \<Longrightarrow> dedupe_on key seen xs = dedupe_on key seen' xs"
proof (induction xs arbitrary: seen seen')
  case (Cons x xs)
  have "set (key x # seen) = set (key x # seen')" using Cons.prems by simp
  with Cons.IH [OF this] Cons.IH [OF Cons.prems] Cons.prems show ?case by simp
qed simp

lemma fold_add_new:
  "fold add_new zs acc = acc @ dedupe_on (\<lambda>z. z) acc (filter (\<lambda>z. z \<noteq> []) zs)"
proof (induction zs arbitrary: acc)
  case (Cons z zs)
  have "dedupe_on (\<lambda>z. z) (acc @ [z]) ys = dedupe_on (\<lambda>z. z) (z # acc) ys" for ys
    by (rule dedupe_on_cong) auto
  then show ?case using Cons by (simp add: add_new_def)
qed simp

text \<open>The placement of the chosen subnets.\<close>

definition placement_of :: "(string, subnet) gomap \<Rightarrow> string list \<Rightarrow> placement" where
  "placement_of byID chosen = \<lparr>ps_SubnetIDs = chosen,
     ps_Zones = dedupe_on (\<lambda>z. z) [] (filter (\<lambda>z. z \<noteq> []) (map (zone_of byID) chosen)),
     ps_VPCID = vpc_of byID (hd chosen), ps_Distribution = None\<rparr>"

lemma select_placement_iff:
  fixes requested subnets failureDomains
  defines "byID \<equiv> index_subnets subnets []" and "allowed \<equiv> allowed_zones failureDomains"
  defines "chosen \<equiv> chosen_subnets allowed byID requested"
  shows "selectPlacementSubnets requested subnets failureDomains = Inr p \<longleftrightarrow>
    chosen \<noteq> [] \<and> subnets \<noteq> [] \<and>
    (\<forall>i \<in> set requested. vpc_of byID i \<noteq> [] \<and> vpc_of byID i = vpc_of byID (hd requested)) \<and>
    set allowed \<subseteq> zone_of byID ` set chosen \<and> p = placement_of byID chosen"
proof (cases "requested = [] \<or> subnets = []")
  case True
  then show ?thesis by (auto simp: selectPlacementSubnets_def chosen_def chosen_subnets_def)
next
  case False
  let ?one = "\<forall>i \<in> set requested. vpc_of byID i \<noteq> [] \<and> vpc_of byID i = vpc_of byID (hd requested)"
  let ?p = "placement_of byID chosen"
  let ?unc = "if allowed = [] then allowed else filter (\<lambda>z. z \<notin> zone_of byID ` set chosen) allowed"
  have sub: "set chosen \<subseteq> set requested" by (auto simp: chosen_def chosen_subnets_def)
  have vpc: "vpc_of byID (hd chosen) = vpc_of byID (hd requested)" if ?one "chosen \<noteq> []"
    using that sub hd_in_set [of chosen] by blast
  have "expected_vpc byID requested empty_placement = vpc_of byID (hd requested)"
    using False by (simp add: expected_vpc_def empty_placement_def)
  then have sel: "select_subnets allowed byID requested empty_placement allowed = Inr res \<longleftrightarrow>
      ?one \<and> res = (?p\<lparr>ps_VPCID := vpc_of byID (hd requested)\<rparr>, ?unc)" for res
    by (simp add: select_subnets_iff chosen_def placement_of_def empty_placement_def fold_add_new)
  have covered: "?unc = [] \<longleftrightarrow> set allowed \<subseteq> zone_of byID ` set chosen"
    by (auto simp: filter_empty_conv)
  have main: "selectPlacementSubnets requested subnets failureDomains = Inr p \<longleftrightarrow>
      ?one \<and> chosen \<noteq> [] \<and> ?unc = [] \<and> p = ?p\<lparr>ps_VPCID := vpc_of byID (hd requested)\<rparr>"
  proof (cases ?one)
    case True
    with sel have run: "select_subnets allowed byID requested empty_placement allowed =
        Inr (?p\<lparr>ps_VPCID := vpc_of byID (hd requested)\<rparr>, ?unc)" by blast
    have "ps_SubnetIDs (?p\<lparr>ps_VPCID := v\<rparr>) = chosen" for v by (simp add: placement_of_def)
    then have "selectPlacementSubnets requested subnets failureDomains = Inr p \<longleftrightarrow>
        chosen \<noteq> [] \<and> ?unc = [] \<and> ?p\<lparr>ps_VPCID := vpc_of byID (hd requested)\<rparr> = p"
      using False unfolding selectPlacementSubnets_def Let_def byID_def [symmetric] allowed_def [symmetric] run
      by (cases "chosen = []"; cases "?unc = []") (simp_all del: filter_empty_conv)
    then show ?thesis using True by blast
  next
    case no: False
    with sel obtain e where "select_subnets allowed byID requested empty_placement allowed = Inl e"
      by (metis sum.exhaust)
    then have "selectPlacementSubnets requested subnets failureDomains \<noteq> Inr p"
      using False unfolding selectPlacementSubnets_def Let_def byID_def [symmetric] allowed_def [symmetric]
      by simp
    with no show ?thesis by blast
  qed
  have same: "?p\<lparr>ps_VPCID := vpc_of byID (hd requested)\<rparr> = ?p" if ?one "chosen \<noteq> []"
    unfolding vpc [OF that, symmetric] by (simp add: placement_of_def)
  have "?one \<and> chosen \<noteq> [] \<and> ?unc = [] \<and> p = ?p\<lparr>ps_VPCID := vpc_of byID (hd requested)\<rparr> \<longleftrightarrow>
      chosen \<noteq> [] \<and> subnets \<noteq> [] \<and> ?one \<and> set allowed \<subseteq> zone_of byID ` set chosen \<and> p = ?p"
  proof (cases "?one \<and> chosen \<noteq> []")
    case True
    then have "?p\<lparr>ps_VPCID := vpc_of byID (hd requested)\<rparr> = ?p" using same by blast
    then show ?thesis unfolding covered using False True by (simp only:) blast
  qed blast
  with main show ?thesis by (simp only:)
qed

lemma placement_nonempty: "selectPlacementSubnets requested subnets fds = Inr p \<Longrightarrow> ps_SubnetIDs p \<noteq> []"
  by (simp add: select_placement_iff placement_of_def)

section \<open>Properties\<close>

text \<open>
  C33: The choice of subnets is exact. It succeeds exactly when every requested subnet was described, all
  lie in one VPC, some are in the requested failure domains and every requested failure domain has
  one; the placement then holds precisely these subnets in the order of the spec, each zone once, and
  their VPC.
\<close>

theorem selectPlacementSubnets_exact:
  "selectPlacementSubnets requested subnets failureDomains = Inr p \<longleftrightarrow>
     (let byID = index_subnets subnets []; allowed = allowed_zones failureDomains;
          chosen = chosen_subnets allowed byID requested
      in chosen \<noteq> [] \<and> subnets \<noteq> [] \<and>
         (\<forall>i \<in> set requested. vpc_of byID i \<noteq> [] \<and> vpc_of byID i = vpc_of byID (hd requested)) \<and>
         set allowed \<subseteq> zone_of byID ` set chosen \<and> p = placement_of byID chosen)"
  unfolding Let_def by (rule select_placement_iff)

definition sample_subnet :: "string \<Rightarrow> string \<Rightarrow> subnet" where
  "sample_subnet i zone = \<lparr>sn_SubnetId = Some i, sn_VpcId = Some ''vpc-1'', sn_AvailabilityZone = Some zone\<rparr>"

theorem selectPlacementSubnets_exact_witness:
  "is_ok (selectPlacementSubnets [''s1'', ''s2'', ''s3''] [sample_subnet ''s1'' ''a'', sample_subnet ''s2'' ''b'',
       sample_subnet ''s3'' ''a''] ['' a '']) \<and>
   \<not> is_ok (selectPlacementSubnets [''s1'', ''s2''] [sample_subnet ''s1'' ''a'', sample_subnet ''s2'' ''b''] [''c''])"
proof -
  let ?two = "[sample_subnet ''s1'' ''a'', sample_subnet ''s2'' ''b'']"
  let ?three = "?two @ [sample_subnet ''s3'' ''a'']"
  have "selectPlacementSubnets [''s1'', ''s2'', ''s3''] ?three ['' a ''] =
      Inr (placement_of (index_subnets ?three []) [''s1'', ''s3''])"
    unfolding selectPlacementSubnets_exact Let_def by code_simp
  moreover have "selectPlacementSubnets [''s1'', ''s2''] ?two [''c''] \<noteq> Inr p" for p
  proof -
    have "chosen_subnets (allowed_zones [''c'']) (index_subnets ?two []) [''s1'', ''s2''] = []" by code_simp
    then show ?thesis unfolding selectPlacementSubnets_exact Let_def by simp
  qed
  ultimately show ?thesis unfolding is_ok_iff by auto
qed

end
