(* ===== verification/Aws_Machines.thy ===== *)
theory Aws_Machines
  imports Aws_Placement Tiproxy_Config
begin

text \<open>
  The machines of a group in \<^verbatim>\<open>internal/cloud/aws/manager.go\<close>: the user data they boot with, the launch
  template, the auto scaling group and the rolling refresh after a change of the image.
\<close>

section \<open>Base64\<close>

definition b64_alphabet :: string where
  "b64_alphabet = ''ABCDEFGHIJKLMNOPQRSTUVWXYZabcdefghijklmnopqrstuvwxyz0123456789+/''"

definition b64_char :: "nat \<Rightarrow> char" where
  "b64_char n = b64_alphabet ! n"

fun b64_bytes :: "nat list \<Rightarrow> string" where
  "b64_bytes (a # b # c # bs) =
     [b64_char (a div 4), b64_char ((a mod 4) * 16 + b div 16), b64_char ((b mod 16) * 4 + c div 64),
      b64_char (c mod 64)] @ b64_bytes bs"
| "b64_bytes [a, b] =
     [b64_char (a div 4), b64_char ((a mod 4) * 16 + b div 16), b64_char ((b mod 16) * 4), CHR ''='']"
| "b64_bytes [a] = [b64_char (a div 4), b64_char ((a mod 4) * 16), CHR ''='', CHR ''='']"
| "b64_bytes [] = []"

definition base64_encode :: "string \<Rightarrow> string" where
  "base64_encode s = b64_bytes (map of_char s)"

section \<open>User data\<close>

text \<open>A single quote, which a string literal cannot hold.\<close>

definition squote :: string where
  "squote = [CHR 0x27]"

definition env_script :: "machine_group \<Rightarrow> string \<Rightarrow> string" where
  "env_script mg kubeconfigPath = unlines
     [''#!/bin/bash'', ''set -euxo pipefail'', ''mkdir -p /etc/tiproxy-machine-agent'',
      ''cat >/etc/tiproxy-machine-agent/env <<'' @ squote @ ''EOF'' @ squote,
      ''TIPROXY_MACHINE_NAMESPACE='' @ meta_namespace (mg_meta mg),
      ''TIPROXY_MACHINE_GROUP='' @ meta_name (mg_meta mg),
      ''TIPROXY_KUBECONFIG='' @ kubeconfigPath, ''EOF'']"

definition inline_script :: "string \<Rightarrow> string \<Rightarrow> string" where
  "inline_script kubeconfigPath inlineKubeconfig = unlines
     [[], ''KCFG_PATH='' @ quote kubeconfigPath, ''mkdir -p \"$(dirname \"${KCFG_PATH}\")\"'',
      ''echo '' @ quote (base64_encode inlineKubeconfig) @ '' | base64 -d >\"${KCFG_PATH}\"'',
      ''chmod 0600 \"${KCFG_PATH}\"'']"

definition ssm_command :: "string \<Rightarrow> string" where
  "ssm_command region_args =
     ''  aws ssm get-parameter --name \"${REMOTE_IDENTIFIER}\" --with-decryption'' @ region_args @
     '' --query '' @ squote @ ''Parameter.Value'' @ squote @ '' --output text >\"${KCFG_PATH}\"''"

definition ssm_script :: "string \<Rightarrow> string \<Rightarrow> string \<Rightarrow> string" where
  "ssm_script kubeconfigPath identifier region = unlines
     [[], ''if ! command -v aws >/dev/null 2>&1; then'',
      ''  echo \"aws cli is required to fetch kubeconfig from parameter store\" >&2'', ''  exit 1'', ''fi'', [],
      ''KCFG_PATH='' @ quote kubeconfigPath, ''REMOTE_IDENTIFIER='' @ quote identifier,
      ''AWS_REGION_OVERRIDE='' @ quote region,
      ''AWS_REGION=\"${AWS_REGION_OVERRIDE:-${AWS_REGION:-}}\"'',
      ''if [ -z \"${AWS_REGION}\" ]; then'',
      ''  # Fallback only when region is not explicitly configured.'',
      ''  AWS_REGION=\"$(curl -fsS http://169.254.169.254/latest/meta-data/placement/region || true)\"'',
      ''fi'', [], ''mkdir -p \"$(dirname \"${KCFG_PATH}\")\"'', ''if [ -n \"${AWS_REGION}\" ]; then'',
      ssm_command '' --region \"${AWS_REGION}\"'', ''else'', ssm_command [], ''fi'',
      ''chmod 0600 \"${KCFG_PATH}\"'']"

definition remote_script :: "string \<Rightarrow> string \<Rightarrow> remote_content_ref \<Rightarrow> string" where
  "remote_script kubeconfigPath region ref =
     (let backend = to_lower (trim_space (rc_Backend ref));
          backend = (if backend = [] then ''parameterstore'' else backend) in
      if backend \<in> {''parameterstore'', ''parameter-store'', ''ssm'', ''ssm-parameter''}
      then ssm_script kubeconfigPath (rc_Identifier ref) region
      else unlines [[], ''echo \"unsupported kubeconfig remote backend: '' @ backend @ ''\" >&2'', ''exit 1''])"

definition userData :: "machine_group \<Rightarrow> string" where
  "userData mg =
     (let boot = sp_Bootstrap (mg_Spec mg) in
      if bs_UserData boot \<noteq> [] then bs_UserData boot
      else
        (let kubeconfig = bs_Kubeconfig boot;
             kubeconfigPath = trim_space (kc_Path kubeconfig);
             kubeconfigPath = (if kubeconfigPath = [] then ''/etc/tiproxy-machine-agent/kubeconfig''
                               else kubeconfigPath);
             region = trim_space (pl_Region (sp_Placement (mg_Spec mg)));
             inlineKubeconfig = trim_space (kc_Inline kubeconfig)
         in env_script mg kubeconfigPath @
            (if inlineKubeconfig \<noteq> [] then inline_script kubeconfigPath inlineKubeconfig else []) @
            (case kc_RemoteRef kubeconfig of
               None \<Rightarrow> []
             | Some ref \<Rightarrow> if trim_space (rc_Identifier ref) \<noteq> []
                 then remote_script kubeconfigPath region ref else []) @
            unlines [[], ''systemctl daemon-reload || true'',
              ''systemctl enable --now tiproxy-machine-agent || true'']))"

section \<open>The launch template\<close>

definition buildLaunchTemplateData :: "machine_group \<Rightarrow> template_data" where
  "buildLaunchTemplateData mg =
     (let machine = sp_Machine (mg_Spec mg) in
      \<lparr>td_ImageId = ms_Image machine, td_InstanceType = ms_Class machine,
       td_SecurityGroupIds = net_SecurityGroupIDs (sp_Network (mg_Spec mg)),
       td_UserData = base64_encode (userData mg), td_HttpTokens = ''required'',
       td_TagSpecifications = [(''instance'', buildEC2Tags mg), (''volume'', buildEC2Tags mg)],
       td_ProfileArn = (if ms_IdentityRef machine \<noteq> [] \<and> prefix ''arn:'' (ms_IdentityRef machine)
                        then Some (ms_IdentityRef machine) else None),
       td_ProfileName = (if ms_IdentityRef machine \<noteq> [] \<and> \<not> prefix ''arn:'' (ms_IdentityRef machine)
                         then Some (ms_IdentityRef machine) else None),
       td_KeyName = (if ms_SSHKeyName machine \<noteq> [] then Some (ms_SSHKeyName machine) else None)\<rparr>)"

definition io_ignore :: "(unit, 'w) io \<Rightarrow> (unit, 'w) io" where
  "io_ignore f = io_catch f (\<lambda>_. io_return ())"

definition ensureLaunchTemplate ::
  "'w aws_api \<Rightarrow> machine_group \<Rightarrow> string \<Rightarrow> (string \<times> string, 'w) io" where
  "ensureLaunchTemplate A mg ltName =
     (if ms_Image (sp_Machine (mg_Spec mg)) = [] then io_fail (errorf ''spec.machine.image is required'')
      else if ms_Class (sp_Machine (mg_Spec mg)) = [] then io_fail (errorf ''spec.machine.class is required'')
      else
        (let data = buildLaunchTemplateData mg; versionDesc = versionDescription A mg in
         io_bind (describe_step (''describe launch template '' @ ltName) (aw_DescribeLaunchTemplates A [ltName]))
           (\<lambda>templates. case templates of
              [] \<Rightarrow>
                io_bind (io_wrap (''create launch template '' @ ltName)
                          (aw_CreateLaunchTemplate A ltName data versionDesc))
                  (\<lambda>lt. io_return (to_str (lt_Id lt), show_int (to_int (lt_LatestVersion lt))))
            | lt # _ \<Rightarrow>
                io_bind (io_wrap (''create launch template version '' @ ltName)
                          (aw_CreateLaunchTemplateVersion A \<lparr>tv_TemplateId = lt_Id lt, tv_Data = data,
                             tv_SourceVersion = ''$Latest'', tv_Description = versionDesc\<rparr>))
                  (\<lambda>number. let latestVersion = show_int (to_int number) in
                    io_then (io_ignore (aw_ModifyLaunchTemplate A (lt_Id lt) latestVersion))
                      (io_return (to_str (lt_Id lt), latestVersion))))))"

section \<open>The auto scaling group\<close>

text \<open>The minimum, the maximum and the desired capacity.\<close>

definition group_sizes :: "machine_group_spec \<Rightarrow> int \<times> int \<times> int" where
  "group_sizes spec =
     (let desired = DesiredReplicas spec;
          minSize = (case sc_MinReplicas (sp_Scaling spec) of None \<Rightarrow> desired | Some n \<Rightarrow> n);
          maxSize = (case sc_MaxReplicas (sp_Scaling spec) of None \<Rightarrow> desired | Some n \<Rightarrow> n);
          desired = (if minSize > desired then minSize else desired);
          maxSize = (if maxSize < desired then desired else maxSize)
      in (minSize, maxSize, desired))"

definition imageHashTag :: string where
  "imageHashTag = ''tiproxy.pingcap.com/tiproxy-image-hash''"

definition setASGTag :: "'w aws_api \<Rightarrow> string \<Rightarrow> string \<Rightarrow> string \<Rightarrow> (unit, 'w) io" where
  "setASGTag A asgName key val =
     io_wrap (''set asg tag '' @ key @ ''='' @ val @ '' for '' @ asgName) (aw_SetTag A asgName key val)"

fun asgTagValue :: "(string option \<times> string option) list \<Rightarrow> string \<Rightarrow> string" where
  "asgTagValue [] key = []"
| "asgTagValue ((k, v) # tags) key = (if to_str k = key then to_str v else asgTagValue tags key)"

definition hasActiveInstanceRefresh :: "'w aws_api \<Rightarrow> string \<Rightarrow> (bool, 'w) io" where
  "hasActiveInstanceRefresh A asgName =
     io_bind (io_wrap (''describe instance refreshes for asg '' @ asgName) (aw_DescribeInstanceRefreshes A asgName 5))
       (\<lambda>statuses. io_return (list_ex (\<lambda>s. s = ''Pending'' \<or> s = ''InProgress'' \<or> s = ''Cancelling'') statuses))"

definition ensureImageRollingRefresh ::
  "'w aws_api \<Rightarrow> string \<Rightarrow> scaling_group \<Rightarrow> string \<Rightarrow> (unit, 'w) io" where
  "ensureImageRollingRefresh A asgName asg desiredImageHash =
     (if desiredImageHash = [] then io_return ()
      else
        (let existingImageHash = asgTagValue (as_Tags asg) imageHashTag in
         if existingImageHash = [] then setASGTag A asgName imageHashTag desiredImageHash
         else if existingImageHash = desiredImageHash then io_return ()
         else if as_Instances asg = [] then setASGTag A asgName imageHashTag desiredImageHash
         else io_bind (hasActiveInstanceRefresh A asgName) (\<lambda>inProgress.
           if inProgress then io_return ()
           else io_bind
             (io_catch (io_then (aw_StartInstanceRefresh A asgName ''Rolling'') (io_return True))
               (\<lambda>e. if isInstanceRefreshInProgress e then io_return False
                    else io_fail (wrap_error (''start instance refresh for asg '' @ asgName) e)))
             (\<lambda>started. if started then setASGTag A asgName imageHashTag desiredImageHash else io_return ()))))"

definition scaling_request_for ::
  "machine_group \<Rightarrow> string \<Rightarrow> string \<Rightarrow> string \<Rightarrow> placement \<Rightarrow> aws_tags \<Rightarrow> scaling_request" where
  "scaling_request_for mg asgName ltName ltVersion placement tags =
     (let (minSize, maxSize, desired) = group_sizes (mg_Spec mg) in
      \<lparr>sr_Name = asgName, sr_MinSize = minSize, sr_MaxSize = maxSize, sr_DesiredCapacity = desired,
       sr_VPCZoneIdentifier = join '','' (ps_SubnetIDs placement), sr_AvailabilityZones = ps_Zones placement,
       sr_Distribution = ps_Distribution placement, sr_TemplateName = ltName,
       sr_TemplateVersion = ltVersion, sr_Tags = tags\<rparr>)"

definition ensureAutoScalingGroup ::
  "'w aws_api \<Rightarrow> machine_group \<Rightarrow> string \<Rightarrow> string \<Rightarrow> string \<Rightarrow> string \<Rightarrow> placement \<Rightarrow> (unit, 'w) io" where
  "ensureAutoScalingGroup A mg asgName ltName ltVersion desiredImageHash placement =
     (if ps_SubnetIDs placement = [] then io_fail (errorf ''spec.network.subnetIDs is required'')
      else
        (let ltVersion = (if ltVersion = [] then ''$Latest'' else ltVersion) in
         io_bind (io_wrap (''describe asg '' @ asgName) (aw_DescribeAutoScalingGroups A [asgName]))
           (\<lambda>groups. case groups of
              [] \<Rightarrow>
                io_then (io_wrap (''create asg '' @ asgName) (aw_CreateAutoScalingGroup A
                    (scaling_request_for mg asgName ltName ltVersion placement (buildASGTags mg))))
                  (io_when (desiredImageHash \<noteq> []) (setASGTag A asgName imageHashTag desiredImageHash))
            | existingASG # _ \<Rightarrow>
                io_then (io_wrap (''update asg '' @ asgName) (aw_UpdateAutoScalingGroup A
                    (scaling_request_for mg asgName ltName ltVersion placement [])))
                  (ensureImageRollingRefresh A asgName existingASG desiredImageHash))))"

section \<open>Reading the user data back\<close>

definition b64_value :: "char \<Rightarrow> nat" where
  "b64_value c = length (takeWhile (\<lambda>x. x \<noteq> c) b64_alphabet)"

fun b64_unbytes :: "string \<Rightarrow> nat list" where
  "b64_unbytes (a # b # c # d # s) =
     (b64_value a * 4 + b64_value b div 16) #
     (if c = CHR ''='' then []
      else ((b64_value b mod 16) * 16 + b64_value c div 4) #
        (if d = CHR ''='' then [] else ((b64_value c mod 4) * 64 + b64_value d) # b64_unbytes s))"
| "b64_unbytes s = []"

definition base64_decode :: "string \<Rightarrow> string" where
  "base64_decode s = map char_of (b64_unbytes s)"

lemma b64_alphabet_facts: "length b64_alphabet = 64" "distinct b64_alphabet" "CHR ''='' \<notin> set b64_alphabet"
  by (simp_all add: b64_alphabet_def)

lemma b64_char_value [simp]: "n < 64 \<Longrightarrow> b64_value (b64_char n) = n" "n < 64 \<Longrightarrow> b64_char n \<noteq> CHR ''=''"
proof -
  assume n: "n < 64"
  have "takeWhile (\<lambda>x. x \<noteq> b64_alphabet ! n) b64_alphabet = take n b64_alphabet"
  proof (rule takeWhile_eq_take_P_nth)
    fix i assume "i < n" "i < length b64_alphabet"
    then show "b64_alphabet ! i \<noteq> b64_alphabet ! n"
      using n b64_alphabet_facts by (auto simp: nth_eq_iff_index_eq)
  qed simp
  then show "b64_value (b64_char n) = n" using n by (simp add: b64_value_def b64_char_def b64_alphabet_facts)
  show "b64_char n \<noteq> CHR ''=''"
    unfolding b64_char_def using n b64_alphabet_facts(1,3) by (metis nth_mem)
qed

lemma b64_round: "\<forall>b \<in> set bs. b < 256 \<Longrightarrow> b64_unbytes (b64_bytes bs) = bs"
proof (induction bs rule: b64_bytes.induct)
  case (1 a b c bs)
  have small: "a div 4 < 64" "(a mod 4) * 16 + b div 16 < 64" "(b mod 16) * 4 + c div 64 < 64" "c mod 64 < 64"
    using 1(2) by auto
  have digits: "((a mod 4) * 16 + b div 16) div 16 = a mod 4" "((a mod 4) * 16 + b div 16) mod 16 = b div 16"
    "((b mod 16) * 4 + c div 64) div 4 = b mod 16" "((b mod 16) * 4 + c div 64) mod 4 = c div 64"
    using 1(2) by auto
  have "b div 16 < 16" "c div 64 < 4" using 1(2) by auto
  then show ?case using 1 by (simp add: small digits)
next
  case (2 a b)
  have small: "a div 4 < 64" "(a mod 4) * 16 + b div 16 < 64" "(b mod 16) * 4 < 64" using 2 by auto
  have digits: "((a mod 4) * 16 + b div 16) div 16 = a mod 4" "((a mod 4) * 16 + b div 16) mod 16 = b div 16"
    "((b mod 16) * 4) div 4 = b mod 16"
    using 2 by auto
  have "b div 16 < 16" using 2 by auto
  then show ?case by (simp add: small digits)
next
  case (3 a)
  have small: "a div 4 < 64" "(a mod 4) * 16 < 64" using 3 by auto
  show ?case by (simp add: small)
qed simp

lemma base64_round: "base64_decode (base64_encode s) = s"
proof -
  have "\<forall>b \<in> set (map of_char s). b < (256 :: nat)" by auto
  from b64_round [OF this] show ?thesis by (simp add: base64_decode_def base64_encode_def comp_def)
qed

section \<open>Sizes\<close>

definition sizes_ordered :: "scaling_request \<Rightarrow> bool" where
  "sizes_ordered r \<longleftrightarrow> sr_MinSize r \<le> sr_DesiredCapacity r \<and> sr_DesiredCapacity r \<le> sr_MaxSize r"

lemma group_sizes_ordered:
  assumes "group_sizes spec = (lo, hi, desired)"
  shows "lo \<le> desired" "desired \<le> hi" "desired = max (DesiredReplicas spec) lo"
  using assms by (auto simp: group_sizes_def Let_def split: if_splits)

lemma scaling_request_fields:
  "sizes_ordered (scaling_request_for mg asgName ltName ltVersion p tags)"
  "sr_Name (scaling_request_for mg asgName ltName ltVersion p tags) = asgName"
  "sr_TemplateName (scaling_request_for mg asgName ltName ltVersion p tags) = ltName"
  using group_sizes_ordered [of "mg_Spec mg"]
  by (auto simp: sizes_ordered_def scaling_request_for_def split: prod.split)

section \<open>Effects of each step\<close>

lemma log_step:
  "unlogged f (w, log) = (r, (w', log')) \<longleftrightarrow> f w = (r, w') \<and> log' = log"
  "logged_as c f (w, log) = (r, (w', log')) \<longleftrightarrow> f w = (r, w') \<and> log' = log @ [c]"
  by (auto simp: unlogged_def logged_as_def split: prod.split)

text \<open>The refresh as a decision: which calls follow from the tag, the instances and the answers.\<close>

lemma set_tag_log:
  "setASGTag (recorded_aws A) n k v (w, log) = (r, (w', log')) \<Longrightarrow> log' = log @ [SetTag n k v]"
  by (auto simp: setASGTag_def io_wrap_def log_step split: prod.splits sum.splits)

lemma start_refresh_log:
  assumes "io_catch (io_then (logged_as (StartRefresh n) f) (io_return True)) h (w, log) = (r, wl')"
    "\<And>e. h e = (if P e then io_return False else io_fail (g e))"
  shows "snd wl' = log @ [StartRefresh n] \<and> (r = Inr True \<longrightarrow> fst (f w) = Inr ())"
  using assms(1)
  by (auto simp: io_catch_def io_then_def io_bind_def logged_as_def assms(2) io_return_def io_fail_def
      split: prod.splits sum.splits if_splits)

lemma refresh_log:
  assumes "ensureImageRollingRefresh (recorded_aws A) n g h (w, log) = (r, (w', log'))"
  shows "\<exists>calls. log' = log @ calls \<and> calls \<in> {[], [SetTag n imageHashTag h], [StartRefresh n],
      [StartRefresh n, SetTag n imageHashTag h]} \<and>
    (StartRefresh n \<in> set calls \<longrightarrow> asgTagValue (as_Tags g) imageHashTag \<notin> {[], h} \<and> h \<noteq> [] \<and>
       as_Instances g \<noteq> [] \<and> (\<exists>w1. hasActiveInstanceRefresh A n w = (Inr False, w1) \<and>
         (SetTag n imageHashTag h \<in> set calls \<longrightarrow> fst (aw_StartInstanceRefresh A n ''Rolling'' w1) = Inr ())))"
proof -
  let ?old = "asgTagValue (as_Tags g) imageHashTag"
  consider (nothing) "h = [] \<or> ?old = h" | (tag) "h \<noteq> []" "?old \<noteq> h" "?old = [] \<or> as_Instances g = []"
    | (refresh) "h \<noteq> []" "?old \<notin> {[], h}" "as_Instances g \<noteq> []" by blast
  then show ?thesis
  proof cases
    case nothing
    then have "ensureImageRollingRefresh (recorded_aws A) n g h = io_return ()"
      unfolding ensureImageRollingRefresh_def Let_def by auto
    then show ?thesis using assms by (auto simp: io_return_def)
  next
    case tag
    then have "ensureImageRollingRefresh (recorded_aws A) n g h = setASGTag (recorded_aws A) n imageHashTag h"
      unfolding ensureImageRollingRefresh_def Let_def by auto
    then have "setASGTag (recorded_aws A) n imageHashTag h (w, log) = (r, (w', log'))" using assms by simp
    from set_tag_log [OF this] show ?thesis by auto
  next
    case refresh
    obtain r1 w1 where act: "hasActiveInstanceRefresh A n w = (r1, w1)" by (rule prod.exhaust)
    then have act': "hasActiveInstanceRefresh (recorded_aws A) n (w, log) = (r1, (w1, log))"
      by (auto simp: hasActiveInstanceRefresh_def io_bind_def io_wrap_def unlogged_def io_return_def
          split: prod.splits sum.splits)
    let ?start = "io_catch (io_then (logged_as (StartRefresh n) (aw_StartInstanceRefresh A n ''Rolling'')) (io_return True))
      (\<lambda>e. if isInstanceRefreshInProgress e then io_return False
           else io_fail (wrap_error (''start instance refresh for asg '' @ n) e)) (w1, log)"
    obtain r2 wl2 where start: "?start = (r2, wl2)" by (rule prod.exhaust)
    note log2 = start_refresh_log [OF start refl]
    obtain w2 where wl2: "wl2 = (w2, log @ [StartRefresh n])" using log2 by (cases wl2) auto
    have run: "(r, (w', log')) = (case r1 of Inl e \<Rightarrow> (Inl e, (w1, log))
        | Inr True \<Rightarrow> (Inr (), (w1, log))
        | Inr False \<Rightarrow> (case r2 of Inl e \<Rightarrow> (Inl e, wl2)
            | Inr True \<Rightarrow> setASGTag (recorded_aws A) n imageHashTag h wl2
            | Inr False \<Rightarrow> (Inr (), wl2)))"
      using assms refresh start unfolding ensureImageRollingRefresh_def Let_def
      by (cases r1; cases r2) (auto simp: act' io_bind_def io_return_def split: bool.splits)
    show ?thesis
    proof (cases "r1 = Inr False")
      case False
      then have "log' = log" using run by (cases r1) (auto split: bool.splits)
      then show ?thesis by auto
    next
      case True
      show ?thesis
      proof (cases "r2 = Inr True")
        case False
        then have "log' = log @ [StartRefresh n]" using run True wl2 by (cases r2) (auto split: bool.splits)
        then show ?thesis using refresh act True by auto
      next
        case tagged: True
        then have "setASGTag (recorded_aws A) n imageHashTag h (w2, log @ [StartRefresh n]) = (r, (w', log'))"
          using run True wl2 by simp
        from set_tag_log [OF this] have "log' = log @ [StartRefresh n, SetTag n imageHashTag h]" by simp
        then show ?thesis using refresh act True log2 tagged by auto
      qed
    qed
  qed
qed

section \<open>Properties\<close>

text \<open>
  C34: A rolling refresh happens only for a changed image. An instance refresh is started only when the
  group records another image than the desired one, has instances and has no active refresh; the new
  image is recorded after it only when the refresh was started, so that a failed start is retried. No
  other change is made.
\<close>

theorem ensureImageRollingRefresh_guarded:
  assumes "ensureImageRollingRefresh (recorded_aws A) n g h (w, []) = (r, (w', calls))"
  shows "calls \<in> {[], [SetTag n imageHashTag h], [StartRefresh n], [StartRefresh n, SetTag n imageHashTag h]} \<and>
    (StartRefresh n \<in> set calls \<longrightarrow> asgTagValue (as_Tags g) imageHashTag \<notin> {[], h} \<and> h \<noteq> [] \<and>
       as_Instances g \<noteq> [] \<and> (\<exists>w1. hasActiveInstanceRefresh A n w = (Inr False, w1) \<and>
         (SetTag n imageHashTag h \<in> set calls \<longrightarrow> fst (aw_StartInstanceRefresh A n ''Rolling'' w1) = Inr ())))"
  using refresh_log [OF assms] by simp

definition sample_asg :: scaling_group where
  "sample_asg = \<lparr>as_TargetGroupARNs = [], as_Tags = [(Some imageHashTag, Some ''old'')], as_Instances = [''i-1'']\<rparr>"

theorem ensureImageRollingRefresh_guarded_witness:
  "snd (snd (ensureImageRollingRefresh (recorded_aws (sample_aws sample_asg)) ''asg'' sample_asg ''new'' ((), []))) =
     [StartRefresh ''asg'', SetTag ''asg'' imageHashTag ''new''] \<and>
   fst (aw_StartInstanceRefresh (sample_aws sample_asg) ''asg'' ''Rolling'' ()) = Inr ()"
proof -
  have run: "ensureImageRollingRefresh (recorded_aws (sample_aws sample_asg)) ''asg'' sample_asg ''new'' ((), []) =
      (Inr (), ((), [StartRefresh ''asg'', SetTag ''asg'' imageHashTag ''new'']))"
    by code_simp
  from ensureImageRollingRefresh_guarded [OF this] run show ?thesis by auto
qed

text \<open>
  When the launch template exists, every call of \<open>ensureLaunchTemplate\<close> that succeeds has created a new
  version of it and made it the default, also when the version before carries the same data; the new
  version is what the auto scaling group is given.
\<close>

theorem ensureLaunchTemplate_always_new_version:
  assumes "ensureLaunchTemplate (recorded_aws A) mg n (w, log) = (Inr (i, v), (w', log'))"
    "aw_DescribeLaunchTemplates A [n] w = (Inr (lt # lts), w1)"
  shows "\<exists>req number. log' = log @ [CreateTemplateVersion req, SetDefaultVersion (lt_Id lt) v] \<and>
    tv_TemplateId req = lt_Id lt \<and> tv_Data req = buildLaunchTemplateData mg \<and>
    v = show_int (to_int number) \<and> fst (aw_CreateLaunchTemplateVersion A req w1) = Inr number"
proof -
  let ?req = "\<lparr>tv_TemplateId = lt_Id lt, tv_Data = buildLaunchTemplateData mg, tv_SourceVersion = ''$Latest'',
    tv_Description = versionDescription (recorded_aws A) mg\<rparr>"
  let ?ms = "sp_Machine (mg_Spec mg)"
  have set: "ms_Image ?ms \<noteq> []" "ms_Class ?ms \<noteq> []"
    using assms(1) by (auto simp: ensureLaunchTemplate_def io_fail_def split: if_splits)
  obtain r2 w2 where create: "aw_CreateLaunchTemplateVersion A ?req w1 = (r2, w2)" by (rule prod.exhaust)
  show ?thesis
  proof (cases r2)
    case (Inl e)
    then show ?thesis using assms set create
      by (simp add: ensureLaunchTemplate_def Let_def describe_step_def io_catch_def io_bind_def io_wrap_def
          unlogged_def logged_as_def)
  next
    case (Inr number)
    obtain r3 w3 where "aw_ModifyLaunchTemplate A (lt_Id lt) (show_int (to_int number)) w2 = (r3, w3)" by (rule prod.exhaust)
    then have "v = show_int (to_int number) \<and> log' = log @ [CreateTemplateVersion ?req, SetDefaultVersion (lt_Id lt) v]"
      using assms set create Inr
      by (cases r3) (auto simp: ensureLaunchTemplate_def Let_def describe_step_def io_catch_def io_bind_def io_wrap_def
          io_then_def io_ignore_def unlogged_def logged_as_def io_return_def)
    then show ?thesis using create Inr by (intro exI [of _ ?req] exI [of _ number]) simp
  qed
qed

definition templated_aws :: "unit aws_api" where
  "templated_aws = (sample_aws \<lparr>as_TargetGroupARNs = [], as_Tags = [], as_Instances = []\<rparr>)\<lparr>
     aw_DescribeLaunchTemplates := (\<lambda>ns. io_return [\<lparr>lt_Id = Some ''lt-1'', lt_LatestVersion = Some 1\<rparr>])\<rparr>"

theorem ensureLaunchTemplate_always_new_version_witness:
  "\<exists>req v. ensureLaunchTemplate (recorded_aws templated_aws) sample_mg ''lt'' ((), []) =
     (Inr (''lt-1'', v), ((), [CreateTemplateVersion req, SetDefaultVersion (Some ''lt-1'') v]))"
proof -
  obtain v log where run: "ensureLaunchTemplate (recorded_aws templated_aws) sample_mg ''lt'' ((), []) = (Inr (''lt-1'', v), ((), log))"
    by (simp add: ensureLaunchTemplate_def Let_def describe_step_def io_catch_def io_bind_def io_wrap_def io_then_def
        io_ignore_def unlogged_def logged_as_def io_return_def templated_aws_def sample_group)
  have "aw_DescribeLaunchTemplates templated_aws [''lt''] () = (Inr [\<lparr>lt_Id = Some ''lt-1'', lt_LatestVersion = Some 1\<rparr>], ())"
    by (simp add: templated_aws_def io_return_def)
  from ensureLaunchTemplate_always_new_version [OF run this] run show ?thesis by auto
qed

text \<open>
  The machines boot with the group's user data: what the launch template carries in base64 decodes
  to it, and so does the kubeconfig that the script unpacks.
\<close>

theorem launch_template_carries_user_data:
  "base64_decode (td_UserData (buildLaunchTemplateData mg)) = userData mg \<and>
   base64_decode (base64_encode (trim_space (kc_Inline (bs_Kubeconfig (sp_Bootstrap (mg_Spec mg)))))) =
     trim_space (kc_Inline (bs_Kubeconfig (sp_Bootstrap (mg_Spec mg))))"
  by (simp add: buildLaunchTemplateData_def Let_def base64_round)

end
