(* ===== verification/Aws_Exposure.thy ===== *)
theory Aws_Exposure
  imports Aws_Machines
begin

text \<open>
  The load balancers of a group in \<^verbatim>\<open>internal/cloud/aws/manager.go\<close>: \<open>ensureLoadBalancerExposure\<close> creates
  and repairs load balancers, target groups and listeners for the allocated ports and removes what is
  not wanted; \<open>ensureLoadBalancersDeleted\<close> and \<open>ensureStaleLoadBalancersDeleted\<close> remove load balancers.

  A \<^verbatim>\<open>range\<close> over a Go map visits the keys in the order \<open>aw_port_order\<close> or \<open>aw_arn_order\<close> gives, whatever it
  is. \<^verbatim>\<open>slices.SortFunc\<close> is modelled by the stable \<open>sort_key\<close>.
\<close>

section \<open>Descriptions and single objects\<close>

definition describeLoadBalancerByName :: "'w aws_api \<Rightarrow> string \<Rightarrow> (load_balancer option, 'w) io" where
  "describeLoadBalancerByName A name =
     io_bind (describe_step (''describe load balancer '' @ name) (aw_DescribeLoadBalancers A [name]))
       (\<lambda>lbs. io_return (case lbs of [] \<Rightarrow> None | lb # _ \<Rightarrow> Some lb))"

definition describeListenersByLB :: "'w aws_api \<Rightarrow> string \<Rightarrow> (aws_listener list, 'w) io" where
  "describeListenersByLB A lbArn =
     (if lbArn = [] then io_return []
      else describe_step (''describe listeners for load balancer '' @ lbArn) (aw_DescribeListeners A lbArn))"

definition describeTargetGroupsForLB :: "'w aws_api \<Rightarrow> string \<Rightarrow> (target_group list, 'w) io" where
  "describeTargetGroupsForLB A lbArn =
     (if lbArn = [] then io_return []
      else describe_step (''describe target groups for load balancer '' @ lbArn) (aw_DescribeTargetGroups A lbArn))"

definition target_group_request_for ::
  "machine_group \<Rightarrow> lb_exposure_spec \<Rightarrow> string \<Rightarrow> int \<Rightarrow> target_group_request" where
  "target_group_request_for mg lb vpcID port = \<lparr>tr_Name = targetGroupName mg lb port, tr_Port = port,
     tr_Protocol = ''TCP'', tr_VpcId = vpcID, tr_TargetType = ''instance'', tr_HealthCheckEnabled = True,
     tr_HealthCheckProtocol = ''TCP'', tr_HealthCheckPort = ''traffic-port'', tr_HealthyThreshold = 2,
     tr_UnhealthyThreshold = 2, tr_TimeoutSeconds = 6, tr_IntervalSeconds = 10,
     tr_Tags = buildELBTags mg lb\<rparr>"

definition createTargetGroup ::
  "'w aws_api \<Rightarrow> machine_group \<Rightarrow> lb_exposure_spec \<Rightarrow> string \<Rightarrow> int \<Rightarrow> (target_group, 'w) io" where
  "createTargetGroup A mg lb vpcID port =
     io_bind (io_wrap (''create target group for port '' @ show_int port)
               (aw_CreateTargetGroup A (target_group_request_for mg lb vpcID port)))
       (\<lambda>tgs. case tgs of
          [] \<Rightarrow> io_fail (errorf (''create target group for port '' @ show_int port @ '': empty response''))
        | tg # _ \<Rightarrow> io_return tg)"

definition listenerForwardsTo :: "aws_listener \<Rightarrow> string \<Rightarrow> bool" where
  "listenerForwardsTo l tgArn = list_ex (\<lambda>a. ac_Type a = ''forward'' \<and>
     (to_str (ac_TargetGroupArn a) = tgArn \<or> list_ex (\<lambda>t. to_str t = tgArn) (ac_ForwardTargets a))) (li_Actions l)"

definition listener_request_for :: "int \<Rightarrow> string \<Rightarrow> listener_request" where
  "listener_request_for port tgArn = \<lparr>lr_Port = port, lr_Protocol = ''TCP'',
     lr_Actions = [\<lparr>ac_Type = ''forward'', ac_TargetGroupArn = Some tgArn, ac_ForwardTargets = []\<rparr>]\<rparr>"

text \<open>\<open>existing\<close> is the entry of a Go map, the zero value when there is none.\<close>

definition zero_listener :: aws_listener where
  "zero_listener = \<lparr>li_Arn = None, li_Port = None, li_Protocol = [], li_Actions = []\<rparr>"

definition zero_target_group :: target_group where
  "zero_target_group = \<lparr>tg_Arn = None, tg_Port = None\<rparr>"

definition entry_or :: "'v \<Rightarrow> ('k, 'v) gomap \<Rightarrow> 'k \<Rightarrow> 'v" where
  "entry_or zero m k = (case map_of m k of None \<Rightarrow> zero | Some v \<Rightarrow> v)"

definition ensureListener ::
  "'w aws_api \<Rightarrow> string \<Rightarrow> int \<Rightarrow> string \<Rightarrow> aws_listener \<Rightarrow> (string, 'w) io" where
  "ensureListener A lbArn port tgArn existing =
     (case li_Arn existing of
        None \<Rightarrow>
          io_bind (io_wrap (''create listener for port '' @ show_int port)
                    (aw_CreateListener A lbArn (listener_request_for port tgArn)))
            (\<lambda>ls. case ls of
               [] \<Rightarrow> io_fail (errorf (''create listener for port '' @ show_int port @ '': empty response''))
             | l # _ \<Rightarrow> io_return (to_str (li_Arn l)))
      | Some arn \<Rightarrow>
          (let needModify = li_Protocol existing \<noteq> ''TCP'' \<or> \<not> listenerForwardsTo existing tgArn in
           io_then (io_when needModify
               (io_wrap (''modify listener '' @ arn @ '' for port '' @ show_int port)
                 (aw_ModifyListener A arn (listener_request_for port tgArn))))
             (io_return arn)))"

definition ensureNetworkLoadBalancer ::
  "'w aws_api \<Rightarrow> machine_group \<Rightarrow> lb_exposure_spec \<Rightarrow> placement \<Rightarrow> (load_balancer, 'w) io" where
  "ensureNetworkLoadBalancer A mg lb placement =
     (let name = loadBalancerName mg lb;
          scheme = (if equal_fold (EffectiveScope lb) ''external'' then ''internet-facing'' else ''internal'') in
      io_bind (describeLoadBalancerByName A name) (\<lambda>existing. case existing of
        Some found \<Rightarrow>
          if lb_Type found \<noteq> ''network'' then
            io_fail (errorf (''load balancer '' @ name @ '' exists but is not network type''))
          else if lb_Scheme found \<noteq> scheme then
            io_fail (errorf (''load balancer '' @ name @ '' scheme mismatch: have '' @ lb_Scheme found @
              '' want '' @ scheme))
          else io_return found
      | None \<Rightarrow>
          io_bind (io_wrap (''create network load balancer '' @ name)
                    (aw_CreateLoadBalancer A \<lparr>br_Name = name, br_Type = ''network'', br_Scheme = scheme,
                       br_Subnets = ps_SubnetIDs placement, br_Tags = buildELBTags mg lb\<rparr>))
            (\<lambda>created. case created of
               [] \<Rightarrow> io_fail (errorf (''create network load balancer '' @ name @ '': empty response''))
             | made # _ \<Rightarrow> io_return made)))"

section \<open>Deletion\<close>

definition ensureLoadBalancerDeletedByARN :: "'w aws_api \<Rightarrow> machine_group \<Rightarrow> string \<Rightarrow> (unit, 'w) io" where
  "ensureLoadBalancerDeletedByARN A mg lbArn =
     (if trim_space lbArn = [] then io_return ()
      else io_bind (describeListenersByLB A lbArn) (\<lambda>listeners.
        io_then (io_each (\<lambda>l. case li_Arn l of
              None \<Rightarrow> io_return ()
            | Some arn \<Rightarrow> delete_step (''delete listener '' @ arn) (aw_DeleteListener A arn)) listeners)
        (io_bind (describeTargetGroupsForLB A lbArn) (\<lambda>targetGroups.
          let tgARNs = List.map_filter tg_Arn targetGroups; asgName = snd (ResolveNames mg) in
          io_then (io_when (tgARNs \<noteq> []) (delete_step (''detach target groups from asg '' @ asgName)
              (aw_DetachTargetGroups A asgName tgARNs)))
          (io_then (io_each (\<lambda>tg. case tg_Arn tg of
                None \<Rightarrow> io_return ()
              | Some arn \<Rightarrow> delete_step (''delete target group '' @ arn) (aw_DeleteTargetGroup A arn)) targetGroups)
            (delete_step (''delete load balancer '' @ lbArn) (aw_DeleteLoadBalancer A lbArn)))))))"

definition ensureLoadBalancerDeletedByName ::
  "'w aws_api \<Rightarrow> machine_group \<Rightarrow> lb_exposure_spec \<Rightarrow> (unit, 'w) io" where
  "ensureLoadBalancerDeletedByName A mg lb =
     io_bind (describeLoadBalancerByName A (loadBalancerName mg lb)) (\<lambda>found. case found of
        None \<Rightarrow> io_return ()
      | Some b \<Rightarrow> (case lb_Arn b of
            None \<Rightarrow> io_return ()
          | Some arn \<Rightarrow> ensureLoadBalancerDeletedByARN A mg arn))"

definition ensureLoadBalancersDeleted :: "'w aws_api \<Rightarrow> machine_group \<Rightarrow> (unit, 'w) io" where
  "ensureLoadBalancersDeleted A mg =
     (let cloud = st_Cloud (mg_Status mg) in
      io_bind (io_lift (NormalizeLoadBalancers (sp_Exposure (mg_Spec mg)))) (\<lambda>lbs.
        io_then (io_each (ensureLoadBalancerDeletedByName A mg) lbs)
        (io_then (io_each (\<lambda>b. if trim_space (lcs_LoadBalancerID b) = [] then io_return ()
              else ensureLoadBalancerDeletedByARN A mg (lcs_LoadBalancerID b)) (cs_LoadBalancers cloud))
          (io_when (cs_LoadBalancers cloud = [] \<and> trim_space (cs_FrontendID cloud) \<noteq> [])
            (ensureLoadBalancerDeletedByARN A mg (cs_FrontendID cloud))))))"

definition ensureStaleLoadBalancersDeleted ::
  "'w aws_api \<Rightarrow> machine_group \<Rightarrow> lb_exposure_spec list \<Rightarrow> (unit, 'w) io" where
  "ensureStaleLoadBalancersDeleted A mg desired =
     (let cloud = st_Cloud (mg_Status mg);
          desiredPrimaryID = (case desired of [] \<Rightarrow> [] | lb # _ \<Rightarrow> loadBalancerName mg lb) in
      io_then (io_each (\<lambda>b. if lcs_Name b \<in> lbs_Name ` set desired then io_return ()
            else if trim_space (lcs_LoadBalancerID b) = [] then io_return ()
            else ensureLoadBalancerDeletedByARN A mg (lcs_LoadBalancerID b)) (cs_LoadBalancers cloud))
        (io_when (cs_LoadBalancers cloud = [] \<and> trim_space (cs_FrontendID cloud) \<noteq> [] \<and>
             \<not> contains (cs_FrontendID cloud) (''/'' @ desiredPrimaryID @ ''/''))
          (ensureLoadBalancerDeletedByARN A mg (cs_FrontendID cloud))))"

section \<open>Exposure\<close>

record desired_port =
  dp_UID :: string
  dp_Port :: int
  dp_Protocol :: string

fun desired_by_port ::
  "(string, int) gomap \<Rightarrow> machine_port list \<Rightarrow> (int, desired_port) gomap \<Rightarrow> (int, desired_port) gomap result" where
  "desired_by_port allocated [] desiredByPort = Inr desiredByPort"
| "desired_by_port allocated (mp # mps) desiredByPort =
     (case map_of allocated (mp_uid mp) of
        None \<Rightarrow> desired_by_port allocated mps desiredByPort
      | Some port \<Rightarrow>
          if port \<le> 0 then desired_by_port allocated mps desiredByPort
          else
            (let protocol = to_upper (trim_space (mps_Protocol (mp_Spec mp)));
                 protocol = (if protocol = [] then ''TCP'' else protocol) in
             if protocol \<noteq> ''TCP'' then
               Inl (errorf (''unsupported protocol '' @ quote protocol @ '' on TiProxyMachinePort '' @
                 meta_namespace (mp_meta mp) @ ''/'' @ meta_name (mp_meta mp)))
             else
               (case map_of desiredByPort port of
                  Some prev \<Rightarrow>
                    Inl (errorf (''allocated port '' @ show_int port @ '' conflicts between machinePort UID '' @
                      dp_UID prev @ '' and '' @ mp_uid mp))
                | None \<Rightarrow> desired_by_port allocated mps
                    (AList.update port \<lparr>dp_UID = mp_uid mp, dp_Port = port, dp_Protocol = protocol\<rparr>
                      desiredByPort))))"

text \<open>What the loop over the load balancers carries.\<close>

record exposure_state =
  es_managed :: "string list"
  es_desired :: "string list"
  es_ports :: "(string, port_cloud_status) gomap"
  es_balancers :: "lb_cloud_status list"

fun index_target_groups ::
  "target_group list \<Rightarrow> (int, target_group) gomap \<Rightarrow> string list \<Rightarrow> (int, target_group) gomap \<times> string list" where
  "index_target_groups [] tgByPort managed = (tgByPort, managed)"
| "index_target_groups (tg # tgs) tgByPort managed =
     (case tg_Port tg of
        None \<Rightarrow> index_target_groups tgs tgByPort managed
      | Some p \<Rightarrow> index_target_groups tgs (AList.update p tg tgByPort) (to_str (tg_Arn tg) # managed))"

fun index_listeners :: "aws_listener list \<Rightarrow> (int, aws_listener) gomap \<Rightarrow> (int, aws_listener) gomap" where
  "index_listeners [] listenerByPort = listenerByPort"
| "index_listeners (l # ls) listenerByPort =
     (case li_Port l of
        None \<Rightarrow> index_listeners ls listenerByPort
      | Some p \<Rightarrow> index_listeners ls (AList.update p l listenerByPort))"

definition port_balancer_status ::
  "lb_exposure_spec \<Rightarrow> load_balancer \<Rightarrow> string \<Rightarrow> string \<Rightarrow> port_lb_cloud_status" where
  "port_balancer_status spec lb listenerArn tgArn = \<lparr>pls_Name = lbs_Name spec, pls_Scope = lbs_Scope spec,
     pls_LoadBalancerID = to_str (lb_Arn lb), pls_LoadBalancerAddress = to_str (lb_DNSName lb),
     pls_ListenerID = listenerArn, pls_BackendID = tgArn\<rparr>"

definition add_port_status ::
  "string \<Rightarrow> port_lb_cloud_status \<Rightarrow> (string, port_cloud_status) gomap \<Rightarrow> (string, port_cloud_status) gomap" where
  "add_port_status uid s statuses =
     (let status = entry_or empty_port_cloud_status statuses uid
      in AList.update uid (status\<lparr>pcs_LoadBalancers := pcs_LoadBalancers status @ [s]\<rparr>) statuses)"

text \<open>The missing target groups are created.\<close>

definition create_target_groups ::
  "'w aws_api \<Rightarrow> machine_group \<Rightarrow> lb_exposure_spec \<Rightarrow> string \<Rightarrow> int list \<Rightarrow>
   (int, target_group) gomap \<times> string list \<Rightarrow> ((int, target_group) gomap \<times> string list, 'w) io" where
  "create_target_groups A mg spec vpcID = io_loop (\<lambda>port (tgByPort, managed).
     if map_of tgByPort port \<noteq> None then io_return (tgByPort, managed)
     else io_bind (createTargetGroup A mg spec vpcID port) (\<lambda>created.
       io_return (AList.update port created tgByPort, to_str (tg_Arn created) # managed)))"

text \<open>A listener for each desired port, recorded in the status of its machine port.\<close>

definition ensure_listeners ::
  "'w aws_api \<Rightarrow> lb_exposure_spec \<Rightarrow> load_balancer \<Rightarrow> (int, target_group) gomap \<Rightarrow> (int, aws_listener) gomap \<Rightarrow>
   (int \<times> desired_port) list \<Rightarrow> (string, port_cloud_status) gomap \<Rightarrow> ((string, port_cloud_status) gomap, 'w) io" where
  "ensure_listeners A spec lb tgByPort listenerByPort = io_loop (\<lambda>(port, desired) statuses.
     let tgArn = to_str (tg_Arn (entry_or zero_target_group tgByPort port)) in
     io_bind (ensureListener A (to_str (lb_Arn lb)) port tgArn (entry_or zero_listener listenerByPort port))
       (\<lambda>listenerArn. io_return
         (add_port_status (dp_UID desired) (port_balancer_status spec lb listenerArn tgArn) statuses)))"

text \<open>Listeners and target groups of other ports are removed.\<close>

definition delete_unwanted ::
  "'w aws_api \<Rightarrow> int list \<Rightarrow> aws_listener list \<Rightarrow> target_group list \<Rightarrow> (unit, 'w) io" where
  "delete_unwanted A wanted listeners targetGroups =
     io_then (io_each (\<lambda>l. case (li_Port l, li_Arn l) of
           (Some port, Some arn) \<Rightarrow>
             if port \<in> set wanted then io_return ()
             else delete_step (''delete listener '' @ arn) (aw_DeleteListener A arn)
         | _ \<Rightarrow> io_return ()) listeners)
       (io_each (\<lambda>tg. case (tg_Port tg, tg_Arn tg) of
           (Some port, Some arn) \<Rightarrow>
             if port \<in> set wanted then io_return ()
             else delete_step (''delete target group '' @ arn) (aw_DeleteTargetGroup A arn)
         | _ \<Rightarrow> io_return ()) targetGroups)"

definition visit :: "'w aws_api \<Rightarrow> nat \<Rightarrow> (int, desired_port) gomap \<Rightarrow> int list" where
  "visit A k desiredByPort = in_order (aw_port_order A k) (map fst desiredByPort)"

definition visit_entries :: "'w aws_api \<Rightarrow> nat \<Rightarrow> (int, desired_port) gomap \<Rightarrow> (int \<times> desired_port) list" where
  "visit_entries A k desiredByPort =
     map (\<lambda>port. (port, the (map_of desiredByPort port))) (visit A k desiredByPort)"

text \<open>The body of the loop over the load balancers; its loops over ports have numbers of their own.\<close>

definition expose_balancer ::
  "'w aws_api \<Rightarrow> machine_group \<Rightarrow> placement \<Rightarrow> (int, desired_port) gomap \<Rightarrow> lb_exposure_spec \<Rightarrow>
   exposure_state \<Rightarrow> (exposure_state, 'w) io" where
  "expose_balancer A mg placement desiredByPort spec st =
     (let loop = 3 * length (es_balancers st) in
     io_bind (resolveLoadBalancerPlacement A mg spec placement) (\<lambda>lbPlacement.
     io_bind (ensureNetworkLoadBalancer A mg spec lbPlacement) (\<lambda>lb.
     let lbStatus = \<lparr>lcs_Name = lbs_Name spec, lcs_Scope = lbs_Scope spec,
           lcs_LoadBalancerID = to_str (lb_Arn lb), lcs_LoadBalancerAddress = to_str (lb_DNSName lb)\<rparr> in
     io_bind (describeTargetGroupsForLB A (to_str (lb_Arn lb))) (\<lambda>targetGroups.
     io_bind (create_target_groups A mg spec (ps_VPCID lbPlacement) (visit A (loop + 0) desiredByPort)
                (index_target_groups targetGroups [] (es_managed st))) (\<lambda>(tgByPort, managed).
     let desiredARNs = es_desired st @
           map (\<lambda>port. to_str (tg_Arn (entry_or zero_target_group tgByPort port))) (visit A (loop + 1) desiredByPort) in
     io_bind (describeListenersByLB A (to_str (lb_Arn lb))) (\<lambda>listeners.
     io_bind (ensure_listeners A spec lb tgByPort (index_listeners listeners []) (visit_entries A (loop + 2) desiredByPort)
                (es_ports st)) (\<lambda>ports.
     io_then (delete_unwanted A (map fst desiredByPort) listeners targetGroups)
       (io_return \<lparr>es_managed = managed, es_desired = desiredARNs, es_ports = ports,
          es_balancers = es_balancers st @ [lbStatus]\<rparr>))))))))"

definition reconcileASGTargetGroups ::
  "'w aws_api \<Rightarrow> string \<Rightarrow> string list \<Rightarrow> string list \<Rightarrow> (unit, 'w) io" where
  "reconcileASGTargetGroups A asgName desired managed =
     io_bind (io_wrap (''describe asg '' @ asgName) (aw_DescribeAutoScalingGroups A [asgName])) (\<lambda>groups.
       case groups of
         [] \<Rightarrow> io_fail (errorf (''asg '' @ asgName @ '' not found while reconciling target groups''))
       | asg # _ \<Rightarrow>
           (let current = as_TargetGroupARNs asg;
                toAttach = filter (\<lambda>arn. arn \<notin> set current) desired;
                toDetach = filter (\<lambda>arn. arn \<in> set managed \<and> arn \<notin> set desired)
                  (in_order (aw_arn_order A) (remdups current)) in
            io_then (io_when (toAttach \<noteq> []) (io_wrap (''attach target groups to asg '' @ asgName)
                (aw_AttachTargetGroups A asgName toAttach)))
              (io_when (toDetach \<noteq> []) (io_wrap (''detach target groups from asg '' @ asgName)
                (aw_DetachTargetGroups A asgName toDetach)))))"

definition dedupeStrings :: "string list \<Rightarrow> string list" where
  "dedupeStrings values = dedupe_on (\<lambda>v. v) [] values"

definition finish_port_status :: "port_cloud_status \<Rightarrow> port_cloud_status" where
  "finish_port_status status = SetPrimaryLoadBalancerCompat_port
     (status\<lparr>pcs_LoadBalancers := sort_key pls_Name (pcs_LoadBalancers status)\<rparr>)"

definition ensureLoadBalancerExposure ::
  "'w aws_api \<Rightarrow> machine_group \<Rightarrow> string \<Rightarrow> machine_port list \<Rightarrow> (string, int) gomap \<Rightarrow> placement \<Rightarrow>
   lb_exposure_spec list \<Rightarrow> (lb_cloud_status list \<times> (string, port_cloud_status) gomap, 'w) io" where
  "ensureLoadBalancerExposure A mg asgName machinePorts allocated placement loadBalancers =
     (if ps_SubnetIDs placement = [] then
        io_fail (errorf ''spec.network.subnetIDs is required for loadBalancer exposure'')
      else io_bind (io_lift (desired_by_port allocated machinePorts [])) (\<lambda>desiredByPort.
        io_bind (io_loop (expose_balancer A mg placement desiredByPort) loadBalancers
                  \<lparr>es_managed = [], es_desired = [], es_ports = [], es_balancers = []\<rparr>) (\<lambda>st.
        io_then (reconcileASGTargetGroups A asgName (sort (dedupeStrings (es_desired st))) (es_managed st))
          (io_return (sort_key lcs_Name (es_balancers st),
             map (\<lambda>(uid, status). (uid, finish_port_status status)) (es_ports st))))))"

section \<open>The provider\<close>

text \<open>The machines of a group: its placement, launch template and auto scaling group.\<close>

definition ensure_machines :: "'w aws_api \<Rightarrow> machine_group \<Rightarrow> (placement \<times> string \<times> string, 'w) io" where
  "ensure_machines A mg =
     (let (ltName, asgName) = ResolveNames mg;
          desiredImageHash = tiproxyImageSpecHash (sp_TiProxy (mg_Spec mg)) in
      io_bind (resolvePlacement A mg) (\<lambda>placement.
      io_bind (ensureLaunchTemplate A mg ltName) (\<lambda>(ltID, ltVersion).
      io_then (ensureAutoScalingGroup A mg asgName ltName ltVersion desiredImageHash placement)
        (io_return (placement, ltID, ltVersion)))))"

definition aws_Ensure :: "'w aws_api \<Rightarrow> 'w ensure_op" where
  "aws_Ensure A mg machinePorts allocated w =
     (let (ltName, asgName) = ResolveNames mg in
      case NormalizeLoadBalancers (sp_Exposure (mg_Spec mg)) of
        Inl e \<Rightarrow> ((empty_cloud_status, [], Some e), w)
      | Inr loadBalancers \<Rightarrow>
        (case ensure_machines A mg w of
           (Inl e, w) \<Rightarrow> ((empty_cloud_status, [], Some e), w)
         | (Inr (placement, ltID, ltVersion), w) \<Rightarrow>
           (let status = empty_cloud_status\<lparr>cs_MachineGroupName := asgName, cs_MachineTemplateID := ltID,
                  cs_MachineTemplateName := ltName, cs_MachineTemplateVer := ltVersion\<rparr> in
            if loadBalancers = [] then
              (case ensureLoadBalancersDeleted A mg w of
                 (Inl e, w) \<Rightarrow> ((status, [], Some e), w)
               | (Inr _, w) \<Rightarrow> ((status, [], None), w))
            else
              (case ensureLoadBalancerExposure A mg asgName machinePorts allocated placement loadBalancers w of
                 (Inl e, w) \<Rightarrow> ((status, [], Some e), w)
               | (Inr (loadBalancerStatus, machinePortCloud), w) \<Rightarrow>
                 (let status = SetPrimaryLoadBalancerCompat_cloud
                        (status\<lparr>cs_LoadBalancers := loadBalancerStatus\<rparr>) in
                  case ensureStaleLoadBalancersDeleted A mg loadBalancers w of
                    (Inl e, w) \<Rightarrow> ((status, [], Some e), w)
                  | (Inr _, w) \<Rightarrow> ((status, machinePortCloud, None), w))))))"

definition aws_Delete :: "'w aws_api \<Rightarrow> machine_group \<Rightarrow> 'w act" where
  "aws_Delete A mg =
     (let (ltName, asgName) = ResolveNames mg in
      io_act (io_then (ensureLoadBalancersDeleted A mg)
        (io_then (delete_step (''delete asg '' @ asgName) (aw_DeleteAutoScalingGroup A asgName True))
          (delete_step (''delete launch template '' @ ltName) (aw_DeleteLaunchTemplate A ltName)))))"

definition aws_manager :: "'w aws_api \<Rightarrow> 'w cloud_manager" where
  "aws_manager A = \<lparr>EnsureMachineGroup = aws_Ensure A, DeleteMachineGroup = aws_Delete A\<rparr>"

end
