(* ===== verification/Aws_Recording.thy ===== *)
theory Aws_Recording
  imports Aws_Exposure
begin

text \<open>
  Recording the calls changes nothing: the provider on \<open>recorded_aws A\<close> returns what it returns on \<open>A\<close> and
  leaves the environment \<open>A\<close> would leave. So a theorem about the log is a theorem about the provider.

  \<open>records f g\<close> says this of a step \<open>f\<close> with a log and the same step \<open>g\<close> without; like \<open>keeps\<close> it goes
  through the combinators by rules.
\<close>

named_theorems records_rules \<open>steps that only add a log\<close>

definition records :: "('a, 'w \<times> aws_call list) io \<Rightarrow> ('a, 'w) io \<Rightarrow> bool" where
  "records f g \<longleftrightarrow> (\<forall>w log. \<exists>log'. f (w, log) = (case g w of (r, w') \<Rightarrow> (r, (w', log'))))"

lemma records_run:
  assumes "records f g" "f (w, log) = (r, (w', log'))"
  shows "g w = (r, w')"
proof -
  obtain r1 w1 where g: "g w = (r1, w1)" by (rule prod.exhaust)
  with assms show ?thesis unfolding records_def by (metis (mono_tags, lifting) prod.inject old.prod.case)
qed

lemma recordsE:
  assumes "records f g"
  obtains r w' log' where "f (w, log) = (r, (w', log'))" "g w = (r, w')"
proof -
  obtain r1 w1 where g: "g w = (r1, w1)" by (rule prod.exhaust)
  with assms show thesis unfolding records_def by (metis (mono_tags, lifting) old.prod.case that)
qed

lemma recordsI: "(\<And>w log r w'. g w = (r, w') \<Longrightarrow> \<exists>log'. f (w, log) = (r, (w', log'))) \<Longrightarrow> records f g"
  unfolding records_def by (metis (mono_tags, lifting) old.prod.case surj_pair)

lemma records_calls [records_rules]:
  "records (unlogged f) f" "records (logged_as c f) f"
  "records (io_return x) (io_return x)" "records (io_fail e) (io_fail e)" "records (io_lift r) (io_lift r)"
  by (simp_all add: records_def unlogged_def logged_as_def io_return_def io_fail_def io_lift_def split: prod.split)

lemma records_bind [records_rules]:
  assumes "records f f'" "\<And>x. records (g x) (g' x)"
  shows "records (io_bind f g) (io_bind f' g')"
proof (rule recordsI)
  fix w log r w'' assume run: "io_bind f' g' w = (r, w'')"
  obtain r1 w1 l1 where f: "f (w, log) = (r1, (w1, l1))" "f' w = (r1, w1)" using assms(1) by (rule recordsE)
  show "\<exists>log'. io_bind f g (w, log) = (r, (w'', log'))"
  proof (cases r1)
    case (Inl e)
    then show ?thesis using run f by (simp add: io_bind_def)
  next
    case (Inr x)
    obtain r2 w2 l2 where "g x (w1, l1) = (r2, (w2, l2))" "g' x w1 = (r2, w2)" using assms(2) by (rule recordsE)
    then show ?thesis using Inr run f by (simp add: io_bind_def)
  qed
qed

lemma records_then [records_rules]: "records f f' \<Longrightarrow> records g g' \<Longrightarrow> records (io_then f g) (io_then f' g')"
  unfolding io_then_def by (rule records_bind)

lemma records_wrap [records_rules]:
  assumes "records f f'"
  shows "records (io_wrap what f) (io_wrap what f')"
proof (rule recordsI)
  fix w log r w'' assume run: "io_wrap what f' w = (r, w'')"
  obtain r1 w1 l1 where "f (w, log) = (r1, (w1, l1))" "f' w = (r1, w1)" using assms by (rule recordsE)
  then show "\<exists>log'. io_wrap what f (w, log) = (r, (w'', log'))"
    using run by (cases r1) (auto simp: io_wrap_def)
qed

lemma records_catch [records_rules]:
  assumes "records f f'" "\<And>e. records (h e) (h' e)"
  shows "records (io_catch f h) (io_catch f' h')"
proof (rule recordsI)
  fix w log r w'' assume run: "io_catch f' h' w = (r, w'')"
  obtain r1 w1 l1 where f: "f (w, log) = (r1, (w1, l1))" "f' w = (r1, w1)" using assms(1) by (rule recordsE)
  show "\<exists>log'. io_catch f h (w, log) = (r, (w'', log'))"
  proof (cases r1)
    case (Inl e)
    obtain r2 w2 l2 where "h e (w1, l1) = (r2, (w2, l2))" "h' e w1 = (r2, w2)" using assms(2) by (rule recordsE)
    then show ?thesis using Inl run f by (simp add: io_catch_def)
  next
    case (Inr x)
    then show ?thesis using run f by (auto simp: io_catch_def)
  qed
qed

lemma records_branches [records_rules]:
  "records u u' \<Longrightarrow> records (io_when b u) (io_when b u')"
  "records f f' \<Longrightarrow> records g g' \<Longrightarrow> records (if b then f else g) (if b then f' else g')"
  "(\<And>x. records (h x) (h' x)) \<Longrightarrow> records (Let t h) (Let t h')"
  "records f f' \<Longrightarrow> (\<And>y. records (h y) (h' y)) \<Longrightarrow>
     records (case x of None \<Rightarrow> f | Some y \<Rightarrow> h y) (case x of None \<Rightarrow> f' | Some y \<Rightarrow> h' y)"
  "records f f' \<Longrightarrow> (\<And>y ys. records (k y ys) (k' y ys)) \<Longrightarrow>
     records (case xs of [] \<Rightarrow> f | y # ys \<Rightarrow> k y ys) (case xs of [] \<Rightarrow> f' | y # ys \<Rightarrow> k' y ys)"
  "(\<And>a b. records (m a b) (m' a b)) \<Longrightarrow> records (case p of (a, b) \<Rightarrow> m a b) (case p of (a, b) \<Rightarrow> m' a b)"
  "(\<And>a b. records (n a b z) (n' a b z)) \<Longrightarrow> records ((case p of (a, b) \<Rightarrow> n a b) z) ((case p of (a, b) \<Rightarrow> n' a b) z)"
  by (auto simp: io_when_def records_calls split: option.split list.split prod.split)

lemma records_loop [records_rules]:
  "(\<And>x s. records (f x s) (f' x s)) \<Longrightarrow> records (io_loop f xs s) (io_loop f' xs s)"
  by (induction xs arbitrary: s) (simp_all add: records_rules)

lemma records_each [records_rules]: "(\<And>x. records (f x) (f' x)) \<Longrightarrow> records (io_each f xs) (io_each f' xs)"
  unfolding io_each_def by (rule records_loop)

lemma records_steps [records_rules]:
  "records f f' \<Longrightarrow> records (delete_step what f) (delete_step what f')"
  "records l l' \<Longrightarrow> records (describe_step what l) (describe_step what l')"
  by (auto simp: delete_step_def describe_step_def intro!: records_rules)

section \<open>The operations\<close>

lemma recorded_orders [simp]:
  "visit (recorded_aws A) k m = visit A k m" "visit_entries (recorded_aws A) k m = visit_entries A k m"
  by (simp_all add: visit_def visit_entries_def)

lemma records_placement [records_rules]:
  "records (resolvePlacement (recorded_aws A) mg) (resolvePlacement A mg)"
  "records (resolveLoadBalancerPlacement (recorded_aws A) mg lb p) (resolveLoadBalancerPlacement A mg lb p)"
  unfolding resolvePlacement_def resolveLoadBalancerPlacement_def recorded_aws_simps by (intro records_rules)+

lemma records_machines [records_rules]:
  "records (ensure_machines (recorded_aws A) mg) (ensure_machines A mg)"
proof -
  have tag: "records (setASGTag (recorded_aws A) asg k v) (setASGTag A asg k v)" for asg k v
    unfolding setASGTag_def recorded_aws_simps by (intro records_rules)
  have "records (ensureLaunchTemplate (recorded_aws A) mg n) (ensureLaunchTemplate A mg n)" for n
    unfolding ensureLaunchTemplate_def io_ignore_def recorded_aws_simps versionDescription_def by (intro records_rules)
  moreover have "records (ensureImageRollingRefresh (recorded_aws A) asg g h) (ensureImageRollingRefresh A asg g h)" for asg g h
    unfolding ensureImageRollingRefresh_def hasActiveInstanceRefresh_def recorded_aws_simps
    by (intro records_rules tag)
  then have "records (ensureAutoScalingGroup (recorded_aws A) mg a n v h p) (ensureAutoScalingGroup A mg a n v h p)" for a n v h p
    unfolding ensureAutoScalingGroup_def recorded_aws_simps by (intro records_rules tag)
  ultimately show ?thesis
    unfolding ensure_machines_def by (intro records_rules)
qed

lemma records_descriptions [records_rules]:
  "records (describeLoadBalancerByName (recorded_aws A) name) (describeLoadBalancerByName A name)"
  "records (describeListenersByLB (recorded_aws A) arn) (describeListenersByLB A arn)"
  "records (describeTargetGroupsForLB (recorded_aws A) arn) (describeTargetGroupsForLB A arn)"
  unfolding describeLoadBalancerByName_def describeListenersByLB_def describeTargetGroupsForLB_def recorded_aws_simps
  by (intro records_rules)+

lemma records_deletion [records_rules]:
  "records (ensureLoadBalancersDeleted (recorded_aws A) mg) (ensureLoadBalancersDeleted A mg)"
  "records (ensureStaleLoadBalancersDeleted (recorded_aws A) mg lbs) (ensureStaleLoadBalancersDeleted A mg lbs)"
proof -
  have one: "records (ensureLoadBalancerDeletedByARN (recorded_aws A) mg arn) (ensureLoadBalancerDeletedByARN A mg arn)" for arn
    unfolding ensureLoadBalancerDeletedByARN_def recorded_aws_simps by (intro records_rules)
  show "records (ensureLoadBalancersDeleted (recorded_aws A) mg) (ensureLoadBalancersDeleted A mg)"
    unfolding ensureLoadBalancersDeleted_def ensureLoadBalancerDeletedByName_def by (intro records_rules one)
  show "records (ensureStaleLoadBalancersDeleted (recorded_aws A) mg lbs) (ensureStaleLoadBalancersDeleted A mg lbs)"
    unfolding ensureStaleLoadBalancersDeleted_def by (intro records_rules one)
qed

lemma records_exposure [records_rules]:
  "records (ensureLoadBalancerExposure (recorded_aws A) mg asg mps allocated placement lbs)
     (ensureLoadBalancerExposure A mg asg mps allocated placement lbs)"
proof -
  have "records (ensureNetworkLoadBalancer (recorded_aws A) mg spec p) (ensureNetworkLoadBalancer A mg spec p)" for spec p
    unfolding ensureNetworkLoadBalancer_def recorded_aws_simps by (intro records_rules)
  moreover have "records (create_target_groups (recorded_aws A) mg spec v ports z) (create_target_groups A mg spec v ports z)"
    for spec v ports z
    unfolding create_target_groups_def createTargetGroup_def recorded_aws_simps by (intro records_rules)
  moreover have "records (ensure_listeners (recorded_aws A) spec lb tgs ls entries z) (ensure_listeners A spec lb tgs ls entries z)"
    for spec lb tgs ls entries z
    unfolding ensure_listeners_def ensureListener_def recorded_aws_simps by (intro records_rules)
  moreover have "records (delete_unwanted (recorded_aws A) wanted ls tgs) (delete_unwanted A wanted ls tgs)" for wanted ls tgs
    unfolding delete_unwanted_def recorded_aws_simps by (intro records_rules)
  ultimately have "records (expose_balancer (recorded_aws A) mg placement m spec st) (expose_balancer A mg placement m spec st)"
    for m spec st
    unfolding expose_balancer_def recorded_orders by (intro records_rules)
  moreover have "records (reconcileASGTargetGroups (recorded_aws A) asg d m) (reconcileASGTargetGroups A asg d m)" for d m
    unfolding reconcileASGTargetGroups_def recorded_aws_simps by (intro records_rules)
  ultimately show ?thesis
    unfolding ensureLoadBalancerExposure_def by (intro records_rules)
qed

text \<open>\<open>EnsureMachineGroup\<close> itself.\<close>

lemma Ensure_recorded:
  assumes "aws_Ensure (recorded_aws A) mg mps allocated (w, log) = (res, (w', log'))"
  shows "aws_Ensure A mg mps allocated w = (res, w')"
proof (cases "NormalizeLoadBalancers (sp_Exposure (mg_Spec mg))")
  case (Inl e)
  then show ?thesis using assms by (auto simp: aws_Ensure_def split: prod.splits)
next
  case lbs: (Inr lbs)
  obtain lt asg where names: "ResolveNames mg = (lt, asg)" by (rule prod.exhaust)
  obtain r w1 l1 where m: "ensure_machines (recorded_aws A) mg (w, log) = (r, (w1, l1))" "ensure_machines A mg w = (r, w1)"
    using records_machines by (rule recordsE)
  obtain d w2 l2 where d: "ensureLoadBalancersDeleted (recorded_aws A) mg (w1, l1) = (d, (w2, l2))"
    "ensureLoadBalancersDeleted A mg w1 = (d, w2)"
    using records_deletion(1) by (rule recordsE)
  show ?thesis
  proof (cases r)
    case (Inl e)
    then show ?thesis using assms names lbs m by (auto simp: aws_Ensure_def)
  next
    case (Inr x)
    obtain p i v where x: "x = (p, i, v)" by (rule prod_cases3)
    obtain y w3 l3 where e: "ensureLoadBalancerExposure (recorded_aws A) mg asg mps allocated p lbs (w1, l1) = (y, (w3, l3))"
      "ensureLoadBalancerExposure A mg asg mps allocated p lbs w1 = (y, w3)"
      using records_exposure by (rule recordsE)
    obtain z w4 l4 where s: "ensureStaleLoadBalancersDeleted (recorded_aws A) mg lbs (w3, l3) = (z, (w4, l4))"
      "ensureStaleLoadBalancersDeleted A mg lbs w3 = (z, w4)"
      using records_deletion(2) by (rule recordsE)
    show ?thesis
      using assms names lbs m Inr x d e s
      by (cases "lbs = []"; cases d; cases y; cases z) (auto simp: aws_Ensure_def Let_def)
  qed
qed

end
