(* ===== verification/Aws_Provider.thy ===== *)
theory Aws_Provider
  imports Aws_Recording
begin

text \<open>
  The AWS provider satisfies the contract of a cloud provider: what it reports when it succeeds, for any
  answers of AWS and any order of Go's map iterations.
\<close>

section \<open>The desired ports\<close>

text \<open>What the loop has collected: every port once, as the port of its machine port.\<close>

definition desired_ok :: "(string, int) gomap \<Rightarrow> (int, desired_port) gomap \<Rightarrow> bool" where
  "desired_ok allocated m \<longleftrightarrow> distinct (map fst m) \<and>
     (\<forall>(p, d) \<in> set m. map_of allocated (dp_UID d) = Some p \<and> 0 < p \<and> dp_Port d = p \<and> dp_Protocol d = ''TCP'')"

definition desired_uids :: "(int, desired_port) gomap \<Rightarrow> string set" where
  "desired_uids m = (\<lambda>(p, d). dp_UID d) ` set m"

lemma served_uids_Cons:
  "served_uids (mp # mps) allocated =
     (if \<exists>p. map_of allocated (mp_uid mp) = Some p \<and> 0 < p then insert (mp_uid mp) (served_uids mps allocated)
      else served_uids mps allocated)"
  by (auto simp: served_uids_def)

lemma desired_by_port_Inr:
  assumes "desired_by_port allocated mps acc = Inr m" "desired_ok allocated acc"
  shows "desired_ok allocated m \<and> desired_uids m = desired_uids acc \<union> served_uids mps allocated"
  using assms
proof (induction mps arbitrary: acc)
  case Nil
  then show ?case by (simp add: served_uids_def)
next
  case (Cons mp mps)
  show ?case
  proof (cases "\<exists>p. map_of allocated (mp_uid mp) = Some p \<and> 0 < p")
    case False
    then have "desired_by_port allocated mps acc = Inr m" using Cons.prems(1) by (auto split: option.splits if_splits)
    from Cons.IH [OF this Cons.prems(2)] show ?thesis using False by (auto simp: served_uids_Cons)
  next
    case True
    then obtain p where p: "map_of allocated (mp_uid mp) = Some p" "0 < p" by blast
    let ?d = "\<lparr>dp_UID = mp_uid mp, dp_Port = p, dp_Protocol = ''TCP''\<rparr>"
    have new: "map_of acc p = None" and run: "desired_by_port allocated mps (AList.update p ?d acc) = Inr m"
      using Cons.prems(1) p by (auto simp: Let_def split: option.splits if_splits)
    have "p \<notin> fst ` set acc" using new by (simp add: map_of_eq_None_iff)
    then have "desired_ok allocated (AList.update p ?d acc)" "desired_uids (AList.update p ?d acc) = insert (mp_uid mp) (desired_uids acc)"
      using Cons.prems(2) p by (auto simp: desired_ok_def desired_uids_def update_new [OF new])
    with Cons.IH [OF run] show ?thesis using True by (auto simp: served_uids_Cons)
  qed
qed

lemma desired_by_port_result:
  assumes "desired_by_port allocated mps [] = Inr m"
  shows "desired_ok allocated m" "desired_uids m = served_uids mps allocated"
  using desired_by_port_Inr [OF assms] by (simp_all add: desired_ok_def desired_uids_def)

text \<open>The entries in the order they are visited: all of them, with different UIDs.\<close>

lemma visit_entries_facts:
  assumes "desired_ok allocated m"
  shows "set (visit_entries A k m) = set m" "distinct (map (\<lambda>(p, d). dp_UID d) (visit_entries A k m))"
proof -
  have keys: "distinct (map fst m)" using assms by (simp add: desired_ok_def)
  have set: "set (visit A k m) = fst ` set m" "distinct (visit A k m)" using keys by (simp_all add: visit_def)
  have "(p, the (map_of m p)) = e" if "e \<in> set m" "p = fst e" for p e
    using that map_of_is_SomeI [OF keys, of "fst e" "snd e"] by simp
  then show entries: "set (visit_entries A k m) = set m"
    unfolding visit_entries_def set_map set image_image by (force simp: image_iff)
  have "distinct (map fst (visit_entries A k m))" using set(2) by (simp add: visit_entries_def comp_def)
  moreover have "inj_on (\<lambda>(p, d). dp_UID d) (set m)"
  proof (rule inj_onI, clarify)
    fix p d q e assume m: "(p, d) \<in> set m" "(q, e) \<in> set m" "dp_UID d = dp_UID e"
    have "map_of allocated (dp_UID d) = Some p" "map_of allocated (dp_UID e) = Some q"
      using assms m(1,2) unfolding desired_ok_def by blast+
    then have "p = q" using m(3) by simp
    moreover have "d = e" using m keys \<open>p = q\<close> by (auto dest: eq_key_imp_eq_value)
    ultimately show "p = q \<and> d = e" by blast
  qed
  ultimately show "distinct (map (\<lambda>(p, d). dp_UID d) (visit_entries A k m))"
    by (auto simp: distinct_map entries)
qed

section \<open>The status of the machine ports\<close>

definition balancer_names :: "(string, port_cloud_status) gomap \<Rightarrow> string \<Rightarrow> string list option" where
  "balancer_names statuses u = map_option (\<lambda>e. map pls_Name (pcs_LoadBalancers e)) (map_of statuses u)"

lemma add_port_status_names:
  "balancer_names (add_port_status uid s statuses) u =
     (if u = uid then Some ((case balancer_names statuses uid of None \<Rightarrow> [] | Some ns \<Rightarrow> ns) @ [pls_Name s])
      else balancer_names statuses u)"
  by (simp add: balancer_names_def add_port_status_def Let_def map_of_update entry_or_def
      empty_port_cloud_status_def split: option.split)

lemma ensure_listeners_names:
  assumes "distinct (map (\<lambda>(p, d). dp_UID d) entries)"
  shows "returns (ensure_listeners A spec lb tgs ls entries st0) (\<lambda>st. \<forall>u. balancer_names st u =
    (if u \<in> (\<lambda>(p, d). dp_UID d) ` set entries
     then Some ((case balancer_names st0 u of None \<Rightarrow> [] | Some ns \<Rightarrow> ns) @ [lbs_Name spec])
     else balancer_names st0 u))"
  using assms
proof (induction entries arbitrary: st0)
  case Nil
  then show ?case by (simp add: ensure_listeners_def)
next
  case (Cons e entries)
  obtain p d where e: "e = (p, d)" by (rule prod.exhaust)
  have fresh: "dp_UID d \<notin> (\<lambda>(p, d). dp_UID d) ` set entries" using Cons.prems e by simp
  have run: "ensure_listeners A spec lb tgs ls (e # entries) st0 =
      io_bind (ensureListener A (to_str (lb_Arn lb)) p (to_str (tg_Arn (entry_or zero_target_group tgs p)))
          (entry_or zero_listener ls p)) (\<lambda>arn. ensure_listeners A spec lb tgs ls entries
            (add_port_status (dp_UID d) (port_balancer_status spec lb arn
              (to_str (tg_Arn (entry_or zero_target_group tgs p)))) st0))"
    by (simp add: e ensure_listeners_def Let_def io_bind_assoc)
  show ?case
    unfolding run
  proof (rule returns_bind_any)
    fix arn
    let ?st = "add_port_status (dp_UID d) (port_balancer_status spec lb arn
        (to_str (tg_Arn (entry_or zero_target_group tgs p)))) st0"
    have "returns (ensure_listeners A spec lb tgs ls entries ?st) (\<lambda>st. \<forall>u. balancer_names st u =
        (if u \<in> (\<lambda>(p, d). dp_UID d) ` set entries
         then Some ((case balancer_names ?st u of None \<Rightarrow> [] | Some ns \<Rightarrow> ns) @ [lbs_Name spec])
         else balancer_names ?st u))"
      using Cons.prems by (intro Cons.IH) simp
    then show "returns (ensure_listeners A spec lb tgs ls entries ?st) (\<lambda>st. \<forall>u. balancer_names st u =
        (if u \<in> (\<lambda>(p, d). dp_UID d) ` set (e # entries)
         then Some ((case balancer_names st0 u of None \<Rightarrow> [] | Some ns \<Rightarrow> ns) @ [lbs_Name spec])
         else balancer_names st0 u))"
      by (rule returns_mono) (use fresh in \<open>auto simp: add_port_status_names port_balancer_status_def e\<close>)
  qed
qed

section \<open>The loop over the load balancers\<close>

text \<open>After the load balancers \<open>done\<close>: one status each, and every desired port reported on each of them.\<close>

definition exposed :: "(int, desired_port) gomap \<Rightarrow> lb_exposure_spec list \<Rightarrow> exposure_state \<Rightarrow> bool" where
  "exposed m done st \<longleftrightarrow>
     map (\<lambda>b. (lcs_Name b, lcs_Scope b)) (es_balancers st) = map (\<lambda>b. (lbs_Name b, lbs_Scope b)) done \<and>
     (\<forall>u. balancer_names (es_ports st) u =
        (if done \<noteq> [] \<and> u \<in> desired_uids m then Some (map lbs_Name done) else None))"

lemma returns_Let: "(\<And>x. x = t \<Longrightarrow> returns (f x) Q) \<Longrightarrow> returns (Let t f) Q"
  by (simp add: Let_def)

lemma returns_case_prod: "(\<And>a b. x = (a, b) \<Longrightarrow> returns (f a b) Q) \<Longrightarrow> returns (case x of (a, b) \<Rightarrow> f a b) Q"
  by (cases x) simp

lemma listeners_exposed:
  assumes "desired_ok allocated m" "exposed m done st" "lcs_Name b = lbs_Name spec" "lcs_Scope b = lbs_Scope spec"
  shows "returns (io_bind (ensure_listeners A spec lb tgByPort ls (visit_entries A k m) (es_ports st)) (\<lambda>ports.
      io_then f (io_return \<lparr>es_managed = managed, es_desired = arns, es_ports = ports,
        es_balancers = es_balancers st @ [b]\<rparr>))) (exposed m (done @ [spec]))"
proof (rule returns_bind [OF ensure_listeners_names [OF visit_entries_facts(2) [OF assms(1)]]], rule returns_then)
  fix ports
  assume "\<forall>u. balancer_names ports u = (if u \<in> (\<lambda>(p, d). dp_UID d) ` set (visit_entries A k m)
    then Some ((case balancer_names (es_ports st) u of None \<Rightarrow> [] | Some ns \<Rightarrow> ns) @ [lbs_Name spec])
    else balancer_names (es_ports st) u)"
  moreover have "(\<lambda>(p, d). dp_UID d) ` set (visit_entries A k m) = desired_uids m"
    unfolding visit_entries_facts(1) [OF assms(1)] desired_uids_def ..
  ultimately show "returns (io_return \<lparr>es_managed = managed, es_desired = arns, es_ports = ports,
      es_balancers = es_balancers st @ [b]\<rparr>) (exposed m (done @ [spec]))"
    using assms(2-4) by (simp add: exposed_def)
qed

lemma expose_balancer_exposed:
  assumes "desired_ok allocated m" "exposed m done st"
  shows "returns (expose_balancer A mg placement m spec st) (exposed m (done @ [spec]))"
  unfolding expose_balancer_def
  by (rule returns_Let | rule returns_case_prod | (rule listeners_exposed [OF assms], simp, simp) | rule returns_bind_any)+

lemma expose_loop:
  assumes "desired_ok allocated m"
  shows "returns (io_loop (expose_balancer A mg placement m) lbs
      \<lparr>es_managed = [], es_desired = [], es_ports = [], es_balancers = []\<rparr>) (exposed m lbs)"
  by (rule returns_loop) (simp_all add: exposed_def [of m "[]"] balancer_names_def
    expose_balancer_exposed [OF assms])

lemma finish_port_balancers [simp]:
  "pcs_LoadBalancers (finish_port_status s) = sort_key pls_Name (pcs_LoadBalancers s)"
  by (simp add: finish_port_status_def SetPrimaryLoadBalancerCompat_port_def Let_def split: list.split)

text \<open>What the exposure returns when it succeeds.\<close>

lemma exposure_result:
  assumes "ensureLoadBalancerExposure A mg asgName mps allocated placement lbs w = (Inr (balancers, ports), w')"
    "lbs \<noteq> []"
  shows "mset (map (\<lambda>b. (lcs_Name b, lcs_Scope b)) balancers) = mset (map (\<lambda>b. (lbs_Name b, lbs_Scope b)) lbs)"
    "dom (map_of ports) = served_uids mps allocated"
    "map_of ports u = Some e \<Longrightarrow> mset (map pls_Name (pcs_LoadBalancers e)) = mset (map lbs_Name lbs)"
proof -
  obtain m st w1 where m: "desired_by_port allocated mps [] = Inr m"
    and run: "io_loop (expose_balancer A mg placement m) lbs
      \<lparr>es_managed = [], es_desired = [], es_ports = [], es_balancers = []\<rparr> w = (Inr st, w1)"
    and res: "balancers = sort_key lcs_Name (es_balancers st)"
      "ports = map (\<lambda>(u, s). (u, finish_port_status s)) (es_ports st)"
  proof -
    let ?st0 = "\<lparr>es_managed = [], es_desired = [], es_ports = [], es_balancers = []\<rparr>"
    have ne: "ps_SubnetIDs placement \<noteq> []"
      using assms(1) by (auto simp: ensureLoadBalancerExposure_def io_fail_def)
    obtain m where m: "desired_by_port allocated mps [] = Inr m"
      using assms(1) ne by (cases "desired_by_port allocated mps []")
        (simp_all add: ensureLoadBalancerExposure_def io_fail_def)
    have "io_bind (io_loop (expose_balancer A mg placement m) lbs ?st0) (\<lambda>st.
        io_then (reconcileASGTargetGroups A asgName (sort (dedupeStrings (es_desired st))) (es_managed st))
          (io_return (sort_key lcs_Name (es_balancers st),
             map (\<lambda>(uid, status). (uid, finish_port_status status)) (es_ports st)))) w = (Inr (balancers, ports), w')"
      using assms(1) ne m by (simp add: ensureLoadBalancerExposure_def)
    then obtain st w1 where loop: "io_loop (expose_balancer A mg placement m) lbs ?st0 w = (Inr st, w1)"
      and rest: "io_then (reconcileASGTargetGroups A asgName (sort (dedupeStrings (es_desired st))) (es_managed st))
          (io_return (sort_key lcs_Name (es_balancers st),
             map (\<lambda>(uid, status). (uid, finish_port_status status)) (es_ports st))) w1 = (Inr (balancers, ports), w')"
      unfolding io_bind_Inr by blast
    from rest have "balancers = sort_key lcs_Name (es_balancers st)"
      "ports = map (\<lambda>(u, s). (u, finish_port_status s)) (es_ports st)"
      by (auto simp: io_then_def io_bind_Inr io_return_def)
    with loop m show thesis by (intro that)
  qed
  have st: "exposed m lbs st" by (rule returnsD [OF expose_loop [OF desired_by_port_result(1) [OF m]] run])
  show "mset (map (\<lambda>b. (lcs_Name b, lcs_Scope b)) balancers) = mset (map (\<lambda>b. (lbs_Name b, lbs_Scope b)) lbs)"
  proof -
    have "map (\<lambda>b. (lcs_Name b, lcs_Scope b)) (es_balancers st) = map (\<lambda>b. (lbs_Name b, lbs_Scope b)) lbs"
      using st by (simp add: exposed_def)
    then show ?thesis unfolding res(1) mset_map mset_sort by (metis mset_map)
  qed
  have names: "map_option (\<lambda>e. map pls_Name (pcs_LoadBalancers e)) (map_of (es_ports st) u) =
      (if u \<in> served_uids mps allocated then Some (map lbs_Name lbs) else None)" for u
    using st assms(2) unfolding exposed_def balancer_names_def desired_by_port_result(2) [OF m] by simp
  have none: "map_of ports u = None \<longleftrightarrow> map_of (es_ports st) u = None" for u
    unfolding res(2) by (simp add: map_of_map)
  have "u \<in> dom (map_of ports) \<longleftrightarrow> u \<in> served_uids mps allocated" for u
    using names [of u] none [of u] by (cases "map_of (es_ports st) u") (auto split: if_splits)
  then show "dom (map_of ports) = served_uids mps allocated" by blast
  show "mset (map pls_Name (pcs_LoadBalancers e)) = mset (map lbs_Name lbs)" if "map_of ports u = Some e"
  proof -
    obtain s where s: "map_of (es_ports st) u = Some s" "e = finish_port_status s"
      using \<open>map_of ports u = Some e\<close> unfolding res(2) by (auto simp: map_of_map)
    have "map pls_Name (pcs_LoadBalancers s) = map lbs_Name lbs"
      using names [of u] s(1) by (auto split: if_splits)
    moreover have "mset (map pls_Name (pcs_LoadBalancers e)) = mset (map pls_Name (pcs_LoadBalancers s))"
      unfolding s(2) finish_port_balancers mset_map mset_sort ..
    ultimately show ?thesis by simp
  qed
qed

section \<open>The contract\<close>

lemma aws_Ensure_cases:
  assumes "aws_Ensure A mg mps allocated w = ((s, ports, None), w')"
  obtains (disabled) ltID ltVersion where "NormalizeLoadBalancers (sp_Exposure (mg_Spec mg)) = Inr []" "ports = []"
      "s = empty_cloud_status\<lparr>cs_MachineGroupName := snd (ResolveNames mg), cs_MachineTemplateID := ltID,
        cs_MachineTemplateName := fst (ResolveNames mg), cs_MachineTemplateVer := ltVersion\<rparr>"
  | (exposed) lbs ltID ltVersion placement balancers w1 w2 where
      "NormalizeLoadBalancers (sp_Exposure (mg_Spec mg)) = Inr lbs" "lbs \<noteq> []"
      "ensureLoadBalancerExposure A mg (snd (ResolveNames mg)) mps allocated placement lbs w1 =
         (Inr (balancers, ports), w2)"
      "s = SetPrimaryLoadBalancerCompat_cloud (empty_cloud_status\<lparr>cs_MachineGroupName := snd (ResolveNames mg),
        cs_MachineTemplateID := ltID, cs_MachineTemplateName := fst (ResolveNames mg),
        cs_MachineTemplateVer := ltVersion, cs_LoadBalancers := balancers\<rparr>)"
proof -
  obtain lt asg where names: "ResolveNames mg = (lt, asg)" by (rule prod.exhaust)
  obtain lbs where lbs: "NormalizeLoadBalancers (sp_Exposure (mg_Spec mg)) = Inr lbs"
    using assms names by (cases "NormalizeLoadBalancers (sp_Exposure (mg_Spec mg))") (simp_all add: aws_Ensure_def)
  obtain r w1 where run: "ensure_machines A mg w = (r, w1)" by (rule prod.exhaust)
  obtain placement ltID ltVersion where r: "r = Inr (placement, ltID, ltVersion)"
    using assms names lbs run by (cases r) (auto simp: aws_Ensure_def)
  show thesis
  proof (cases "lbs = []")
    case True
    obtain d w2 where d: "ensureLoadBalancersDeleted A mg w1 = (d, w2)" by (rule prod.exhaust)
    show thesis
      using assms names lbs run r True d by (cases d) (auto simp: aws_Ensure_def Let_def intro: disabled)
  next
    case False
    obtain x w2 where x: "ensureLoadBalancerExposure A mg asg mps allocated placement lbs w1 = (x, w2)"
      by (rule prod.exhaust)
    then obtain balancers ps where xs: "x = Inr (balancers, ps)"
      using assms names lbs run r False by (cases x) (auto simp: aws_Ensure_def Let_def)
    obtain d w3 where d: "ensureStaleLoadBalancersDeleted A mg lbs w2 = (d, w3)" by (rule prod.exhaust)
    have "ports = ps \<and> s = SetPrimaryLoadBalancerCompat_cloud (empty_cloud_status\<lparr>cs_MachineGroupName := asg,
        cs_MachineTemplateID := ltID, cs_MachineTemplateName := lt, cs_MachineTemplateVer := ltVersion,
        cs_LoadBalancers := balancers\<rparr>)"
      using assms names lbs run r False x xs d by (cases d) (auto simp: aws_Ensure_def Let_def)
    then show thesis using exposed [OF lbs False, of placement w1 balancers w2 ltVersion ltID] x xs names by simp
  qed
qed

interpretation aws: cloud_provider "aws_Ensure A" for A :: "'w aws_api"
proof unfold_locales
  fix mg :: machine_group and mps :: "machine_port list" and allocated and w :: 'w and e
  assume "NormalizeLoadBalancers (sp_Exposure (mg_Spec mg)) = Inl e"
  then show "aws_Ensure A mg mps allocated w = ((empty_cloud_status, [], Some e), w)"
    by (simp add: aws_Ensure_def split: prod.split)
next
  fix mg :: machine_group and mps :: "machine_port list" and allocated and w w' :: 'w and s ports
  assume run: "aws_Ensure A mg mps allocated w = ((s, ports, None), w')"
  from run show "(cs_MachineTemplateName s, cs_MachineGroupName s) = ResolveNames mg"
    by (cases rule: aws_Ensure_cases) simp_all
  from run show "SetPrimaryLoadBalancerCompat_cloud s = s"
  proof (cases rule: aws_Ensure_cases)
    case disabled
    then show ?thesis by (simp add: SetPrimaryLoadBalancerCompat_cloud_def empty_cloud_status_def)
  qed simp
  fix lbs assume lbs: "NormalizeLoadBalancers (sp_Exposure (mg_Spec mg)) = Inr lbs"
  from run show "mset (map (\<lambda>b. (lcs_Name b, lcs_Scope b)) (cs_LoadBalancers s)) =
      mset (map (\<lambda>b. (lbs_Name b, lbs_Scope b)) lbs)"
  proof (cases rule: aws_Ensure_cases)
    case disabled
    then show ?thesis using lbs by (simp add: empty_cloud_status_def)
  next
    case (exposed lbs' ltID ltVersion placement balancers w1 w2)
    from exposure_result(1) [OF exposed(3,2)] show ?thesis using exposed(1,4) lbs by simp
  qed
  assume ne: "lbs \<noteq> []"
  from run show "dom (map_of ports) = served_uids mps allocated"
  proof (cases rule: aws_Ensure_cases)
    case (exposed lbs' ltID ltVersion placement balancers w1 w2)
    from exposure_result(2) [OF exposed(3,2)] show ?thesis .
  qed (use lbs ne in simp)
  fix u entry assume entry: "map_of ports u = Some entry"
  from run show "mset (map pls_Name (pcs_LoadBalancers entry)) = mset (map lbs_Name lbs)"
  proof (cases rule: aws_Ensure_cases)
    case (exposed lbs' ltID ltVersion placement balancers w1 w2)
    from exposure_result(3) [OF exposed(3,2) entry] show ?thesis using exposed(1) lbs by simp
  qed (use lbs ne in simp)
qed

end
