(* ===== verification/Aws_Ownership.thy ===== *)
theory Aws_Ownership
  imports Aws_Provider
begin

text \<open>
  Which calls the AWS provider makes. Resources with names are the group's own by their names. The others
  (launch templates and load balancers by ID, listeners and target groups) are the group's own when AWS has
  answered them to a question about a resource that is: the launch template of the group's template name, the
  load balancers of its balancer names or of its status, what is described of those, and what was created
  for the group.
\<close>

section \<open>Results together with invariants\<close>

text \<open>
  \<open>yields I f Q\<close>: \<open>f\<close> keeps the invariant \<open>I\<close>, and its successful results satisfy \<open>Q\<close>, so that the steps after it
  may rely on what it has returned.
\<close>

named_theorems yields_rules \<open>steps that keep an invariant and return what is promised\<close>

definition yields :: "('w \<Rightarrow> bool) \<Rightarrow> ('a, 'w) io \<Rightarrow> ('a \<Rightarrow> bool) \<Rightarrow> bool" where
  "yields I f Q \<longleftrightarrow> keeps I f \<and> returns f Q"

lemma yields_keeps: "yields I f Q \<Longrightarrow> keeps I f"
  by (simp add: yields_def)

lemma keeps_yields: "keeps I f \<Longrightarrow> yields I f (\<lambda>_. True)"
  by (simp add: yields_def)

lemma yields_mono: "yields I f P \<Longrightarrow> (\<And>x. P x \<Longrightarrow> Q x) \<Longrightarrow> yields I f Q"
  by (auto simp: yields_def intro: returns_mono)

lemma yields_return [yields_rules]: "Q x \<Longrightarrow> yields I (io_return x) Q"
  by (simp add: yields_def keeps_rules)

lemma yields_fail [yields_rules]: "yields I (io_fail e) Q"
  by (simp add: yields_def keeps_rules)

lemma yields_if: "(b \<Longrightarrow> yields I f Q) \<Longrightarrow> (\<not> b \<Longrightarrow> yields I g Q) \<Longrightarrow> yields I (if b then f else g) Q"
  by simp

lemma yields_bind:
  assumes "yields I f P" "\<And>x. P x \<Longrightarrow> yields I (g x) Q"
  shows "yields I (io_bind f g) Q"
  unfolding yields_def
proof
  show "keeps I (io_bind f g)"
    unfolding keeps_def
  proof (intro allI impI)
    fix w assume "I w"
    obtain r w' where fw: "f w = (r, w')" by (rule prod.exhaust)
    with assms(1) \<open>I w\<close> have "I w'" by (auto simp: yields_def dest: keepsD)
    then show "I (snd (io_bind f g w))"
      using assms fw by (cases r) (auto simp: io_bind_def yields_def dest: keepsD returnsD)
  qed
  show "returns (io_bind f g) Q" using assms unfolding yields_def by (blast intro: returns_bind)
qed

lemma keeps_uses: "yields I f P \<Longrightarrow> (\<And>x. P x \<Longrightarrow> keeps I (g x)) \<Longrightarrow> keeps I (io_bind f g)"
  using yields_bind [of I f P g "\<lambda>_. True"] by (simp add: yields_def)

lemma yields_then: "keeps I f \<Longrightarrow> yields I g Q \<Longrightarrow> yields I (io_then f g) Q"
  unfolding io_then_def by (rule yields_bind [OF keeps_yields])

lemma yields_wrap: "yields I f Q \<Longrightarrow> yields I (io_wrap what f) Q"
  by (simp add: yields_def keeps_wrap)

lemma yields_loop:
  assumes "Q s" "\<And>x s. x \<in> set xs \<Longrightarrow> Q s \<Longrightarrow> yields I (f x s) Q"
  shows "yields I (io_loop f xs s) Q"
  using assms
proof (induction xs arbitrary: s)
  case (Cons x xs)
  show ?case
    unfolding io_loop.simps
  proof (rule yields_bind)
    show "yields I (f x s) Q" using Cons.prems by simp
  qed (use Cons in simp)
qed (simp add: yields_return)

section \<open>The group's own resources\<close>

text \<open>An answer that a call may give.\<close>

definition may_answer :: "('a, 'w) io \<Rightarrow> 'a \<Rightarrow> bool" where
  "may_answer f x \<longleftrightarrow> (\<exists>w w'. f w = (Inr x, w'))"

definition group_balancers :: "machine_group \<Rightarrow> lb_exposure_spec list" where
  "group_balancers mg = (case NormalizeLoadBalancers (sp_Exposure (mg_Spec mg)) of Inl _ \<Rightarrow> [] | Inr lbs \<Rightarrow> lbs)"

text \<open>The template that AWS answers to the group's template name.\<close>

definition own_template :: "'w aws_api \<Rightarrow> machine_group \<Rightarrow> string option \<Rightarrow> bool" where
  "own_template A mg i \<longleftrightarrow>
     (\<exists>t ts. may_answer (aw_DescribeLaunchTemplates A [fst (ResolveNames mg)]) (t # ts) \<and> i = lt_Id t)"

text \<open>
  The load balancers of the group's status, those that AWS answers to the balancer names of its exposure, and
  those created under these names.
\<close>

definition status_balancers :: "machine_group \<Rightarrow> string set" where
  "status_balancers mg = (let cloud = st_Cloud (mg_Status mg) in
     if cs_LoadBalancers cloud = [] then {cs_FrontendID cloud} else lcs_LoadBalancerID ` set (cs_LoadBalancers cloud))"

definition own_balancer :: "'w aws_api \<Rightarrow> machine_group \<Rightarrow> string \<Rightarrow> bool" where
  "own_balancer A mg arn \<longleftrightarrow> arn \<in> status_balancers mg \<or>
     (\<exists>spec \<in> set (group_balancers mg). \<exists>b bs. arn = to_str (lb_Arn b) \<and>
        (may_answer (aw_DescribeLoadBalancers A [loadBalancerName mg spec]) (b # bs) \<or>
         (\<exists>r. br_Name r = loadBalancerName mg spec \<and> may_answer (aw_CreateLoadBalancer A r) (b # bs))))"

definition own_listener :: "'w aws_api \<Rightarrow> machine_group \<Rightarrow> string \<Rightarrow> bool" where
  "own_listener A mg l \<longleftrightarrow> (\<exists>arn ls. own_balancer A mg arn \<and> may_answer (aw_DescribeListeners A arn) ls \<and>
     Some l \<in> li_Arn ` set ls)"

text \<open>A target group described under an own load balancer, or created for the group.\<close>

definition own_target :: "'w aws_api \<Rightarrow> machine_group \<Rightarrow> target_group \<Rightarrow> bool" where
  "own_target A mg t \<longleftrightarrow>
     (\<exists>arn ts. own_balancer A mg arn \<and> may_answer (aw_DescribeTargetGroups A arn) ts \<and> t \<in> set ts) \<or>
     (\<exists>spec \<in> set (group_balancers mg). \<exists>vpc port ts.
        may_answer (aw_CreateTargetGroup A (target_group_request_for mg spec vpc port)) (t # ts))"

definition own_target_arn :: "'w aws_api \<Rightarrow> machine_group \<Rightarrow> string \<Rightarrow> bool" where
  "own_target_arn A mg arn \<longleftrightarrow> (\<exists>t. own_target A mg t \<and> arn = to_str (tg_Arn t))"

text \<open>A listener that forwards one of the ports to a target group of the group.\<close>

definition own_forward :: "'w aws_api \<Rightarrow> machine_group \<Rightarrow> int set \<Rightarrow> listener_request \<Rightarrow> bool" where
  "own_forward A mg ports r \<longleftrightarrow> (\<exists>port \<in> ports. \<exists>arn. own_target_arn A mg arn \<and> r = listener_request_for port arn)"

text \<open>
  A call the provider may make for a group whose allocated ports are \<open>ports\<close>: every argument that names a
  resource names one of the group's own. The auto scaling group and the launch template are never deleted.
\<close>

fun own_call :: "'w aws_api \<Rightarrow> machine_group \<Rightarrow> int set \<Rightarrow> aws_call \<Rightarrow> bool" where
  "own_call A mg ports (CreateTemplate n d) \<longleftrightarrow> n = fst (ResolveNames mg) \<and> d = buildLaunchTemplateData mg"
| "own_call A mg ports (CreateTemplateVersion r) \<longleftrightarrow> own_template A mg (tv_TemplateId r) \<and> tv_Data r = buildLaunchTemplateData mg"
| "own_call A mg ports (SetDefaultVersion i v) \<longleftrightarrow> own_template A mg i"
| "own_call A mg ports (DeleteTemplate n) \<longleftrightarrow> False"
| "own_call A mg ports (CreateGroup r) \<longleftrightarrow>
     sr_Name r = snd (ResolveNames mg) \<and> sr_TemplateName r = fst (ResolveNames mg) \<and> sizes_ordered r"
| "own_call A mg ports (UpdateGroup r) \<longleftrightarrow>
     sr_Name r = snd (ResolveNames mg) \<and> sr_TemplateName r = fst (ResolveNames mg) \<and> sizes_ordered r"
| "own_call A mg ports (DeleteGroup n b) \<longleftrightarrow> False"
| "own_call A mg ports (AttachTargets n arns) \<longleftrightarrow> n = snd (ResolveNames mg) \<and> list_all (own_target_arn A mg) arns"
| "own_call A mg ports (DetachTargets n arns) \<longleftrightarrow> n = snd (ResolveNames mg) \<and> list_all (own_target_arn A mg) arns"
| "own_call A mg ports (StartRefresh n) \<longleftrightarrow> n = snd (ResolveNames mg)"
| "own_call A mg ports (SetTag n k v) \<longleftrightarrow> n = snd (ResolveNames mg)"
| "own_call A mg ports (CreateBalancer r) \<longleftrightarrow> br_Type r = ''network'' \<and> valid_name (br_Name r) \<and>
     length (br_Name r) \<le> 32 \<and> br_Name r \<in> loadBalancerName mg ` set (group_balancers mg)"
| "own_call A mg ports (DeleteBalancer a) \<longleftrightarrow> own_balancer A mg a"
| "own_call A mg ports (CreateListener a r) \<longleftrightarrow> own_balancer A mg a \<and> own_forward A mg ports r"
| "own_call A mg ports (ModifyListener l r) \<longleftrightarrow> own_listener A mg l \<and> own_forward A mg ports r"
| "own_call A mg ports (DeleteListener l) \<longleftrightarrow> own_listener A mg l"
| "own_call A mg ports (CreateTargetGroup r) \<longleftrightarrow> valid_name (tr_Name r) \<and> length (tr_Name r) \<le> 32 \<and>
     (\<exists>spec \<in> set (group_balancers mg). \<exists>vpc. \<exists>port \<in> ports. r = target_group_request_for mg spec vpc port)"
| "own_call A mg ports (DeleteTargetGroup a) \<longleftrightarrow> (\<exists>t. own_target A mg t \<and> tg_Arn t = Some a)"

section \<open>Answers\<close>

lemma recorded_answers [simp]:
  "returns (unlogged f) Q = returns f Q" "returns (logged_as c f) Q = returns f Q"
  by (auto simp: returns_def unlogged_def logged_as_def split: prod.splits)

lemma returns_answer: "returns f (may_answer f)"
  by (auto simp: returns_def may_answer_def)

lemma describe_answers: "returns f Q \<Longrightarrow> Q [] \<Longrightarrow> returns (describe_step what f) Q"
  by (auto simp: describe_step_def io_catch_def returns_def io_return_def io_fail_def
      split: prod.splits sum.splits if_splits)

lemma yields_described:
  assumes "\<And>xs. may_answer f xs \<Longrightarrow> Q xs" "Q []"
  shows "yields (obeys G) (describe_step what (unlogged f)) Q"
  unfolding yields_def
proof
  show "keeps (obeys G) (describe_step what (unlogged f))" by (intro keeps_rules)
  have "returns f Q" using assms(1) returns_answer by (rule returns_mono [rotated])
  then show "returns (describe_step what (unlogged f)) Q" using assms(2) by (simp add: describe_answers)
qed

lemma keeps_described:
  assumes "\<And>xs. xs = [] \<or> may_answer f xs \<Longrightarrow> keeps (obeys G) (g xs)"
  shows "keeps (obeys G) (io_bind (describe_step what (unlogged f)) g)"
  by (rule keeps_uses [OF yields_described [where Q = "\<lambda>xs. xs = [] \<or> may_answer f xs"]]) (simp_all add: assms)

lemma yields_created: "G c \<Longrightarrow> yields (obeys G) (io_wrap what (logged_as c f)) (may_answer f)"
  by (intro yields_wrap) (simp add: yields_def keeps_logged_as returns_answer)

section \<open>Every call is an own call\<close>

lemma keeps_descriptions [keeps_rules]:
  "keeps (obeys G) (describeLoadBalancerByName (recorded_aws A) name)"
  "keeps (obeys G) (describeListenersByLB (recorded_aws A) arn)"
  "keeps (obeys G) (describeTargetGroupsForLB (recorded_aws A) arn)"
  "keeps (obeys G) (resolvePlacement (recorded_aws A) mg)"
  "keeps (obeys G) (resolveLoadBalancerPlacement (recorded_aws A) mg lb p)"
  unfolding describeLoadBalancerByName_def describeListenersByLB_def describeTargetGroupsForLB_def
    resolvePlacement_def resolveLoadBalancerPlacement_def recorded_aws_simps
  by (intro keeps_rules)+

lemma describe_own_listeners:
  assumes "own_balancer A mg arn"
  shows "yields (obeys G) (describeListenersByLB (recorded_aws A) arn)
    (\<lambda>ls. \<forall>l \<in> set ls. \<forall>a. li_Arn l = Some a \<longrightarrow> own_listener A mg a)"
  unfolding describeListenersByLB_def recorded_aws_simps
  using assms by (auto intro!: yields_rules yields_described simp: own_listener_def image_iff) (metis+)

lemma describe_own_targets:
  assumes "own_balancer A mg arn"
  shows "yields (obeys G) (describeTargetGroupsForLB (recorded_aws A) arn) (\<lambda>ts. \<forall>t \<in> set ts. own_target A mg t)"
  unfolding describeTargetGroupsForLB_def recorded_aws_simps
  using assms by (auto intro!: yields_rules yields_described simp: own_target_def)

lemma describe_own_balancer:
  assumes "spec \<in> set (group_balancers mg)"
  shows "yields (obeys G) (describeLoadBalancerByName (recorded_aws A) (loadBalancerName mg spec))
    (\<lambda>found. \<forall>b. found = Some b \<longrightarrow> own_balancer A mg (to_str (lb_Arn b)))"
  unfolding describeLoadBalancerByName_def recorded_aws_simps
proof (rule yields_bind)
  show "yields (obeys G) (describe_step what (unlogged (aw_DescribeLoadBalancers A [loadBalancerName mg spec])))
      (\<lambda>lbs. \<forall>b bs. lbs = b # bs \<longrightarrow> own_balancer A mg (to_str (lb_Arn b)))" for what
    using assms by (intro yields_described) (auto simp: own_balancer_def)
qed (auto intro: yields_return split: list.split)

text \<open>The calls that take load balancers down.\<close>

fun teardown_call :: "aws_call \<Rightarrow> bool" where
  "teardown_call (DeleteListener a) \<longleftrightarrow> True"
| "teardown_call (DeleteTargetGroup a) \<longleftrightarrow> True"
| "teardown_call (DeleteBalancer a) \<longleftrightarrow> True"
| "teardown_call (DetachTargets n arns) \<longleftrightarrow> True"
| "teardown_call c \<longleftrightarrow> False"

lemma own_arns: "\<forall>t \<in> set ts. own_target A mg t \<Longrightarrow> list_all (own_target_arn A mg) (List.map_filter tg_Arn ts)"
  by (induction ts) (auto simp: map_filter_simps own_target_arn_def split: option.split)

lemma keeps_balancer_deletion:
  assumes G: "\<And>c. own_call A mg {} c \<Longrightarrow> teardown_call c \<Longrightarrow> G c"
  shows "own_balancer A mg arn \<Longrightarrow> keeps (obeys G) (ensureLoadBalancerDeletedByARN (recorded_aws A) mg arn)"
    "keeps (obeys G) (ensureLoadBalancersDeleted (recorded_aws A) mg)"
    "keeps (obeys G) (ensureStaleLoadBalancersDeleted (recorded_aws A) mg lbs)"
proof -
  let ?I = "obeys G"
  have one: "keeps ?I (ensureLoadBalancerDeletedByARN (recorded_aws A) mg arn)" if own: "own_balancer A mg arn" for arn
    unfolding ensureLoadBalancerDeletedByARN_def recorded_aws_simps
  proof (rule keeps_if [OF keeps_return], rule keeps_uses [OF describe_own_listeners [OF own]], rule keeps_then,
      goal_cases listeners rest)
    case (listeners ls)
    then show ?case by (intro keeps_rules) (simp add: G)
  next
    case (rest ls)
    show ?case
    proof (rule keeps_uses [OF describe_own_targets [OF own]], goal_cases targets)
      case (targets ts)
      from targets(1) own_arns [OF targets(1)] show ?case
        by (intro keeps_rules) (auto intro!: G simp: own, blast)
    qed
  qed
  then show "own_balancer A mg arn \<Longrightarrow> keeps ?I (ensureLoadBalancerDeletedByARN (recorded_aws A) mg arn)" .
  have listed: "own_balancer A mg (lcs_LoadBalancerID b)" if "b \<in> set (cs_LoadBalancers (st_Cloud (mg_Status mg)))" for b
    using that by (auto simp: own_balancer_def status_balancers_def Let_def)
  have frontend: "own_balancer A mg (cs_FrontendID (st_Cloud (mg_Status mg)))" if "cs_LoadBalancers (st_Cloud (mg_Status mg)) = []"
    using that by (simp add: own_balancer_def status_balancers_def)
  have named: "keeps ?I (ensureLoadBalancerDeletedByName (recorded_aws A) mg spec)" if "spec \<in> set (group_balancers mg)" for spec
    unfolding ensureLoadBalancerDeletedByName_def
    by (rule keeps_uses [OF describe_own_balancer [OF that]]) (auto intro!: keeps_rules one)
  have "keeps ?I (io_each (ensureLoadBalancerDeletedByName (recorded_aws A) mg) (group_balancers mg))"
    by (intro keeps_rules named)
  then show "keeps ?I (ensureLoadBalancersDeleted (recorded_aws A) mg)"
    unfolding ensureLoadBalancersDeleted_def Let_def
    by (cases "NormalizeLoadBalancers (sp_Exposure (mg_Spec mg))")
      (auto simp: group_balancers_def intro!: keeps_rules one listed frontend)
  show "keeps ?I (ensureStaleLoadBalancersDeleted (recorded_aws A) mg lbs)"
    unfolding ensureStaleLoadBalancersDeleted_def Let_def
    by (auto intro!: keeps_rules one listed frontend)
qed

lemma resource_name_32: "valid_name (awsResourceName raw 32)" "length (awsResourceName raw 32) \<le> 32"
  using resource_name [of 32 raw] by simp_all

lemma balancer_names_valid:
  "valid_name (loadBalancerName mg lb)" "length (loadBalancerName mg lb) \<le> 32"
  "valid_name (targetGroupName mg lb port)" "length (targetGroupName mg lb port) \<le> 32"
  by (simp_all add: loadBalancerName_def targetGroupName_def Let_def resource_name_32)

lemma keeps_template:
  "keeps (obeys (own_call A mg ports)) (ensureLaunchTemplate (recorded_aws A) mg (fst (ResolveNames mg)))"
  unfolding ensureLaunchTemplate_def io_ignore_def recorded_aws_simps Let_def
proof (intro keeps_if keeps_fail, rule keeps_described, goal_cases)
  case (1 ts)
  then have "own_template A mg (lt_Id t)" if "ts = t # rest" for t rest
    using that by (auto simp: own_template_def)
  then show ?case by (intro keeps_rules) simp_all
qed

lemma keeps_machines: "keeps (obeys (own_call A mg ports)) (ensure_machines (recorded_aws A) mg)"
proof -
  obtain lt asg where names: "ResolveNames mg = (lt, asg)" by (rule prod.exhaust)
  let ?I = "obeys (own_call A mg ports)"
  have tag: "keeps ?I (setASGTag (recorded_aws A) asg k v)" for k v
    unfolding setASGTag_def recorded_aws_simps by (intro keeps_rules) (simp add: names)
  have "keeps ?I (ensureImageRollingRefresh (recorded_aws A) asg g h)" for g h
    unfolding ensureImageRollingRefresh_def hasActiveInstanceRefresh_def recorded_aws_simps
    by (intro keeps_rules tag) (simp_all add: names)
  then have "keeps ?I (ensureAutoScalingGroup (recorded_aws A) mg asg lt v h p)" for v h p
    unfolding ensureAutoScalingGroup_def recorded_aws_simps
    by (intro keeps_rules tag) (simp_all add: scaling_request_fields names)
  moreover have "keeps ?I (ensureLaunchTemplate (recorded_aws A) mg lt)"
    using keeps_template [of A mg ports] by (simp add: names)
  ultimately show ?thesis
    unfolding ensure_machines_def names by (intro keeps_rules) auto
qed

text \<open>One load balancer: what it describes and creates is the group's own.\<close>

lemma ensure_own_balancer:
  assumes "spec \<in> set (group_balancers mg)"
  shows "yields (obeys (own_call A mg ports)) (ensureNetworkLoadBalancer (recorded_aws A) mg spec p)
    (\<lambda>lb. own_balancer A mg (to_str (lb_Arn lb)))"
proof -
  have made: "own_balancer A mg (to_str (lb_Arn b))"
    if "may_answer (aw_CreateLoadBalancer A r) (b # bs)" "br_Name r = loadBalancerName mg spec" for r b bs
    using assms that by (auto simp: own_balancer_def)
  show ?thesis
    unfolding ensureNetworkLoadBalancer_def recorded_aws_simps Let_def
  proof (rule yields_bind [OF describe_own_balancer [OF assms]], goal_cases)
    case (1 found)
    then show ?case
    proof (cases found)
      case None
      show ?thesis
        unfolding None option.case
        by (rule yields_bind [OF yields_created]) (auto intro!: yields_rules dest: made simp: balancer_names_valid assms split: list.split)
    qed (auto intro!: yields_rules)
  qed
qed

definition own_groups :: "'w aws_api \<Rightarrow> machine_group \<Rightarrow> (int, target_group) gomap \<times> string list \<Rightarrow> bool" where
  "own_groups A mg z \<longleftrightarrow> (\<forall>p t. map_of (fst z) p = Some t \<longrightarrow> own_target A mg t) \<and> list_all (own_target_arn A mg) (snd z)"

lemma index_own_groups:
  "\<forall>t \<in> set tgs. own_target A mg t \<Longrightarrow> own_groups A mg (m, managed) \<Longrightarrow> own_groups A mg (index_target_groups tgs m managed)"
proof (induction tgs arbitrary: m managed)
  case (Cons t tgs)
  have "own_groups A mg (AList.update p t m, to_str (tg_Arn t) # managed)" for p
    using Cons.prems by (auto simp: own_groups_def map_of_update own_target_arn_def)
  then show ?case using Cons by (simp split: option.split)
qed simp

lemma create_own_groups:
  assumes "spec \<in> set (group_balancers mg)" "\<And>p. p \<in> set visited \<Longrightarrow> p \<in> ports" "own_groups A mg z" "D \<subseteq> dom (map_of (fst z))"
  shows "yields (obeys (own_call A mg ports)) (create_target_groups (recorded_aws A) mg spec vpc visited z)
    (\<lambda>z'. own_groups A mg z' \<and> D \<union> set visited \<subseteq> dom (map_of (fst z')))"
  using assms(2-)
proof (induction visited arbitrary: z D)
  case Nil
  then show ?case by (simp add: create_target_groups_def yields_return)
next
  case (Cons p ps)
  obtain m managed where z: "z = (m, managed)" by (rule prod.exhaust)
  let ?Q = "\<lambda>z'. own_groups A mg z' \<and> insert p D \<subseteq> dom (map_of (fst z'))"
  have own: "own_groups A mg (AList.update p t m, to_str (tg_Arn t) # managed)" if "own_target A mg t" for t
    using Cons.prems(2) that unfolding z by (auto simp: own_groups_def map_of_update own_target_arn_def)
  have made: "own_target A mg t"
    if "may_answer (aw_CreateTargetGroup A (target_group_request_for mg spec vpc p)) (t # ts)" for t ts
    using assms(1) that by (auto simp: own_target_def)
  have request: "own_call A mg ports (CreateTargetGroup (target_group_request_for mg spec vpc p))"
    using assms(1) Cons.prems(1) by (auto simp: target_group_request_for_def balancer_names_valid)
  have step: "yields (obeys (own_call A mg ports)) (if map_of m p \<noteq> None then io_return (m, managed)
      else io_bind (createTargetGroup (recorded_aws A) mg spec vpc p)
        (\<lambda>t. io_return (AList.update p t m, to_str (tg_Arn t) # managed))) ?Q"
    unfolding createTargetGroup_def recorded_aws_simps io_bind_assoc
  proof (rule yields_if; (rule yields_return)?)
    show "yields (obeys (own_call A mg ports)) (io_bind (io_wrap what (logged_as (CreateTargetGroup (target_group_request_for mg spec vpc p))
          (aw_CreateTargetGroup A (target_group_request_for mg spec vpc p))))
        (\<lambda>tgs. io_bind (case tgs of [] \<Rightarrow> io_fail e | t # _ \<Rightarrow> io_return t)
          (\<lambda>t. io_return (AList.update p t m, to_str (tg_Arn t) # managed)))) ?Q" for what e
      by (rule yields_bind [OF yields_created [of "own_call A mg ports", OF request]])
        (use Cons.prems(3) z in \<open>auto intro!: yields_rules own simp: map_of_update dest: made split: list.split\<close>)
  qed (use Cons.prems(2,3) z in auto)
  have rest: "yields (obeys (own_call A mg ports)) (create_target_groups (recorded_aws A) mg spec vpc ps z')
      (\<lambda>z'. own_groups A mg z' \<and> D \<union> set (p # ps) \<subseteq> dom (map_of (fst z')))" if "?Q z'" for z'
    using Cons.IH [of z' "insert p D"] Cons.prems(1) that by simp
  show ?case
    unfolding create_target_groups_def io_loop.simps
    unfolding create_target_groups_def [symmetric] z prod.case
    by (rule yields_bind [OF step rest])
qed

text \<open>Listeners forward desired ports of an own load balancer to own target groups.\<close>

lemma own_groups_arn: "own_groups A mg z \<Longrightarrow> p \<in> dom (map_of (fst z)) \<Longrightarrow>
    own_target_arn A mg (to_str (tg_Arn (entry_or zero_target_group (fst z) p)))"
  unfolding own_groups_def own_target_arn_def entry_or_def by fastforce

lemma index_listeners_in:
  "map_of (index_listeners ls m) p = Some l \<Longrightarrow> l \<in> set ls \<or> map_of m p = Some l"
proof (induction ls arbitrary: m)
  case (Cons k ls)
  show ?case
  proof (cases "li_Port k")
    case (Some q)
    with Cons.prems have "map_of (index_listeners ls (AList.update q k m)) p = Some l" by simp
    from Cons.IH [OF this] show ?thesis by (auto simp: map_of_update split: if_splits)
  qed (use Cons in auto)
qed simp

lemma keeps_own_listeners:
  assumes "own_balancer A mg (to_str (lb_Arn lb))" "\<And>e. e \<in> set entries \<Longrightarrow> fst e \<in> ports"
    "own_groups A mg z" "\<And>e. e \<in> set entries \<Longrightarrow> fst e \<in> dom (map_of (fst z))"
    "\<forall>l \<in> set ls. \<forall>a. li_Arn l = Some a \<longrightarrow> own_listener A mg a"
  shows "keeps (obeys (own_call A mg ports))
    (ensure_listeners (recorded_aws A) spec lb (fst z) (index_listeners ls []) entries statuses)"
proof -
  have known: "own_listener A mg a" if "li_Arn (entry_or zero_listener (index_listeners ls []) p) = Some a" for p a
    using that assms(5) index_listeners_in [of ls "[]" p]
    by (auto simp: entry_or_def zero_listener_def split: option.splits)
  have "keeps (obeys (own_call A mg ports)) (ensureListener (recorded_aws A) (to_str (lb_Arn lb)) p
      (to_str (tg_Arn (entry_or zero_target_group (fst z) p))) (entry_or zero_listener (index_listeners ls []) p))"
    if "(p, d) \<in> set entries" for p d
  proof -
    have "own_forward A mg ports (listener_request_for p (to_str (tg_Arn (entry_or zero_target_group (fst z) p))))"
      using assms(2,4) [OF that] own_groups_arn [OF assms(3)] unfolding own_forward_def by fastforce
    then show ?thesis
      unfolding ensureListener_def recorded_aws_simps by (intro keeps_rules) (simp_all add: assms(1) known)
  qed
  then show ?thesis
    unfolding ensure_listeners_def by (auto intro!: keeps_rules)
qed

lemma keeps_unwanted:
  assumes "\<forall>l \<in> set ls. \<forall>a. li_Arn l = Some a \<longrightarrow> own_listener A mg a" "\<forall>t \<in> set tgs. own_target A mg t"
  shows "keeps (obeys (own_call A mg ports)) (delete_unwanted (recorded_aws A) wanted ls tgs)"
  unfolding delete_unwanted_def recorded_aws_simps using assms by (intro keeps_rules) auto

definition own_state :: "'w aws_api \<Rightarrow> machine_group \<Rightarrow> exposure_state \<Rightarrow> bool" where
  "own_state A mg st \<longleftrightarrow> list_all (own_target_arn A mg) (es_managed st) \<and> list_all (own_target_arn A mg) (es_desired st)"

lemma expose_own_balancer:
  assumes "desired_ok allocated m" "\<And>p d. (p, d) \<in> set m \<Longrightarrow> p \<in> ports" "spec \<in> set (group_balancers mg)" "own_state A mg st"
  shows "yields (obeys (own_call A mg ports)) (expose_balancer (recorded_aws A) mg placement m spec st) (own_state A mg)"
  unfolding expose_balancer_def Let_def
proof (rule yields_bind [OF keeps_yields], rule keeps_descriptions, rule yields_bind [OF ensure_own_balancer [OF assms(3)]],
    rule yields_bind [OF describe_own_targets], assumption, goal_cases body)
  case (body lbPlacement lb tgs)
  let ?loop = "3 * length (es_balancers st)"
  have visited: "set (visit (recorded_aws A) k m) = fst ` set m" "set (visit A k m) = fst ` set m" for k
    by (simp_all add: visit_def)
  have entries: "set (visit_entries (recorded_aws A) k m) = set m" for k by (rule visit_entries_facts(1) [OF assms(1)])
  have index: "own_groups A mg (index_target_groups tgs [] (es_managed st))"
    using body(3) assms(4) by (intro index_own_groups) (simp_all add: own_groups_def own_state_def)
  have ports: "p \<in> set (visit (recorded_aws A) k m) \<Longrightarrow> p \<in> ports" for p k
    using assms(2) by (auto simp: visit_def)
  show ?case
  proof (rule yields_bind [OF create_own_groups [where D = "{}", OF assms(3) ports index]], assumption, simp, goal_cases created)
    case (created z)
    obtain tgByPort managed where z: "z = (tgByPort, managed)" by (rule prod.exhaust)
    have covered: "p \<in> dom (map_of (fst z))" if "p \<in> fst ` set m" for p using created that visited by auto
    show ?case
      unfolding z prod.case
    proof (rule yields_bind [OF describe_own_listeners [OF body(2)]], goal_cases listeners)
      case (listeners ls)
      have "keeps (obeys (own_call A mg ports)) (ensure_listeners (recorded_aws A) spec lb tgByPort (index_listeners ls [])
          (visit_entries (recorded_aws A) k m) statuses)" for k statuses
      proof -
        have "fst e \<in> ports" "fst e \<in> dom (map_of (fst z))" if "e \<in> set (visit_entries (recorded_aws A) k m)" for e
          using that assms(2) [of "fst e" "snd e"] covered [of "fst e"] unfolding entries by simp_all
        moreover have "own_groups A mg z" using created by simp
        ultimately show ?thesis
          using keeps_own_listeners [OF body(2), of "visit_entries (recorded_aws A) k m" ports z ls] listeners
          unfolding z fst_conv by blast
      qed
      moreover have "own_state A mg \<lparr>es_managed = managed, es_desired = es_desired st @
          map (\<lambda>p. to_str (tg_Arn (entry_or zero_target_group tgByPort p))) (visit (recorded_aws A) k m),
          es_ports = ports', es_balancers = bs\<rparr>" for k ports' bs
      proof -
        have "own_target_arn A mg (to_str (tg_Arn (entry_or zero_target_group (fst z) p)))" if "p \<in> fst ` set m" for p
          using created own_groups_arn covered [OF that] by blast
        then show ?thesis
          using created assms(4) unfolding own_state_def own_groups_def list_all_iff z by (simp add: visited ball_Un)
      qed
      ultimately show ?case
        by (intro yields_bind [OF keeps_yields] yields_then yields_return keeps_unwanted listeners body(3)) auto
    qed
  qed
qed

lemma keeps_attachments:
  assumes "list_all (own_target_arn A mg) desired" "list_all (own_target_arn A mg) managed"
  shows "keeps (obeys (own_call A mg ports)) (reconcileASGTargetGroups (recorded_aws A) (snd (ResolveNames mg)) desired managed)"
  unfolding reconcileASGTargetGroups_def recorded_aws_simps
  using assms by (intro keeps_rules) (auto simp: list_all_iff)

definition allocated_ports :: "machine_port list \<Rightarrow> (string, int) gomap \<Rightarrow> int set" where
  "allocated_ports mps allocated =
     {p. \<exists>mp \<in> set mps. map_of allocated (mp_uid mp) = Some p \<and> 0 < p}"

lemma desired_port_allocated:
  assumes "desired_by_port allocated mps [] = Inr m" "(p, d) \<in> set m"
  shows "p \<in> allocated_ports mps allocated"
proof -
  have "dp_UID d \<in> served_uids mps allocated"
    using desired_by_port_result(2) [OF assms(1)] assms(2) by (force simp: desired_uids_def)
  moreover have "map_of allocated (dp_UID d) = Some p"
    using desired_by_port_result(1) [OF assms(1)] assms(2) unfolding desired_ok_def by blast
  ultimately show ?thesis by (auto simp: served_uids_def allocated_ports_def)
qed

lemma keeps_ensureExposure:
  assumes "NormalizeLoadBalancers (sp_Exposure (mg_Spec mg)) = Inr lbs"
  shows "keeps (obeys (own_call A mg (allocated_ports mps allocated)))
    (ensureLoadBalancerExposure (recorded_aws A) mg (snd (ResolveNames mg)) mps allocated placement lbs)"
proof (cases "desired_by_port allocated mps []")
  case (Inl e)
  then show ?thesis unfolding ensureLoadBalancerExposure_def by (auto intro!: keeps_rules)
next
  case (Inr m)
  let ?I = "obeys (own_call A mg (allocated_ports mps allocated))"
  let ?st0 = "\<lparr>es_managed = [], es_desired = [], es_ports = [], es_balancers = []\<rparr>"
  have "yields ?I (io_loop (expose_balancer (recorded_aws A) mg placement m) lbs ?st0) (own_state A mg)"
  proof (rule yields_loop)
    fix spec st assume "spec \<in> set lbs" "own_state A mg st"
    then show "yields ?I (expose_balancer (recorded_aws A) mg placement m spec st) (own_state A mg)"
      using assms by (intro expose_own_balancer [OF desired_by_port_result(1) [OF Inr]] desired_port_allocated [OF Inr])
        (simp_all add: group_balancers_def)
  qed (simp add: own_state_def)
  moreover have "list_all (own_target_arn A mg) (sort (dedupeStrings xs))" if "list_all (own_target_arn A mg) xs" for xs
    using that dedupe_on_subset [of "\<lambda>v. v" "[]" xs] by (auto simp: list_all_iff dedupeStrings_def)
  ultimately show ?thesis
    unfolding ensureLoadBalancerExposure_def Inr io_lift_simps io_bind_return
    by (intro keeps_if keeps_fail) (erule keeps_uses, auto intro!: keeps_rules keeps_attachments simp: own_state_def)
qed

lemma own_teardown: "own_call A mg {} c \<Longrightarrow> teardown_call c \<Longrightarrow> own_call A mg ports c"
  by (cases c) simp_all

lemma Ensure_obeys:
  assumes "aws_Ensure (recorded_aws A) mg mps allocated wl = (res, wl')"
    "obeys (own_call A mg (allocated_ports mps allocated)) wl"
  shows "obeys (own_call A mg (allocated_ports mps allocated)) wl'"
proof -
  let ?I = "obeys (own_call A mg (allocated_ports mps allocated))"
  obtain lt asg where names: "ResolveNames mg = (lt, asg)" by (rule prod.exhaust)
  have deletion: "keeps ?I (ensureLoadBalancersDeleted (recorded_aws A) mg)"
    "keeps ?I (ensureStaleLoadBalancersDeleted (recorded_aws A) mg lbs)" for lbs
    by (rule keeps_balancer_deletion; simp add: own_teardown)+
  show ?thesis
  proof (cases "NormalizeLoadBalancers (sp_Exposure (mg_Spec mg))")
    case (Inl e)
    then show ?thesis using assms names by (simp add: aws_Ensure_def)
  next
    case (Inr lbs)
    obtain r w1 where run: "ensure_machines (recorded_aws A) mg wl = (r, w1)" by (rule prod.exhaust)
    from keepsD [OF keeps_machines assms(2)] have I1: "?I w1" by (metis run snd_conv)
    obtain d w2 where d: "ensureLoadBalancersDeleted (recorded_aws A) mg w1 = (d, w2)" by (rule prod.exhaust)
    from keepsD [OF deletion(1) I1] have I2: "?I w2" by (metis d snd_conv)
    show ?thesis
    proof (cases r)
      case (Inl e)
      then have "wl' = w1" using assms(1) names \<open>NormalizeLoadBalancers _ = Inr lbs\<close> run by (simp add: aws_Ensure_def)
      then show ?thesis using I1 by simp
    next
      case r: (Inr x)
      obtain p i v where x: "x = (p, i, v)" by (rule prod_cases3)
      obtain y w3 where ex: "ensureLoadBalancerExposure (recorded_aws A) mg asg mps allocated p lbs w1 = (y, w3)"
        by (rule prod.exhaust)
      from keepsD [OF keeps_ensureExposure [OF \<open>NormalizeLoadBalancers _ = Inr lbs\<close>] I1] have I3: "?I w3" by (metis ex names snd_conv)
      obtain z w4 where st: "ensureStaleLoadBalancersDeleted (recorded_aws A) mg lbs w3 = (z, w4)" by (rule prod.exhaust)
      from keepsD [OF deletion(2) I3] have I4: "?I w4" by (metis st snd_conv)
      have "wl' \<in> {w2, w3, w4}"
        using assms(1) names \<open>NormalizeLoadBalancers _ = Inr lbs\<close> run r x d ex st
        by (cases "lbs = []"; cases d; cases y; cases z) (auto simp: aws_Ensure_def Let_def)
      then show ?thesis using I2 I3 I4 by auto
    qed
  qed
qed

end
