(* ===== verification/Aws_Properties.thy ===== *)
theory Aws_Properties
  imports Aws_Ownership
begin

text \<open>
  The properties of the AWS provider. Their witnesses run it on an account (\<open>sample_aws\<close>) whose calls all
  succeed and which has an auto scaling group and nothing else.
\<close>

section \<open>A run in which every call succeeds\<close>

definition sample_placement :: placement where
  "sample_placement = empty_placement\<lparr>ps_SubnetIDs := [''subnet-1''], ps_VPCID := ''vpc-1'', ps_Zones := [''az-1'']\<rparr>"

lemma sample_placed:
  assumes "aw_DescribeSubnets A [''subnet-1''] = io_return [\<lparr>sn_SubnetId = Some ''subnet-1'',
      sn_VpcId = Some ''vpc-1'', sn_AvailabilityZone = Some ''az-1''\<rparr>]"
    "sp_Network (mg_Spec mg) = sp_Network sample_spec" "sp_Placement (mg_Spec mg) = sp_Placement sample_spec"
  shows "resolvePlacement A mg = io_return sample_placement"
proof -
  have "selectPlacementSubnets [''subnet-1''] [\<lparr>sn_SubnetId = Some ''subnet-1'', sn_VpcId = Some ''vpc-1'',
       sn_AvailabilityZone = Some ''az-1''\<rparr>] [] = Inr sample_placement"
    "availabilityZoneDistributionForSpreadPolicy [] = Inr None" by code_simp+
  then show ?thesis
    using assms by (simp add: resolvePlacement_def sample_spec_def sample_placement_def empty_placement_def)
qed

lemma sample_template:  "ensureLaunchTemplate (sample_aws g) sample_mg n = io_return (''lt-1'', show_int 1)"
  by (simp add: ensureLaunchTemplate_def sample_group)

lemma sample_refreshed:  "ensureImageRollingRefresh (sample_aws g) a sample_asg h = io_return ()"
  by (simp add: ensureImageRollingRefresh_def hasActiveInstanceRefresh_def  setASGTag_def Let_def)

lemma sample_scaled: "ensureAutoScalingGroup (sample_aws sample_asg) mg a b c d sample_placement = io_return ()"
  by (simp add: ensureAutoScalingGroup_def sample_refreshed sample_placement_def Let_def)

lemma sample_balancer: "\<exists>y. ensureNetworkLoadBalancer (sample_aws g) mg lb p = io_return y"
  by (simp add: ensureNetworkLoadBalancer_def describeLoadBalancerByName_def Let_def)

lemma sample_desired: "desired_by_port sample_allocation sample_ports [] = Inr [(10000, \<lparr>dp_UID = ''p1'', dp_Port = 10000, dp_Protocol = ''TCP''\<rparr>),
  (10001, \<lparr>dp_UID = ''p2'', dp_Port = 10001, dp_Protocol = ''TCP''\<rparr>)]"
  by code_simp

lemma sample_tgs: "\<exists>y. create_target_groups (sample_aws g) mg spec v ports z = io_return y"
  unfolding create_target_groups_def
  by (rule io_loop_return) (simp add: createTargetGroup_def split: prod.split)

lemma sample_listeners: "\<exists>y. ensure_listeners (sample_aws g) spec lb tgs (index_listeners [] []) entries z = io_return y"
  unfolding ensure_listeners_def
  by (rule io_loop_return) (simp add: ensureListener_def entry_or_def zero_listener_def Let_def split: prod.split)

lemma sample_exposed:
  assumes "lbs_SubnetIDs spec = []"
  shows "\<exists>y. expose_balancer (sample_aws g :: 'w aws_api) mg p m spec st = io_return y"
proof -
  let ?A = "sample_aws g :: 'w aws_api"
  obtain lb where lb: "ensureNetworkLoadBalancer ?A mg spec p = io_return lb" using sample_balancer by blast
  obtain tgs where tgs: "create_target_groups ?A mg spec (ps_VPCID p) (visit ?A (3 * length (es_balancers st) + 0) m)
      ([], es_managed st) = io_return tgs" using sample_tgs by blast
  obtain ls where ls: "ensure_listeners ?A spec lb (fst tgs) [] (visit_entries ?A (3 * length (es_balancers st) + 2) m)
      (es_ports st) = io_return ls" using sample_listeners by force
  show ?thesis using assms lb tgs ls
    by (cases tgs) (simp add: expose_balancer_def resolveLoadBalancerPlacement_def describeTargetGroupsForLB_def
      describeListenersByLB_def delete_unwanted_def Let_def)
qed

lemma sample_normalized: "NormalizeLoadBalancers (sp_Exposure (mg_Spec sample_mg)) = Inr [\<lparr>lbs_Name = ''internal'', lbs_Scope = ''internal'',
   lbs_LoadBalancerName = [], lbs_SubnetIDs = []\<rparr>]"
  by code_simp

lemma sample_reconciled: "reconcileASGTargetGroups (sample_aws g) a d m = io_return ()"
  by (simp add: reconcileASGTargetGroups_def Let_def io_when_def)

lemma sample_Ensure: "\<exists>s ports. aws_Ensure (sample_aws sample_asg) sample_mg sample_ports sample_allocation () = ((s, ports, None), ())"
proof -
  let ?A = "sample_aws sample_asg :: unit aws_api"
  let ?lb = "\<lparr>lbs_Name = ''internal'', lbs_Scope = ''internal'', lbs_LoadBalancerName = [], lbs_SubnetIDs = []\<rparr>"
  obtain lt asg where names: "ResolveNames sample_mg = (lt, asg)" by (rule prod.exhaust)
  obtain y where "expose_balancer ?A sample_mg sample_placement [(10000, \<lparr>dp_UID = ''p1'', dp_Port = 10000, dp_Protocol = ''TCP''\<rparr>),
      (10001, \<lparr>dp_UID = ''p2'', dp_Port = 10001, dp_Protocol = ''TCP''\<rparr>)] ?lb \<lparr>es_managed = [], es_desired = [], es_ports = [], es_balancers = []\<rparr> = io_return y"
    using sample_exposed [of ?lb] by fastforce
  then have "\<exists>x. ensureLoadBalancerExposure ?A sample_mg asg sample_ports sample_allocation sample_placement [?lb] =
      io_return x"
    by (simp add: ensureLoadBalancerExposure_def sample_desired sample_reconciled) (simp add: sample_placement_def)
  then obtain bs ps where ex: "ensureLoadBalancerExposure ?A sample_mg asg sample_ports sample_allocation sample_placement [?lb] =
      io_return (bs, ps)" by auto
  have "resolvePlacement ?A sample_mg = io_return sample_placement"
    by (rule sample_placed) (simp_all add: sample_mg_def)
  then have "ensure_machines ?A sample_mg = io_return (sample_placement, ''lt-1'', show_int 1)"
    by (simp add: ensure_machines_def names sample_template sample_scaled)
  moreover have "ensureStaleLoadBalancersDeleted ?A sample_mg [?lb] = io_return ()"
    by (simp add: ensureStaleLoadBalancersDeleted_def sample_group empty_cloud_status_def)
  ultimately show ?thesis
    by (simp add: aws_Ensure_def names sample_normalized ex io_return_def)
qed

section \<open>EnsureMachineGroup\<close>

text \<open>
  C10: When the AWS provider succeeds, for any answers of AWS and any order of the map iterations, it
  reports one load balancer per normalised one under the group's resolved names, and every machine port
  with a positive port on each of them.
\<close>

theorem aws_Ensure_serves:
  assumes "aws_Ensure A mg mps allocated w = ((s, ports, None), w')"
    "NormalizeLoadBalancers (sp_Exposure (mg_Spec mg)) = Inr lbs" "lbs \<noteq> []"
    "mp \<in> set mps" "map_of allocated (mp_uid mp) = Some p" "0 < p"
  shows "length (cs_LoadBalancers s) = length lbs \<and>
    (cs_MachineTemplateName s, cs_MachineGroupName s) = ResolveNames mg \<and>
    (\<exists>entry. map_of ports (mp_uid mp) = Some entry \<and>
       pls_Name ` set (pcs_LoadBalancers entry) = lbs_Name ` set lbs)"
proof -
  from aws.reported [OF assms] obtain entry where "map_of ports (mp_uid mp) = Some entry"
    "pls_Name ` set (pcs_LoadBalancers entry) = lbs_Name ` set lbs" .
  with aws.balancer_count [OF assms(1,2)] aws.names [OF assms(1)] show ?thesis by blast
qed

theorem aws_Ensure_serves_witness:
  "\<exists>s ports entry. aws_Ensure (sample_aws sample_asg) sample_mg sample_ports sample_allocation () = ((s, ports, None), ()) \<and>
     map_of ports ''p1'' = Some entry \<and> pls_Name ` set (pcs_LoadBalancers entry) = {''internal''}"
proof -
  obtain s ports where run: "aws_Ensure (sample_aws sample_asg) sample_mg sample_ports sample_allocation () = ((s, ports, None), ())"
    using sample_Ensure by blast
  have "sample_port ''p1'' ''a'' \<in> set sample_ports" "map_of sample_allocation (mp_uid (sample_port ''p1'' ''a'')) = Some 10000"
    by (simp_all add: sample_group)
  from aws_Ensure_serves [OF run sample_normalized _ this] run show ?thesis
    by (simp add: sample_port_def sample_meta_def)
qed

text \<open>
  C11: Whatever AWS answers, every changing call of EnsureMachineGroup is on the group's own resources: its auto
  scaling group and launch template by name, with ordered sizes; the template that AWS answers to this name by
  ID; load balancers of its status or of its balancer names; listeners and target groups that were described
  under one of these load balancers or created for the group; forwarding allocated ports of its machine ports
  to such target groups. Created names are ones AWS accepts. The auto scaling group and the launch template are
  never deleted. Recording the calls does not change the result.
\<close>

theorem aws_Ensure_own_calls:
  assumes "aws_Ensure (recorded_aws A) mg mps allocated (w, []) = (res, (w', log))"
  shows "list_all (own_call A mg (allocated_ports mps allocated)) log \<and> aws_Ensure A mg mps allocated w = (res, w')"
proof -
  have "obeys (own_call A mg (allocated_ports mps allocated)) (w', log)"
    by (rule Ensure_obeys [OF assms]) (simp add: obeys_def)
  with Ensure_recorded [OF assms] show ?thesis by (simp add: obeys_def)
qed

text \<open>A group without load balancers and without an image of its own: one creation and one update.\<close>

definition plain_group :: machine_group where
  "plain_group = sample_mg\<lparr>mg_Spec := sample_spec\<lparr>sp_Exposure := \<lparr>ex_LoadBalancers = Some []\<rparr>\<rparr>\<rparr>"

lemma plain_names: "ResolveNames plain_group = (''ns-g-lt'', ''ns-g-asg'')"
  by (simp add: plain_group_def sample_group ResolveNames_def)

lemma unlogged_return [simp]: "unlogged (io_return x) = io_return x"
  by (simp add: fun_eq_iff unlogged_def io_return_def)

lemma io_wrap_logged [simp]: "io_wrap what (logged_as c (io_return x)) = logged_as c (io_return x)"
  by (simp add: fun_eq_iff io_wrap_def logged_as_def io_return_def)

lemma io_bind_logged [simp]: "io_bind (logged_as c (io_return x)) g (w, log) = g x (w, log @ [c])"
  by (simp add: io_bind_def logged_as_def io_return_def)

lemma plain_machines:
  "ensure_machines (recorded_aws (sample_aws g)) plain_group ((), log) =
     (Inr (sample_placement, ''lt-1'', ''1''), ((), log @ [CreateTemplate ''ns-g-lt'' (buildLaunchTemplateData plain_group),
        UpdateGroup (scaling_request_for plain_group ''ns-g-asg'' ''ns-g-lt'' ''1'' sample_placement [])]))"
proof -
  let ?A = "recorded_aws (sample_aws g)"
  have place: "resolvePlacement ?A plain_group = io_return sample_placement"
    by (rule sample_placed) (simp_all add: plain_group_def sample_mg_def)
  have one: "show_int 1 = ''1''" by code_simp
  have template: "ensureLaunchTemplate ?A plain_group ''ns-g-lt'' ((), log) =
      (Inr (''lt-1'', ''1''), ((), log @ [CreateTemplate ''ns-g-lt'' (buildLaunchTemplateData plain_group)]))" for log
    by (simp add: ensureLaunchTemplate_def plain_group_def sample_group Let_def io_return_def one)
  have scaled: "ensureAutoScalingGroup ?A plain_group ''ns-g-asg'' ''ns-g-lt'' ''1'' [] sample_placement ((), log) =
      (Inr (), ((), log @ [UpdateGroup (scaling_request_for plain_group ''ns-g-asg'' ''ns-g-lt'' ''1'' sample_placement [])]))" for log
    by (simp add: ensureAutoScalingGroup_def ensureImageRollingRefresh_def sample_placement_def io_then_def io_return_def)
  have hash: "tiproxyImageSpecHash (sp_TiProxy (mg_Spec plain_group)) = []" by code_simp
  show ?thesis
    by (simp add: ensure_machines_def plain_names place hash io_bind_def template scaled io_then_def io_return_def)
qed

lemma plain_normalized: "NormalizeLoadBalancers (sp_Exposure (mg_Spec plain_group)) = Inr []"
  by code_simp

lemma plain_deleted: "ensureLoadBalancersDeleted (recorded_aws (sample_aws g)) plain_group = io_return ()"
proof -
  have "st_Cloud (mg_Status plain_group) = empty_cloud_status" by (simp add: plain_group_def sample_group)
  then show ?thesis
    by (simp add: ensureLoadBalancersDeleted_def plain_normalized) (simp add: empty_cloud_status_def)
qed

theorem aws_Ensure_own_calls_witness:
  "\<exists>res c d. aws_Ensure (recorded_aws (sample_aws sample_asg)) plain_group sample_ports sample_allocation ((), []) =
     (res, ((), [c, d])) \<and> own_call (sample_aws sample_asg :: unit aws_api) plain_group (allocated_ports sample_ports sample_allocation) d"
proof -
  obtain res c d where run: "aws_Ensure (recorded_aws (sample_aws sample_asg)) plain_group sample_ports sample_allocation ((), []) =
      (res, ((), [c, d]))"
    by (simp add: aws_Ensure_def plain_names plain_normalized plain_machines plain_deleted io_return_def)
  from aws_Ensure_own_calls [OF run] run show ?thesis by (simp del: split_paired_Ex)
qed

section \<open>DeleteMachineGroup\<close>

lemma delete_step_log:
  "delete_step what (logged_as c f) (w, log) = (r, (w', log')) \<Longrightarrow> log' = log @ [c]"
  by (auto simp: delete_step_def io_catch_def logged_as_def io_return_def io_fail_def
      split: prod.splits sum.splits if_splits)

text \<open>A call that failed, and not because there was nothing to delete.\<close>

definition failed :: "'a result \<Rightarrow> bool" where
  "failed r \<longleftrightarrow> (\<exists>e. r = Inl e \<and> \<not> isNotFound e)"

text \<open>
  What AWS documents of deleting a load balancer, with \<open>up\<close> reading off the account whether the one with this
  ARN exists: it is gone after a deletion that succeeds or does not find it, and none of the calls of a
  deletion brings it back.
\<close>

definition deletion_law :: "('w \<Rightarrow> bool) \<Rightarrow> 'w aws_api \<Rightarrow> string \<Rightarrow> bool" where
  "deletion_law up A arn \<longleftrightarrow>
     (\<forall>w r w'. aw_DeleteLoadBalancer A arn w = (r, w') \<longrightarrow> \<not> failed r \<longrightarrow> \<not> up w') \<and>
     (\<forall>ns. keeps (\<lambda>w. \<not> up w) (aw_DescribeLoadBalancers A ns)) \<and>
     (\<forall>a. keeps (\<lambda>w. \<not> up w) (aw_DescribeListeners A a)) \<and>
     (\<forall>a. keeps (\<lambda>w. \<not> up w) (aw_DeleteListener A a)) \<and>
     (\<forall>a. keeps (\<lambda>w. \<not> up w) (aw_DescribeTargetGroups A a)) \<and>
     (\<forall>n arns. keeps (\<lambda>w. \<not> up w) (aw_DetachTargetGroups A n arns)) \<and>
     (\<forall>a. keeps (\<lambda>w. \<not> up w) (aw_DeleteTargetGroup A a)) \<and>
     (\<forall>a. keeps (\<lambda>w. \<not> up w) (aw_DeleteLoadBalancer A a))"

text \<open>
  A load balancer that is the group's: one of its status, or one that AWS finds, as long as it exists, under a
  balancer name of the group. \<open>balancers_gone\<close> says that an account has none of them.
\<close>

definition found_by_name :: "('w \<Rightarrow> bool) \<Rightarrow> 'w aws_api \<Rightarrow> machine_group \<Rightarrow> string \<Rightarrow> bool" where
  "found_by_name up A mg arn \<longleftrightarrow> (\<exists>spec \<in> set (group_balancers mg). \<forall>w. up w \<longrightarrow>
     (\<exists>b bs w'. aw_DescribeLoadBalancers A [loadBalancerName mg spec] w = (Inr (b # bs), w') \<and> lb_Arn b = Some arn))"

definition balancers_gone :: "'w aws_api \<Rightarrow> machine_group \<Rightarrow> 'w \<Rightarrow> bool" where
  "balancers_gone A mg w \<longleftrightarrow> (\<forall>up arn. deletion_law up A arn \<longrightarrow> trim_space arn \<noteq> [] \<longrightarrow>
     arn \<in> status_balancers mg \<or> found_by_name up A mg arn \<longrightarrow> \<not> up w)"

text \<open>Steps after whose success something holds.\<close>

definition reaches_goal :: "('a, 'w) io \<Rightarrow> ('w \<Rightarrow> bool) \<Rightarrow> bool" where
  "reaches_goal f G \<longleftrightarrow> (\<forall>w x w'. f w = (Inr x, w') \<longrightarrow> G w')"

lemma reaches_goal_bind: "(\<And>x. reaches_goal (g x) G) \<Longrightarrow> reaches_goal (io_bind f g) G"
  unfolding reaches_goal_def io_bind_Inr by blast

lemma reaches_goal_first: "reaches_goal f G \<Longrightarrow> (\<And>x. keeps G (g x)) \<Longrightarrow> reaches_goal (io_bind f g) G"
  unfolding reaches_goal_def io_bind_Inr keeps_def by (metis snd_conv)

lemma reaches_goal_then: "reaches_goal g G \<Longrightarrow> reaches_goal (io_then f g) G"
  "reaches_goal f G \<Longrightarrow> keeps G g \<Longrightarrow> reaches_goal (io_then f g) G"
  unfolding io_then_def by (blast intro: reaches_goal_bind reaches_goal_first)+

lemma reaches_goal_each:
  assumes "x \<in> set xs" "reaches_goal (f x) G" "\<And>y. y \<in> set xs \<Longrightarrow> keeps G (f y)"
  shows "reaches_goal (io_each f xs) G"
  using assms
proof (induction xs)
  case (Cons y ys)
  have "keeps G (io_each f ys)" using Cons.prems(3) by (intro keeps_rules) simp
  then show ?case
    unfolding io_each_simps using Cons by (cases "x = y") (auto intro: reaches_goal_then)
qed simp

lemma describe_keeps_gone:
  assumes "deletion_law up A arn"
  shows "keeps (\<lambda>w. \<not> up w) (describeLoadBalancerByName A name)" "keeps (\<lambda>w. \<not> up w) (describeListenersByLB A a)"
    "keeps (\<lambda>w. \<not> up w) (describeTargetGroupsForLB A a)" "keeps (\<lambda>w. \<not> up w) (ensureLoadBalancerDeletedByARN A mg a)"
    "keeps (\<lambda>w. \<not> up w) (ensureLoadBalancerDeletedByName A mg spec)"
proof -
  have calls: "keeps (\<lambda>w. \<not> up w) (aw_DescribeLoadBalancers A ns)" "keeps (\<lambda>w. \<not> up w) (aw_DescribeListeners A a)"
    "keeps (\<lambda>w. \<not> up w) (aw_DeleteListener A a)" "keeps (\<lambda>w. \<not> up w) (aw_DescribeTargetGroups A a)"
    "keeps (\<lambda>w. \<not> up w) (aw_DetachTargetGroups A n arns)" "keeps (\<lambda>w. \<not> up w) (aw_DeleteTargetGroup A a)"
    "keeps (\<lambda>w. \<not> up w) (aw_DeleteLoadBalancer A a)" for ns a n arns
    using assms by (simp_all add: deletion_law_def)
  show describe: "keeps (\<lambda>w. \<not> up w) (describeLoadBalancerByName A name)" "keeps (\<lambda>w. \<not> up w) (describeListenersByLB A a)"
    "keeps (\<lambda>w. \<not> up w) (describeTargetGroupsForLB A a)" for name a
    unfolding describeLoadBalancerByName_def describeListenersByLB_def describeTargetGroupsForLB_def
    by (intro keeps_rules calls)+
  show delete: "keeps (\<lambda>w. \<not> up w) (ensureLoadBalancerDeletedByARN A mg a)" for a
    unfolding ensureLoadBalancerDeletedByARN_def by (intro keeps_rules calls describe)
  show "keeps (\<lambda>w. \<not> up w) (ensureLoadBalancerDeletedByName A mg spec)"
    unfolding ensureLoadBalancerDeletedByName_def by (intro keeps_rules describe delete)
qed

lemma deleted_is_gone:
  assumes "deletion_law up A arn" "trim_space arn \<noteq> []"
  shows "reaches_goal (ensureLoadBalancerDeletedByARN A mg arn) (\<lambda>w. \<not> up w)"
proof -
  have "reaches_goal (delete_step what (aw_DeleteLoadBalancer A arn)) (\<lambda>w. \<not> up w)" for what
    unfolding reaches_goal_def
  proof (intro allI impI)
    fix w x w' assume run: "delete_step what (aw_DeleteLoadBalancer A arn) w = (Inr x, w')"
    obtain r w1 where call: "aw_DeleteLoadBalancer A arn w = (r, w1)" by (rule prod.exhaust)
    from run call have "w' = w1" "\<not> failed r"
      by (auto simp: delete_step_def io_catch_def io_return_def io_fail_def failed_def split: sum.splits if_splits)
    then show "\<not> up w'" using assms(1) call unfolding deletion_law_def by blast
  qed
  then show ?thesis
    unfolding ensureLoadBalancerDeletedByARN_def if_not_P [OF assms(2)] Let_def
    by (intro reaches_goal_bind reaches_goal_then)
qed

lemma named_is_gone:
  assumes "deletion_law up A arn" "trim_space arn \<noteq> []"
    "\<And>w. up w \<Longrightarrow> \<exists>b bs w'. aw_DescribeLoadBalancers A [loadBalancerName mg spec] w = (Inr (b # bs), w') \<and> lb_Arn b = Some arn"
  shows "reaches_goal (ensureLoadBalancerDeletedByName A mg spec) (\<lambda>w. \<not> up w)"
  unfolding reaches_goal_def
proof (intro allI impI)
  fix w x w' assume run: "ensureLoadBalancerDeletedByName A mg spec w = (Inr x, w')"
  show "\<not> up w'"
  proof (cases "up w")
    case True
    from assms(3) [OF this] obtain b bs w1 where found: "lb_Arn b = Some arn"
      "describeLoadBalancerByName A (loadBalancerName mg spec) w = (Inr (Some b), w1)"
      by (fastforce simp: describeLoadBalancerByName_def describe_step_def io_catch_def io_bind_def io_return_def)
    then have "ensureLoadBalancerDeletedByARN A mg arn w1 = (Inr x, w')"
      using run by (simp add: ensureLoadBalancerDeletedByName_def io_bind_def)
    then show ?thesis using deleted_is_gone [OF assms(1,2)] unfolding reaches_goal_def by blast
  next
    case False
    then show ?thesis using keepsD [OF describe_keeps_gone(5) [OF assms(1)], of w mg spec] run by simp
  qed
qed

lemma deleted_all_gone:
  assumes "ensureLoadBalancersDeleted A mg w = (Inr x, w')"
  shows "balancers_gone A mg w'"
  unfolding balancers_gone_def
proof (intro allI impI)
  fix up arn assume law: "deletion_law up A arn" and arn: "trim_space arn \<noteq> []"
    and own: "arn \<in> status_balancers mg \<or> found_by_name up A mg arn"
  obtain lbs where lbs: "NormalizeLoadBalancers (sp_Exposure (mg_Spec mg)) = Inr lbs"
    using assms by (cases "NormalizeLoadBalancers (sp_Exposure (mg_Spec mg))") (simp_all add: ensureLoadBalancersDeleted_def io_fail_def)
  let ?cloud = "st_Cloud (mg_Status mg)" and ?gone = "\<lambda>w. \<not> up w"
  let ?named = "io_each (ensureLoadBalancerDeletedByName A mg) lbs"
  let ?listed = "io_each (\<lambda>b. if trim_space (lcs_LoadBalancerID b) = [] then io_return ()
      else ensureLoadBalancerDeletedByARN A mg (lcs_LoadBalancerID b)) (cs_LoadBalancers ?cloud)"
  let ?frontend = "io_when (cs_LoadBalancers ?cloud = [] \<and> trim_space (cs_FrontendID ?cloud) \<noteq> [])
      (ensureLoadBalancerDeletedByARN A mg (cs_FrontendID ?cloud))"
  have run: "ensureLoadBalancersDeleted A mg = io_then ?named (io_then ?listed ?frontend)"
    by (simp add: ensureLoadBalancersDeleted_def lbs Let_def)
  have keep: "keeps ?gone ?listed" "keeps ?gone ?frontend"
    by (intro keeps_rules describe_keeps_gone [OF law])+
  have "reaches_goal (io_then ?named (io_then ?listed ?frontend)) ?gone"
  proof (cases "found_by_name up A mg arn")
    case True
    then obtain spec where spec: "spec \<in> set lbs" "\<forall>w. up w \<longrightarrow>
        (\<exists>b bs w'. aw_DescribeLoadBalancers A [loadBalancerName mg spec] w = (Inr (b # bs), w') \<and> lb_Arn b = Some arn)"
      by (auto simp: found_by_name_def group_balancers_def lbs)
    have "reaches_goal ?named ?gone"
      by (rule reaches_goal_each [OF spec(1) named_is_gone [OF law arn] describe_keeps_gone(5) [OF law]]) (use spec(2) in blast)
    then show ?thesis by (rule reaches_goal_then(2)) (intro keeps_then keep)
  next
    case False
    with own have status: "arn \<in> status_balancers mg" by simp
    show ?thesis
    proof (cases "cs_LoadBalancers ?cloud = []")
      case True
      then have "arn = cs_FrontendID ?cloud" using status by (simp add: status_balancers_def Let_def)
      with True arn deleted_is_gone [OF law arn, of mg] show ?thesis by (intro reaches_goal_then(1)) simp
    next
      case False
      then obtain b where b: "b \<in> set (cs_LoadBalancers ?cloud)" "lcs_LoadBalancerID b = arn"
        using status by (auto simp: status_balancers_def Let_def)
      have "reaches_goal ?listed ?gone"
        by (rule reaches_goal_each [OF b(1)]) (use b arn deleted_is_gone [OF law arn, of mg] in
            \<open>auto intro!: keeps_rules describe_keeps_gone [OF law]\<close>)
      from reaches_goal_then(2) [OF this keep(2)] show ?thesis by (rule reaches_goal_then(1))
    qed
  qed
  then show "\<not> up w'" using assms unfolding run reaches_goal_def by blast
qed

text \<open>
  C12: DeleteMachineGroup takes the load balancers down first, with calls on the group's own resources only. If
  that fails, nothing else is called and its error is returned. If it succeeds, none of the group's load
  balancers is left, and the auto scaling group is deleted with its machines; if that fails, the launch
  template is not touched and the error is returned. Only then the launch template is deleted, and the
  deletion is reported as done exactly when that has not failed. A resource that is not found is no failure.
\<close>

theorem aws_Delete_order:
  assumes "aws_Delete (recorded_aws A) mg (w, []) = (res, (w', log))" "ResolveNames mg = (lt, asg)"
    and "ensureLoadBalancersDeleted (recorded_aws A) mg (w, []) = (down, (w1, pre))"
    and "aw_DeleteAutoScalingGroup A asg True w1 = (r2, w2)" "aw_DeleteLaunchTemplate A lt w2 = (r3, w3)"
  shows "list_all (\<lambda>c. teardown_call c \<and> own_call A mg {} c) pre \<and>
    (case down of
       Inl e \<Rightarrow> log = pre \<and> res = Some e
     | Inr _ \<Rightarrow> balancers_gone A mg w1 \<and>
         (if failed r2 then log = pre @ [DeleteGroup asg True] \<and> res \<noteq> None
          else log = pre @ [DeleteGroup asg True, DeleteTemplate lt] \<and> (res = None \<longleftrightarrow> \<not> failed r3)))"
proof -
  let ?A = "recorded_aws A" and ?G = "\<lambda>c. teardown_call c \<and> own_call A mg {} c"
  have "keeps (obeys ?G) (ensureLoadBalancersDeleted ?A mg)"
    by (rule keeps_balancer_deletion) simp
  from keepsD [OF this, of "(w, [])"] have pre: "list_all ?G pre" by (simp add: assms(3) obeys_def)
  have gone: "balancers_gone A mg w1" if "down = Inr x" for x
    using records_run [OF records_deletion(1) assms(3)] that by (simp add: deleted_all_gone)
  show ?thesis
    using assms(1,2,3,4,5) pre gone
    by (auto simp: aws_Delete_def io_act_def io_then_def io_bind_def delete_step_def io_catch_def logged_as_def
        io_return_def io_fail_def failed_def split: sum.splits if_splits)
qed

text \<open>An account in which the environment says whether the load balancer \<^verbatim>\<open>lb/1\<close> exists.\<close>

definition standing_aws :: "bool aws_api" where
  "standing_aws = (sample_aws sample_asg)\<lparr>
     aw_DescribeLoadBalancers := (\<lambda>ns up. (Inr (if up then [\<lparr>lb_Arn = Some ''lb/1'', lb_DNSName = None,
       lb_Type = ''network'', lb_Scheme = ''internal''\<rparr>] else []), up)),
     aw_DeleteLoadBalancer := (\<lambda>arn up. (Inr (), if arn = ''lb/1'' then False else up))\<rparr>"

lemma standing_simps:
  "aw_DeleteAutoScalingGroup standing_aws n f = io_return ()" "aw_DeleteLaunchTemplate standing_aws n = io_return ()"
  "aw_DescribeListeners standing_aws a = io_return []" "aw_DescribeTargetGroups standing_aws a = io_return []"
  "aw_DescribeLoadBalancers standing_aws ns up = (Inr (if up then [\<lparr>lb_Arn = Some ''lb/1'', lb_DNSName = None,
       lb_Type = ''network'', lb_Scheme = ''internal''\<rparr>] else []), up)"
  "aw_DeleteLoadBalancer standing_aws a up = (Inr (), if a = ''lb/1'' then False else up)"
  "aw_DeleteListener standing_aws a = io_return ()" "aw_DeleteTargetGroup standing_aws a = io_return ()"
  "aw_DetachTargetGroups standing_aws n arns = io_return ()"
  by (simp_all add: standing_aws_def)

lemma standing_deleted:
  "ensureLoadBalancersDeleted (recorded_aws standing_aws) sample_mg (True, []) = (Inr (), (False, [DeleteBalancer ''lb/1'']))"
proof -
  have "trim_space ''lb/1'' \<noteq> []" by code_simp
  then have one: "ensureLoadBalancerDeletedByARN (recorded_aws standing_aws) sample_mg ''lb/1'' (True, []) =
      (Inr (), (False, [DeleteBalancer ''lb/1'']))"
    by (simp add: ensureLoadBalancerDeletedByARN_def describeListenersByLB_def describeTargetGroupsForLB_def
        standing_simps map_filter_simps)
      (simp add: delete_step_def io_catch_def logged_as_def io_return_def standing_simps)
  have "st_Cloud (mg_Status sample_mg) = empty_cloud_status" by (simp add: sample_group)
  then show ?thesis
    by (simp add: ensureLoadBalancersDeleted_def sample_normalized ensureLoadBalancerDeletedByName_def
        describeLoadBalancerByName_def standing_simps)
      (simp add: io_then_def io_bind_def unlogged_def describe_step_def io_catch_def io_return_def
        standing_simps empty_cloud_status_def one)
qed

lemma standing_is_left: "\<not> balancers_gone standing_aws sample_mg True"
proof -
  have "trim_space ''lb/1'' \<noteq> []" by code_simp
  moreover have "deletion_law (\<lambda>up. up) standing_aws ''lb/1''"
    by (simp add: deletion_law_def keeps_def standing_simps io_return_def)
  moreover have "found_by_name (\<lambda>up. up) standing_aws sample_mg ''lb/1''"
    by (simp add: found_by_name_def group_balancers_def sample_normalized standing_simps)
  ultimately show ?thesis unfolding balancers_gone_def by blast
qed

theorem aws_Delete_order_witness:
  "\<exists>pre. aws_Delete (recorded_aws standing_aws) sample_mg (True, []) =
     (None, (False, pre @ [DeleteGroup ''ns-g-asg'' True, DeleteTemplate ''ns-g-lt''])) \<and>
     DeleteBalancer ''lb/1'' \<in> set pre \<and>
     \<not> balancers_gone standing_aws sample_mg True \<and> balancers_gone standing_aws sample_mg False"
proof -
  have names: "ResolveNames sample_mg = (''ns-g-lt'', ''ns-g-asg'')" by (simp add: sample_group ResolveNames_def)
  have calls: "aw_DeleteAutoScalingGroup standing_aws ''ns-g-asg'' True False = (Inr (), False)"
    "aw_DeleteLaunchTemplate standing_aws ''ns-g-lt'' False = (Inr (), False)"
    by (simp_all add: standing_simps io_return_def)
  have run: "aws_Delete (recorded_aws standing_aws) sample_mg (True, []) =
      (None, (False, [DeleteBalancer ''lb/1'', DeleteGroup ''ns-g-asg'' True, DeleteTemplate ''ns-g-lt'']))"
    by (simp add: aws_Delete_def names standing_deleted io_act_def io_then_def io_bind_def delete_step_def
        io_catch_def logged_as_def io_return_def standing_simps)
  from aws_Delete_order [OF run names standing_deleted calls] run show ?thesis
    by (simp add: failed_def standing_is_left)
qed

text \<open>Without a normalised exposure the deletion fails before any call.\<close>

lemma aws_Delete_invalid:
  "NormalizeLoadBalancers (sp_Exposure (mg_Spec mg)) = Inl e \<Longrightarrow> aws_Delete A mg w = (Some e, w)"
  by (simp add: aws_Delete_def ensureLoadBalancersDeleted_def io_act_def io_fail_def split: prod.split)

definition bad_exposure :: exposure_spec where
  "bad_exposure = \<lparr>ex_LoadBalancers = Some [\<lparr>lbs_Name = ''x'', lbs_Scope = ''public'', lbs_LoadBalancerName = [],
     lbs_SubnetIDs = []\<rparr>]\<rparr>"

text \<open>
  What AWS documents of a load balancer's listeners, with \<open>listeners_of\<close> reading them off the account:
  DescribeListeners returns them, DeleteListener removes the one it names, and the target groups of a
  load balancer are those its listeners forward to, so without a listener there are none.
\<close>

definition listener_laws :: "('w \<Rightarrow> aws_listener list) \<Rightarrow> 'w aws_api \<Rightarrow> string \<Rightarrow> bool" where
  "listener_laws listeners_of A arn \<longleftrightarrow>
     (\<forall>w ls w'. aw_DescribeListeners A arn w = (Inr ls, w') \<longrightarrow> ls = listeners_of w \<and> listeners_of w' = listeners_of w) \<and>
     (\<forall>w e w'. aw_DescribeListeners A arn w = (Inl e, w') \<longrightarrow> isNotFound e \<longrightarrow> listeners_of w' = []) \<and>
     (\<forall>w l. l \<in> set (listeners_of w) \<longrightarrow> li_Arn l \<noteq> None) \<and>
     (\<forall>w a w'. aw_DeleteListener A a w = (Inr (), w') \<longrightarrow>
        listeners_of w' = filter (\<lambda>l. li_Arn l \<noteq> Some a) (listeners_of w)) \<and>
     (\<forall>w a e w'. aw_DeleteListener A a w = (Inl e, w') \<longrightarrow> isNotFound e \<longrightarrow>
        listeners_of w' = filter (\<lambda>l. li_Arn l \<noteq> Some a) (listeners_of w)) \<and>
     (\<forall>w tgs w'. aw_DescribeTargetGroups A arn w = (Inr tgs, w') \<longrightarrow> listeners_of w = [] \<longrightarrow> tgs = [])"

text \<open>No target group is deleted or detached.\<close>

fun spares_targets :: "aws_call \<Rightarrow> bool" where
  "spares_targets (DeleteTargetGroup t) \<longleftrightarrow> False"
| "spares_targets (DetachTargets n arns) \<longleftrightarrow> False"
| "spares_targets c \<longleftrightarrow> True"

text \<open>The listeners that the loop over \<open>rest\<close> still has to delete are all that are left.\<close>

definition listeners_left :: "('w \<Rightarrow> aws_listener list) \<Rightarrow> aws_listener list \<Rightarrow> 'w \<times> aws_call list \<Rightarrow> bool" where
  "listeners_left listeners_of rest = (\<lambda>wl. obeys spares_targets wl \<and> (\<forall>l \<in> set rest. li_Arn l \<noteq> None) \<and>
     (\<forall>l \<in> set (listeners_of (fst wl)). li_Arn l \<in> li_Arn ` set rest))"

lemma describe_listeners_triple:
  assumes "listener_laws listeners_of A arn" "arn \<noteq> []"
  shows "triple (obeys spares_targets) (describeListenersByLB (recorded_aws A) arn)
    (listeners_left listeners_of) (obeys spares_targets)"
proof (rule tripleI; clarify?)
  fix w log ls w' log'
  assume *: "obeys spares_targets (w, log)" "describeListenersByLB (recorded_aws A) arn (w, log) = (Inr ls, (w', log'))"
  obtain r w1 where run: "aw_DescribeListeners A arn w = (r, w1)" by (rule prod.exhaust)
  from * assms(2) run have "w' = w1" "log' = log" "r = Inr ls \<or> (\<exists>e. r = Inl e \<and> isNotFound e \<and> ls = [])"
    by (auto simp: describeListenersByLB_def describe_step_def io_catch_def unlogged_def io_return_def io_fail_def
        split: sum.splits if_splits)
  moreover from this have "ls = listeners_of w'" using assms(1) run unfolding listener_laws_def by metis
  ultimately show "listeners_left listeners_of ls (w', log')"
    using *(1) assms(1) unfolding listener_laws_def listeners_left_def by (simp add: obeys_def)
next
  fix w log e w' log'
  assume *: "obeys spares_targets (w, log)" "describeListenersByLB (recorded_aws A) arn (w, log) = (Inl e, (w', log'))"
  have "keeps (obeys spares_targets) (describeListenersByLB (recorded_aws A) arn)" by (rule keeps_rules)
  from keepsD [OF this *(1)] show "obeys spares_targets (w', log')" by (simp add: *(2))
qed

lemma delete_listener_triple:
  assumes "listener_laws listeners_of A arn"
  shows "triple (listeners_left listeners_of (l # rest)) (case li_Arn l of None \<Rightarrow> io_return ()
      | Some a \<Rightarrow> delete_step (what a) (logged_as (DeleteListener a) (aw_DeleteListener A a)))
    (\<lambda>_. listeners_left listeners_of rest) (obeys spares_targets)"
proof (cases "li_Arn l")
  case None
  then show ?thesis by (simp add: triple_def listeners_left_def)
next
  case (Some a)
  let ?f = "delete_step (what a) (logged_as (DeleteListener a) (aw_DeleteListener A a))"
  have keeps: "keeps (obeys spares_targets) ?f" by (intro keeps_rules) simp
  show ?thesis
    unfolding Some option.case
  proof (rule tripleI; clarify?)
    fix w log w' log'
    assume *: "listeners_left listeners_of (l # rest) (w, log)" "?f (w, log) = (Inr (), (w', log'))"
    obtain r w1 where run: "aw_DeleteListener A a w = (r, w1)" by (rule prod.exhaust)
    from *(2) run have "w' = w1" "r = Inr () \<or> (\<exists>e. r = Inl e \<and> isNotFound e)"
      by (auto simp: delete_step_def io_catch_def logged_as_def io_return_def io_fail_def split: sum.splits if_splits)
    then have "listeners_of w' = filter (\<lambda>l. li_Arn l \<noteq> Some a) (listeners_of w)"
      using assms run unfolding listener_laws_def by auto
    moreover have "obeys spares_targets (w', log')"
      using keepsD [OF keeps, of "(w, log)"] * by (simp add: listeners_left_def)
    ultimately show "listeners_left listeners_of rest (w', log')"
      using *(1) Some by (auto simp: listeners_left_def)
  next
    fix w log e w' log'
    assume *: "listeners_left listeners_of (l # rest) (w, log)" "?f (w, log) = (Inl e, (w', log'))"
    then show "obeys spares_targets (w', log')"
      using keepsD [OF keeps, of "(w, log)"] by (simp add: listeners_left_def)
  qed
qed

lemma describe_targets_triple:
  assumes "listener_laws listeners_of A arn"
  shows "triple (listeners_left listeners_of []) (describeTargetGroupsForLB (recorded_aws A) arn)
    (\<lambda>tgs wl. tgs = [] \<and> obeys spares_targets wl) (obeys spares_targets)"
proof (rule tripleI; clarify?)
  fix w log tgs w' log'
  assume *: "listeners_left listeners_of [] (w, log)"
    "describeTargetGroupsForLB (recorded_aws A) arn (w, log) = (Inr tgs, (w', log'))"
  obtain r w1 where run: "aw_DescribeTargetGroups A arn w = (r, w1)" by (rule prod.exhaust)
  have "listeners_of w = []" using *(1) by (simp add: listeners_left_def)
  then have "r = Inr xs \<Longrightarrow> xs = []" for xs using assms run unfolding listener_laws_def by blast
  with * run show "tgs = [] \<and> obeys spares_targets (w', log')"
    by (auto simp: describeTargetGroupsForLB_def describe_step_def io_catch_def unlogged_def io_return_def io_fail_def
        listeners_left_def obeys_def split: sum.splits if_splits)
next
  fix w log e w' log'
  assume *: "listeners_left listeners_of [] (w, log)"
    "describeTargetGroupsForLB (recorded_aws A) arn (w, log) = (Inl e, (w', log'))"
  have "keeps (obeys spares_targets) (describeTargetGroupsForLB (recorded_aws A) arn)" by (rule keeps_rules)
  from keepsD [OF this, of "(w, log)"] * show "obeys spares_targets (w', log')" by (simp add: listeners_left_def)
qed

lemma deletion_triple:
  assumes "listener_laws listeners_of A arn"
  shows "triple (obeys spares_targets) (ensureLoadBalancerDeletedByARN (recorded_aws A) mg arn)
    (\<lambda>_. obeys spares_targets) (obeys spares_targets)"
proof (cases "trim_space arn = []")
  case True
  then show ?thesis by (simp add: ensureLoadBalancerDeletedByARN_def triple_return)
next
  case False
  then have "arn \<noteq> []" by auto
  let ?lb = "delete_step (''delete load balancer '' @ arn) (logged_as (DeleteBalancer arn) (aw_DeleteLoadBalancer A arn))"
  have "keeps (obeys spares_targets) ?lb" by (intro keeps_rules) simp
  then have last: "triple (obeys spares_targets) ?lb (\<lambda>_. obeys spares_targets) (obeys spares_targets)"
    unfolding triple_def by (auto dest!: keepsD split: sum.split)
  show ?thesis
    unfolding ensureLoadBalancerDeletedByARN_def if_not_P [OF False] recorded_aws_simps
  proof (rule triple_bind [OF describe_listeners_triple [OF assms \<open>arn \<noteq> []\<close>]], rule triple_then,
      rule triple_each [OF delete_listener_triple [OF assms]], rule triple_bind [OF describe_targets_triple [OF assms]])
    fix tgs
    show "triple (\<lambda>wl. tgs = [] \<and> obeys spares_targets wl) (let tgARNs = List.map_filter tg_Arn tgs; asgName = snd (ResolveNames mg) in
        io_then (io_when (tgARNs \<noteq> []) (delete_step (''detach target groups from asg '' @ asgName)
            (logged_as (DetachTargets asgName tgARNs) (aw_DetachTargetGroups A asgName tgARNs))))
        (io_then (io_each (\<lambda>tg. case tg_Arn tg of None \<Rightarrow> io_return ()
            | Some a \<Rightarrow> delete_step (''delete target group '' @ a) (logged_as (DeleteTargetGroup a) (aw_DeleteTargetGroup A a))) tgs)
          ?lb)) (\<lambda>_. obeys spares_targets) (obeys spares_targets)"
      using last by (cases "tgs = []") (simp_all add: map_filter_simps, simp add: triple_def)
  qed
qed

text \<open>
  C31: Deleting a load balancer leaves its target groups behind: the listeners are deleted first, and the
  target groups are then looked up through the load balancer, which has none any more. None is detached
  from the auto scaling group or deleted.
\<close>

theorem deletion_leaks_target_groups:
  assumes "listener_laws listeners_of A arn"
    "ensureLoadBalancerDeletedByARN (recorded_aws A) mg arn (w, []) = (r, (w', log))"
  shows "DeleteTargetGroup t \<notin> set log \<and> DetachTargets n arns \<notin> set log"
proof -
  have "obeys spares_targets (w', log)"
    using assms(2) tripleD [OF deletion_triple [OF assms(1), of mg], of "(w, [])"]
    by (cases r) (simp_all add: obeys_def)
  then show ?thesis by (auto simp: obeys_def list_all_iff)
qed

text \<open>An account in which the environment is the list of the ARNs of the listeners, all of one load balancer.\<close>

definition listener_at :: "string \<Rightarrow> aws_listener" where
  "listener_at arn = \<lparr>li_Arn = Some arn, li_Port = Some 10000, li_Protocol = ''TCP'', li_Actions = []\<rparr>"

definition listening_aws :: "string list aws_api" where
  "listening_aws = (sample_aws sample_asg)\<lparr>
     aw_DescribeListeners := (\<lambda>arn ls. (Inr (map listener_at ls), ls)),
     aw_DeleteListener := (\<lambda>arn ls. (Inr (), filter (\<lambda>l. l \<noteq> arn) ls)),
     aw_DescribeTargetGroups := (\<lambda>arn ls. (Inr (if ls = [] then [] else [\<lparr>tg_Arn = Some ''tg/1'', tg_Port = Some 10000\<rparr>]), ls))\<rparr>"

theorem deletion_leaks_target_groups_witness:
  "aw_DescribeTargetGroups listening_aws ''lb/1'' [''listener/1''] =
     (Inr [\<lparr>tg_Arn = Some ''tg/1'', tg_Port = Some 10000\<rparr>], [''listener/1'']) \<and>
   (\<exists>log. ensureLoadBalancerDeletedByARN (recorded_aws listening_aws) sample_mg ''lb/1'' ([''listener/1''], []) =
     (Inr (), ([], log)) \<and> DeleteBalancer ''lb/1'' \<in> set log \<and> DeleteTargetGroup ''tg/1'' \<notin> set log)"
proof -
  have "trim_space ''lb/1'' \<noteq> []" by code_simp
  then have run: "ensureLoadBalancerDeletedByARN (recorded_aws listening_aws) sample_mg ''lb/1'' ([''listener/1''], []) =
      (Inr (), ([], [DeleteListener ''listener/1'', DeleteBalancer ''lb/1'']))"
    by (simp add: ensureLoadBalancerDeletedByARN_def listening_aws_def listener_at_def describeListenersByLB_def
        describeTargetGroupsForLB_def describe_step_def delete_step_def io_catch_def io_bind_def io_then_def
        io_return_def unlogged_def logged_as_def)
  have "listener_laws (map listener_at) listening_aws ''lb/1''"
    by (auto simp: listener_laws_def listening_aws_def listener_at_def filter_map comp_def)
  from deletion_leaks_target_groups [OF this run] run show ?thesis
    by (simp add: listening_aws_def)
qed

end
