(* ===== verification/Aws_Settled.thy ===== *)
theory Aws_Settled
  imports Aws_Properties
begin

text \<open>
  When the account already is what the group asks for, \<open>ensureLoadBalancerExposure\<close> only looks: it makes
  no changing call at all. A step that equals \<open>io_return x\<close> makes no call that changes the environment,
  whatever the changing calls of \<open>A\<close> do.
\<close>

section \<open>The settled account\<close>

text \<open>
  The load balancer exists, and for the wanted ports and no others there is exactly one target group and
  one listener, which forwards to it over TCP; the auto scaling group has the target groups attached.
\<close>

definition settled_ports ::
  "int set \<Rightarrow> string list \<Rightarrow> target_group list \<Rightarrow> aws_listener list \<Rightarrow> bool" where
  "settled_ports ports attached tgs ls \<longleftrightarrow>
     distinct (map tg_Port tgs) \<and> tg_Port ` set tgs = Some ` ports \<and>
     distinct (map li_Port ls) \<and> li_Port ` set ls = Some ` ports \<and>
     (\<forall>tg \<in> set tgs. to_str (tg_Arn tg) \<in> set attached) \<and>
     (\<forall>l \<in> set ls. li_Arn l \<noteq> None \<and> li_Protocol l = ''TCP'' \<and>
        (\<forall>tg \<in> set tgs. tg_Port tg = li_Port l \<longrightarrow> listenerForwardsTo l (to_str (tg_Arn tg))))"

definition settled_balancer ::
  "'w aws_api \<Rightarrow> machine_group \<Rightarrow> placement \<Rightarrow> int set \<Rightarrow> string list \<Rightarrow> lb_exposure_spec \<Rightarrow> bool" where
  "settled_balancer A mg placement ports attached spec \<longleftrightarrow>
     (\<exists>p lb more arn tgs ls. resolveLoadBalancerPlacement A mg spec placement = io_return p \<and>
        aw_DescribeLoadBalancers A [loadBalancerName mg spec] = io_return (lb # more) \<and>
        lb_Type lb = ''network'' \<and> lb_Arn lb = Some arn \<and>
        lb_Scheme lb = (if equal_fold (EffectiveScope spec) ''external'' then ''internet-facing'' else ''internal'') \<and>
        aw_DescribeTargetGroups A arn = io_return tgs \<and> aw_DescribeListeners A arn = io_return ls \<and>
        arn \<noteq> [] \<and> settled_ports ports attached tgs ls)"

section \<open>The indexes by port\<close>

lemma index_target_groups_lookup:
  assumes "distinct (map tg_Port tgs)" "tg \<in> set tgs" "tg_Port tg = Some p"
  shows "map_of (fst (index_target_groups tgs m managed)) p = Some tg"
proof -
  have other: "map_of (fst (index_target_groups tgs m managed)) p = map_of m p" if "Some p \<notin> tg_Port ` set tgs" for tgs m managed
    using that by (induction tgs m managed rule: index_target_groups.induct) (auto simp: map_of_update split: option.split)
  show ?thesis
    using assms
  proof (induction tgs m managed rule: index_target_groups.induct)
    case (2 t tgs m managed)
    show ?case
    proof (cases "t = tg")
      case True
      then have "Some p \<notin> tg_Port ` set tgs" using 2 by auto
      then show ?thesis using True 2 by (simp add: other map_of_update)
    next
      case False
      then show ?thesis using 2 by (auto split: option.split)
    qed
  qed simp
qed

lemma index_target_groups_managed:
  "set (snd (index_target_groups tgs m managed)) =
     {to_str (tg_Arn tg) | tg. tg \<in> set tgs \<and> tg_Port tg \<noteq> None} \<union> set managed"
  by (induction tgs m managed rule: index_target_groups.induct) (auto split: option.split)

lemma index_listeners_lookup:
  assumes "distinct (map li_Port ls)" "l \<in> set ls" "li_Port l = Some p"
  shows "map_of (index_listeners ls m) p = Some l"
proof -
  have other: "map_of (index_listeners ls m) p = map_of m p" if "Some p \<notin> li_Port ` set ls" for ls m
    using that by (induction ls m rule: index_listeners.induct) (auto simp: map_of_update split: option.split)
  show ?thesis
    using assms
  proof (induction ls m rule: index_listeners.induct)
    case (2 k ls m)
    show ?case
    proof (cases "k = l")
      case True
      then have "Some p \<notin> li_Port ` set ls" using 2 by auto
      then show ?thesis using True 2 by (simp add: other map_of_update)
    next
      case False
      then show ?thesis using 2 by (auto split: option.split)
    qed
  qed simp
qed

section \<open>One load balancer\<close>

lemma settled_port_of:
  assumes "settled_ports ports attached tgs ls"
  shows "tg \<in> set tgs \<Longrightarrow> \<exists>p \<in> ports. tg_Port tg = Some p" "l \<in> set ls \<Longrightarrow> \<exists>p \<in> ports. li_Port l = Some p"
proof -
  have "tg_Port ` set tgs = Some ` ports" "li_Port ` set ls = Some ` ports"
    using assms unfolding settled_ports_def by blast+
  then show "tg \<in> set tgs \<Longrightarrow> \<exists>p \<in> ports. tg_Port tg = Some p" "l \<in> set ls \<Longrightarrow> \<exists>p \<in> ports. li_Port l = Some p"
    by (metis imageI imageE)+
qed

lemma settled_target:
  assumes "settled_ports ports attached tgs ls" "p \<in> ports"
  obtains tg where "tg \<in> set tgs" "tg_Port tg = Some p" "to_str (tg_Arn tg) \<in> set attached"
    "\<And>m managed. map_of (fst (index_target_groups tgs m managed)) p = Some tg"
proof -
  have "Some p \<in> tg_Port ` set tgs" using assms by (simp add: settled_ports_def)
  then obtain tg where tg: "tg \<in> set tgs" "tg_Port tg = Some p" by auto
  moreover have "distinct (map tg_Port tgs)" "to_str (tg_Arn tg) \<in> set attached"
    using assms tg by (simp_all add: settled_ports_def)
  ultimately show thesis using index_target_groups_lookup that by blast
qed

lemma settled_listener:
  assumes "settled_ports ports attached tgs ls" "p \<in> ports" "tg \<in> set tgs" "tg_Port tg = Some p"
  obtains l a where "\<And>m. map_of (index_listeners ls m) p = Some l" "li_Arn l = Some a" "li_Protocol l = ''TCP''"
    "listenerForwardsTo l (to_str (tg_Arn tg))"
proof -
  have "Some p \<in> li_Port ` set ls" using assms by (simp add: settled_ports_def)
  then obtain l where l: "l \<in> set ls" "li_Port l = Some p" by auto
  moreover have "distinct (map li_Port ls)" "li_Arn l \<noteq> None" "li_Protocol l = ''TCP''"
    "listenerForwardsTo l (to_str (tg_Arn tg))"
    using assms l by (simp_all add: settled_ports_def)
  ultimately show thesis using index_listeners_lookup that by blast
qed

lemma settled_create:
  assumes "settled_ports ports attached tgs ls" "set visited = ports"
  shows "create_target_groups A mg spec v visited (index_target_groups tgs [] managed) =
    io_return (index_target_groups tgs [] managed)"
  unfolding create_target_groups_def
proof (rule io_loop_skip)
  fix p assume "p \<in> set visited"
  with assms(2) have "p \<in> ports" by blast
  from settled_target [OF assms(1) this] obtain tg where "tg_Port tg = Some p" "tg \<in> set tgs"
    "to_str (tg_Arn tg) \<in> set attached" and found: "\<And>m managed. map_of (fst (index_target_groups tgs m managed)) p = Some tg" by metis
  from found [of "[]" managed] show "(case index_target_groups tgs [] managed of (tgByPort, managed) \<Rightarrow>
      if map_of tgByPort p \<noteq> None then io_return (tgByPort, managed)
      else io_bind (createTargetGroup A mg spec v p) (\<lambda>created.
        io_return (AList.update p created tgByPort, to_str (tg_Arn created) # managed))) =
      io_return (index_target_groups tgs [] managed)"
    by (cases "index_target_groups tgs [] managed") simp
qed

lemma settled_listeners:
  assumes "settled_ports ports attached tgs ls" "\<And>p d. (p, d) \<in> set entries \<Longrightarrow> p \<in> ports"
  shows "\<exists>y. ensure_listeners A spec lb (fst (index_target_groups tgs [] managed)) (index_listeners ls []) entries z = io_return y"
  unfolding ensure_listeners_def
proof (rule io_loop_return)
  fix e st assume "e \<in> set entries"
  moreover obtain p d where e: "e = (p, d)" by (rule prod.exhaust)
  ultimately have "p \<in> ports" using assms(2) by blast
  from settled_target [OF assms(1) this] obtain tg where tg: "tg \<in> set tgs" "tg_Port tg = Some p"
    "\<And>m managed. map_of (fst (index_target_groups tgs m managed)) p = Some tg" by metis
  from settled_listener [OF assms(1) \<open>p \<in> ports\<close> tg(1,2)] obtain l a where "\<And>m. map_of (index_listeners ls m) p = Some l"
    "li_Arn l = Some a" "li_Protocol l = ''TCP''" "listenerForwardsTo l (to_str (tg_Arn tg))" by metis
  then have found: "entry_or zero_listener (index_listeners ls []) p = l"
    and kept: "ensureListener A (to_str (lb_Arn lb)) p (to_str (tg_Arn tg)) l = io_return a"
    by (simp_all add: entry_or_def ensureListener_def)
  have "entry_or zero_target_group (fst (index_target_groups tgs [] managed)) p = tg"
    using tg(3) by (simp add: entry_or_def)
  with found kept show "\<exists>y. (case e of (port, desired) \<Rightarrow> \<lambda>statuses.
      let tgArn = to_str (tg_Arn (entry_or zero_target_group (fst (index_target_groups tgs [] managed)) port))
      in io_bind (ensureListener A (to_str (lb_Arn lb)) port tgArn (entry_or zero_listener (index_listeners ls []) port))
        (\<lambda>listenerArn. io_return (add_port_status (dp_UID desired) (port_balancer_status spec lb listenerArn tgArn) statuses))) st =
      io_return y"
    unfolding e prod.case Let_def by simp
qed

lemma settled_keeps_all:
  assumes "settled_ports ports attached tgs ls" "set wanted = ports"
  shows "delete_unwanted A wanted ls tgs = io_return ()"
proof -
  have "p \<in> set wanted" if "l \<in> set ls" "li_Port l = Some p" for l p
    using settled_port_of(2) [OF assms(1) that(1)] that(2) assms(2) by auto
  then have "io_each (\<lambda>l. case (li_Port l, li_Arn l) of (Some port, Some arn) \<Rightarrow> if port \<in> set wanted then io_return ()
      else delete_step (''delete listener '' @ arn) (aw_DeleteListener A arn) | _ \<Rightarrow> io_return ()) ls = io_return ()"
    by (intro io_each_skip) (simp split: option.split)
  moreover have "p \<in> set wanted" if "tg \<in> set tgs" "tg_Port tg = Some p" for tg p
    using settled_port_of(1) [OF assms(1) that(1)] that(2) assms(2) by auto
  then have "io_each (\<lambda>tg. case (tg_Port tg, tg_Arn tg) of (Some port, Some arn) \<Rightarrow> if port \<in> set wanted then io_return ()
      else delete_step (''delete target group '' @ arn) (aw_DeleteTargetGroup A arn) | _ \<Rightarrow> io_return ()) tgs = io_return ()"
    by (intro io_each_skip) (simp split: option.split)
  ultimately show ?thesis by (simp add: delete_unwanted_def)
qed

definition settled_state :: "string list \<Rightarrow> exposure_state \<Rightarrow> bool" where
  "settled_state attached st \<longleftrightarrow> set (es_managed st) = set (es_desired st) \<and> set (es_desired st) \<subseteq> set attached"

lemma settled_expose:
  assumes "settled_balancer A mg placement (fst ` set m) attached spec" "settled_state attached st"
  shows "\<exists>y. expose_balancer A mg placement m spec st = io_return y \<and> settled_state attached y"
proof -
  obtain p lb more arn tgs ls where found: "resolveLoadBalancerPlacement A mg spec placement = io_return p"
    "aw_DescribeLoadBalancers A [loadBalancerName mg spec] = io_return (lb # more)" "lb_Type lb = ''network''"
    "lb_Arn lb = Some arn"
    "lb_Scheme lb = (if equal_fold (EffectiveScope spec) ''external'' then ''internet-facing'' else ''internal'')"
    "aw_DescribeTargetGroups A arn = io_return tgs" "aw_DescribeListeners A arn = io_return ls" "arn \<noteq> []"
    and settled: "settled_ports (fst ` set m) attached tgs ls"
    using assms(1) unfolding settled_balancer_def by blast
  let ?index = "index_target_groups tgs [] (es_managed st)"
  have visited: "set (visit A k m) = fst ` set m" for k by (simp add: visit_def)
  have balancer: "ensureNetworkLoadBalancer A mg spec p = io_return lb"
    using found(2-5) by (simp add: ensureNetworkLoadBalancer_def describeLoadBalancerByName_def)
  have entries: "p \<in> fst ` set m" if "(p, d) \<in> set (visit_entries A k m)" for p d k
    using that visited by (auto simp: visit_entries_def)
  obtain ports where listeners: "ensure_listeners A spec lb (fst ?index) (index_listeners ls [])
      (visit_entries A (3 * length (es_balancers st) + 2) m) (es_ports st) = io_return ports"
    using settled_listeners [OF settled, of "visit_entries A (3 * length (es_balancers st) + 2) m"] entries by blast
  have kept: "delete_unwanted A (map fst m) ls tgs = io_return ()" by (rule settled_keeps_all [OF settled]) simp
  define arns where "arns = map (\<lambda>port. to_str (tg_Arn (entry_or zero_target_group (fst ?index) port)))
      (visit A (3 * length (es_balancers st) + 1) m)"
  have arns: "set arns = {to_str (tg_Arn tg) | tg. tg \<in> set tgs \<and> tg_Port tg \<noteq> None}"
  proof -
    have "to_str (tg_Arn (entry_or zero_target_group (fst ?index) port)) \<in> {to_str (tg_Arn tg) | tg. tg \<in> set tgs \<and> tg_Port tg \<noteq> None}"
      if "port \<in> fst ` set m" for port
      using settled_target [OF settled that] by (force simp: entry_or_def)
    moreover have "\<exists>port \<in> fst ` set m. to_str (tg_Arn tg) = to_str (tg_Arn (entry_or zero_target_group (fst ?index) port))"
      if "tg \<in> set tgs" for tg
    proof -
      obtain q where q: "tg_Port tg = Some q" "q \<in> fst ` set m" using settled_port_of(1) [OF settled \<open>tg \<in> set tgs\<close>] by blast
      have "map_of (fst ?index) q = Some tg"
        using settled \<open>tg \<in> set tgs\<close> q(1) by (intro index_target_groups_lookup) (simp_all add: settled_ports_def)
      then show ?thesis using q(2) by (intro bexI [of _ q]) (simp_all add: entry_or_def)
    qed
    ultimately show ?thesis unfolding arns_def set_map visited by blast
  qed
  have created: "create_target_groups A mg spec (ps_VPCID p) (visit A (3 * length (es_balancers st) + 0) m) ?index = io_return ?index"
    by (rule settled_create [OF settled visited])
  have "\<exists>y. expose_balancer A mg placement m spec st = io_return y \<and> es_managed y = snd ?index \<and>
      es_desired y = es_desired st @ arns"
    using found balancer listeners kept created arns_def
    by (cases ?index) (simp add: expose_balancer_def describeTargetGroupsForLB_def describeListenersByLB_def Let_def)
  moreover have "set arns \<subseteq> set attached" using settled unfolding arns settled_ports_def by blast
  ultimately show ?thesis
    using assms(2) by (auto simp: settled_state_def index_target_groups_managed arns)
qed

section \<open>Property\<close>

text \<open>
  C13: The exposure converges: in an account that already is what the group asks for, on which all
  descriptions succeed, \<open>ensureLoadBalancerExposure\<close> makes no changing call and succeeds.
\<close>

theorem settled_exposure_is_left_alone:
  assumes "desired_by_port allocated mps [] = Inr m" "ps_SubnetIDs placement \<noteq> []"
    "\<forall>spec \<in> set lbs. settled_balancer A mg placement (fst ` set m) (as_TargetGroupARNs g) spec"
    "aw_DescribeAutoScalingGroups A [asg] = io_return (g # gs)"
  shows "\<exists>statuses. ensureLoadBalancerExposure A mg asg mps allocated placement lbs = io_return statuses"
proof -
  let ?st0 = "\<lparr>es_managed = [], es_desired = [], es_ports = [], es_balancers = []\<rparr>"
  have "\<exists>y. io_loop (expose_balancer A mg placement m) lbs ?st0 = io_return y \<and> settled_state (as_TargetGroupARNs g) y"
    by (rule io_loop_invariant) (use assms(3) in \<open>auto simp: settled_state_def [of _ ?st0] intro: settled_expose\<close>)
  then obtain st where loop: "io_loop (expose_balancer A mg placement m) lbs ?st0 = io_return st"
    and st: "settled_state (as_TargetGroupARNs g) st" by blast
  have "set (dedupeStrings (es_desired st)) = set (es_desired st)"
    using dedupe_on_keys [of "\<lambda>v. v" "[]" "es_desired st"] by (simp add: dedupeStrings_def)
  then have "reconcileASGTargetGroups A asg (sort (dedupeStrings (es_desired st))) (es_managed st) = io_return ()"
    using st assms(4)
    by (auto simp: reconcileASGTargetGroups_def settled_state_def Let_def filter_empty_conv subset_iff)
  then show ?thesis using assms(1,2) loop by (simp add: ensureLoadBalancerExposure_def)
qed

text \<open>An account with everything in place, in which every call that creates or changes something fails.\<close>

definition settled_group :: scaling_group where
  "settled_group = \<lparr>as_TargetGroupARNs = [''tg/10000'', ''tg/10001''], as_Tags = [], as_Instances = []\<rparr>"

definition settled_targets :: "target_group list" where
  "settled_targets = [\<lparr>tg_Arn = Some ''tg/10000'', tg_Port = Some 10000\<rparr>, \<lparr>tg_Arn = Some ''tg/10001'', tg_Port = Some 10001\<rparr>]"

definition forwarding :: "string \<Rightarrow> int \<Rightarrow> string \<Rightarrow> aws_listener" where
  "forwarding arn port tg = \<lparr>li_Arn = Some arn, li_Port = Some port, li_Protocol = ''TCP'',
     li_Actions = [\<lparr>ac_Type = ''forward'', ac_TargetGroupArn = Some tg, ac_ForwardTargets = []\<rparr>]\<rparr>"

definition settled_aws :: "unit aws_api" where
  "settled_aws = (sample_aws settled_group)\<lparr>
     aw_DescribeLoadBalancers := (\<lambda>ns. io_return [\<lparr>lb_Arn = Some ''lb/1'', lb_DNSName = Some ''lb-1'',
       lb_Type = ''network'', lb_Scheme = ''internal''\<rparr>]),
     aw_DescribeTargetGroups := (\<lambda>arn. io_return settled_targets),
     aw_DescribeListeners := (\<lambda>arn. io_return [forwarding ''listener/1'' 10000 ''tg/10000'', forwarding ''listener/2'' 10001 ''tg/10001'']),
     aw_CreateLoadBalancer := (\<lambda>r. io_fail (errorf ''denied'')), aw_CreateTargetGroup := (\<lambda>r. io_fail (errorf ''denied'')),
     aw_CreateListener := (\<lambda>arn r. io_fail (errorf ''denied'')), aw_ModifyListener := (\<lambda>arn r. io_fail (errorf ''denied'')),
     aw_DeleteListener := (\<lambda>arn. io_fail (errorf ''denied'')), aw_DeleteTargetGroup := (\<lambda>arn. io_fail (errorf ''denied'')),
     aw_AttachTargetGroups := (\<lambda>n arns. io_fail (errorf ''denied'')), aw_DetachTargetGroups := (\<lambda>n arns. io_fail (errorf ''denied''))\<rparr>"

lemma sample_settled:
  assumes "lbs_SubnetIDs spec = []" "lbs_Scope spec = ''internal''"
  shows "settled_balancer settled_aws mg placement {10000, 10001} (as_TargetGroupARNs settled_group) spec"
proof -
  let ?ls = "[forwarding ''listener/1'' 10000 ''tg/10000'', forwarding ''listener/2'' 10001 ''tg/10001'']"
  have "equal_fold ''internal'' ''external'' = False" "trim_space ''internal'' = ''internal''" by code_simp+
  then have "equal_fold ''internal'' ''external'' = False" "EffectiveScope spec = ''internal''"
    using assms(2) by (simp_all add: EffectiveScope_def)
  moreover have "settled_ports {10000, 10001} (as_TargetGroupARNs settled_group) settled_targets ?ls"
    by (auto simp: settled_ports_def settled_targets_def settled_group_def forwarding_def listenerForwardsTo_def)
  ultimately show ?thesis
    using assms unfolding settled_balancer_def
    by (intro exI conjI) (auto simp: settled_aws_def resolveLoadBalancerPlacement_def)
qed

theorem settled_exposure_is_left_alone_witness:
  "\<exists>statuses. ensureLoadBalancerExposure settled_aws sample_mg ''asg'' sample_ports sample_allocation sample_placement
     [\<lparr>lbs_Name = ''internal'', lbs_Scope = ''internal'', lbs_LoadBalancerName = [], lbs_SubnetIDs = []\<rparr>] = io_return statuses"
proof (rule settled_exposure_is_left_alone [OF sample_desired])
  show "ps_SubnetIDs sample_placement \<noteq> []" by (simp add: sample_placement_def)
  show "aw_DescribeAutoScalingGroups settled_aws [''asg''] = io_return (settled_group # [])" by (simp add: settled_aws_def)
qed (simp add: sample_settled)

end
