(* ===== verification/Manager_Command.thy ===== *)
theory Manager_Command
  imports Controller_Properties Aws_Properties
begin

text \<open>
  The controller process: \<^verbatim>\<open>cmd/manager/main.go\<close>, the constructor \<^verbatim>\<open>NewManager\<close> of the AWS provider, the
  registration of the API types in \<^verbatim>\<open>api/v1alpha1/groupversion_info.go\<close> and the watches of
  \<^verbatim>\<open>SetupWithManager\<close>.

  \<open>manager_main\<close> is \<^verbatim>\<open>main\<close> as a function from the values of the command line to the reconciler that the
  process serves, or to the way it exits. Reading the kubeconfig, creating and starting the
  controller-runtime manager and loading the configuration of the AWS SDK are fields of \<open>manager_host\<close>.
  \<open>enqueued\<close> is what a changed object puts on the work queue.
\<close>

section \<open>The AWS provider\<close>

definition NewManager ::
  "(string option \<Rightarrow> 'c result) \<Rightarrow> ('c \<Rightarrow> 'w aws_api) \<Rightarrow> string \<Rightarrow> 'w cloud_manager result" where
  "NewManager load clients region =
     (let opts = (if region \<noteq> [] then Some region else None) in
      case load opts of
        Inl e \<Rightarrow> Inl (wrap_error ''load aws config'' e)
      | Inr cfg \<Rightarrow> Inr (aws_manager (clients cfg)))"

section \<open>The registered types\<close>

record group_version =
  gv_Group :: string
  gv_Version :: string

definition GroupVersion :: group_version where
  "GroupVersion = \<lparr>gv_Group = ''tiproxy.pingcap.com'', gv_Version = ''v1alpha1''\<rparr>"

text \<open>
  A scheme is what the Kubernetes libraries keep of the types: \<open>sl_add_types\<close> is \<^verbatim>\<open>AddKnownTypes\<close>,
  \<open>sl_add_meta\<close> is \<^verbatim>\<open>metav1.AddToGroupVersion\<close> and \<open>sl_add_client_go\<close> the scheme of client-go.
\<close>

record 's scheme_lib =
  sl_empty :: 's
  sl_add_client_go :: "'s \<Rightarrow> 's"
  sl_add_types :: "group_version \<Rightarrow> string list \<Rightarrow> 's \<Rightarrow> 's"
  sl_add_meta :: "group_version \<Rightarrow> 's \<Rightarrow> 's"

definition addKnownTypes :: "'s scheme_lib \<Rightarrow> 's \<Rightarrow> 's" where
  "addKnownTypes S scheme =
     (let scheme = sl_add_types S GroupVersion
        [''TiProxyMachineGroup'', ''TiProxyMachineGroupList'', ''TiDBResourcePoolLink'',
         ''TiDBResourcePoolLinkList'', ''TiProxyMachinePort'', ''TiProxyMachinePortList''] scheme
      in sl_add_meta S GroupVersion scheme)"

definition runtimeScheme :: "'s scheme_lib \<Rightarrow> 's" where
  "runtimeScheme S =
     (let scheme = sl_empty S;
          scheme = sl_add_client_go S scheme
      in addKnownTypes S scheme)"

section \<open>The process\<close>

record ('c, 'w, 's, 'k) manager_host =
  mh_parse_bool :: "string \<Rightarrow> bool option"
  mh_parse_duration :: "string \<Rightarrow> int option"
  mh_rest_config :: "'k result"
  mh_scheme_lib :: "'s scheme_lib"
  mh_new_manager :: "'k \<Rightarrow> 's \<Rightarrow> string \<Rightarrow> string \<Rightarrow> bool \<Rightarrow> string \<Rightarrow> 'w kube_client result"
  mh_load_config :: "string option \<Rightarrow> 'c result"
  mh_clients :: "'c \<Rightarrow> 'w aws_api"
  mh_kube_lib :: kube_lib
  mh_complete :: "'w reconciler \<Rightarrow> go_error option"
  mh_healthz :: "go_error option"
  mh_readyz :: "go_error option"
  mh_start :: "go_error option"

text \<open>
  The values that \<^verbatim>\<open>flag.Parse\<close> leaves in the variables; \<open>given\<close> holds the text of each flag of the
  command line. A value that does not parse ends the process.
\<close>

record manager_flags =
  mf_metricsAddr :: string
  mf_healthProbeAddr :: string
  mf_enableLeaderElection :: bool
  mf_cloudProvider :: string
  mf_awsRegion :: string
  mf_machineStatusStaleAfter :: int

type_synonym given_flags = "string \<Rightarrow> string option"

definition string_flag :: "given_flags \<Rightarrow> string \<Rightarrow> string \<Rightarrow> string" where
  "string_flag given name value = (case given name of None \<Rightarrow> value | Some v \<Rightarrow> v)"

definition parsed_flag :: "(string \<Rightarrow> 'a option) \<Rightarrow> given_flags \<Rightarrow> string \<Rightarrow> 'a \<Rightarrow> 'a option" where
  "parsed_flag parse given name value = (case given name of None \<Rightarrow> Some value | Some v \<Rightarrow> parse v)"

definition manager_flags_of ::
  "('c, 'w, 's, 'k) manager_host \<Rightarrow> given_flags \<Rightarrow> manager_flags option" where
  "manager_flags_of H given =
     (case parsed_flag (mh_parse_bool H) given ''leader-elect'' False of
        None \<Rightarrow> None
      | Some leader \<Rightarrow>
          (case parsed_flag (mh_parse_duration H) given ''machine-status-stale-after'' (seconds 600) of
             None \<Rightarrow> None
           | Some stale \<Rightarrow> Some \<lparr>
               mf_metricsAddr = string_flag given ''metrics-bind-address'' '':8080'',
               mf_healthProbeAddr = string_flag given ''health-probe-bind-address'' '':8081'',
               mf_enableLeaderElection = leader,
               mf_cloudProvider = string_flag given ''cloud-provider'' ''noop'',
               mf_awsRegion = string_flag given ''aws-region'' [],
               mf_machineStatusStaleAfter = stale\<rparr>))"

definition buildCloudManager ::
  "('c, 'w, 's, 'k) manager_host \<Rightarrow> string \<Rightarrow> string \<Rightarrow> 'w cloud_manager result" where
  "buildCloudManager H provider region =
     (if provider = ''aws'' then NewManager (mh_load_config H) (mh_clients H) region
      else if provider = ''noop'' \<or> provider = [] then Inr noop_manager
      else Inl (errorf (''unknown cloud provider '' @ quote provider)))"

datatype 'w manager_process =
    ParseFails
  | Panics string
  | ExitsWith string go_error
  | Serves "'w reconciler"

definition exit_on :: "string \<Rightarrow> go_error option \<Rightarrow> 'w manager_process \<Rightarrow> 'w manager_process" where
  "exit_on msg err rest = (case err of Some e \<Rightarrow> ExitsWith msg e | None \<Rightarrow> rest)"

definition start_controller :: "('c, 'w, 's, 'k) manager_host \<Rightarrow> 'w reconciler \<Rightarrow> 'w manager_process" where
  "start_controller H r =
     exit_on ''unable to create controller'' (mh_complete H r)
     (exit_on ''unable to set up health check'' (mh_healthz H)
     (exit_on ''unable to set up ready check'' (mh_readyz H)
     (exit_on ''problem running manager'' (mh_start H) (Serves r))))"

definition restConfigOrDie :: "('c, 'w, 's, 'k) manager_host \<Rightarrow> string + 'k" where
  "restConfigOrDie H = (case mh_rest_config H of
       Inl e \<Rightarrow> Inl (''get kubernetes rest config: '' @ err_text e) | Inr cfg \<Rightarrow> Inr cfg)"

definition manager_main :: "('c, 'w, 's, 'k) manager_host \<Rightarrow> given_flags \<Rightarrow> 'w manager_process" where
  "manager_main H given =
     (case manager_flags_of H given of
        None \<Rightarrow> ParseFails
      | Some f \<Rightarrow>
          (case restConfigOrDie H of
             Inl msg \<Rightarrow> Panics msg
           | Inr cfg \<Rightarrow>
               (case mh_new_manager H cfg (runtimeScheme (mh_scheme_lib H)) (mf_metricsAddr f)
                       (mf_healthProbeAddr f) (mf_enableLeaderElection f)
                       ''tiproxy-machine-operator-controller'' of
                  Inl e \<Rightarrow> ExitsWith ''unable to start manager'' e
                | Inr client \<Rightarrow>
                    (case buildCloudManager H (mf_cloudProvider f) (mf_awsRegion f) of
                       Inl e \<Rightarrow> ExitsWith ''unable to build cloud manager'' e
                     | Inr cloudManager \<Rightarrow>
                         start_controller H \<lparr>r_Client = client, r_Lib = mh_kube_lib H,
                           r_CloudManager = Some cloudManager, r_Provider = mf_cloudProvider f,
                           r_MachineStatusStaleAfter = mf_machineStatusStaleAfter f\<rparr>))))"

section \<open>The providers of a process that serves\<close>

lemma exit_on_Serves [simp]: "exit_on msg err rest = Serves r \<longleftrightarrow> err = None \<and> rest = Serves r"
  by (simp add: exit_on_def split: option.split)

lemma start_controller_Serves [simp]:
  "start_controller H r = Serves r' \<longleftrightarrow>
     r' = r \<and> mh_complete H r = None \<and> mh_healthz H = None \<and> mh_readyz H = None \<and> mh_start H = None"
  by (auto simp: start_controller_def)

lemma manager_main_Serves:
  assumes "manager_main H given = Serves r"
  obtains f m where "manager_flags_of H given = Some f"
    "buildCloudManager H (mf_cloudProvider f) (mf_awsRegion f) = Inr m"
    "r_CloudManager r = Some m" "r_Provider r = mf_cloudProvider f"
    "r_MachineStatusStaleAfter r = mf_machineStatusStaleAfter f" "r_Lib r = mh_kube_lib H"
  using assms by (auto simp: manager_main_def split: option.splits sum.splits)

lemma buildCloudManager_Inr:
  assumes "buildCloudManager H provider region = Inr m"
  shows "provider = ''aws'' \<and>
      (\<exists>cfg. mh_load_config H (if region = [] then None else Some region) = Inr cfg \<and>
         m = aws_manager (mh_clients H cfg)) \<or>
    provider \<in> {''noop'', []} \<and> m = noop_manager"
  using assms by (auto simp: buildCloudManager_def NewManager_def Let_def split: if_splits sum.splits)

text \<open>The name of the provider in the specification of a group, as the controller compares it.\<close>

definition provider_name :: "machine_group \<Rightarrow> string" where
  "provider_name mg = to_lower (trim_space (sp_Provider (mg_Spec mg)))"

lemma uses_cloud_provider: "uses_cloud mg \<longleftrightarrow> provider_name mg \<notin> {[], ''none'', ''noop''}"
  by (simp add: uses_cloud_def provider_name_def)

lemma plain_provider: "p \<in> {''aws'', ''noop'', []} \<Longrightarrow> to_lower (trim_space p) = p"
  by (elim insertE emptyE) (simp_all, code_simp+)

text \<open>
  C21: In a process that serves, the provider a group asks for is always there or refused by name: groups
  without a cloud get the provider without a cloud; a group on AWS gets the AWS provider over the clients
  of the loaded configuration exactly when the process was started with \<^verbatim>\<open>--cloud-provider=aws\<close>; the
  error of an AWS provider that is missing cannot occur.
\<close>

theorem served_providers:
  assumes "manager_main H given = Serves r" "manager_flags_of H given = Some f"
  shows "\<exists>A. mf_cloudProvider f \<in> {''aws'', ''noop'', []} \<and>
    (mf_cloudProvider f = ''aws'' \<longrightarrow>
      (\<exists>cfg. mh_load_config H (if mf_awsRegion f = [] then None else Some (mf_awsRegion f)) = Inr cfg \<and>
        A = mh_clients H cfg)) \<and>
    cloudManagerFor r mg =
      (if \<not> uses_cloud mg then Inr noop_manager
       else if provider_name mg \<noteq> ''aws'' then
         Inl (errorf (''unsupported spec.provider '' @ quote (provider_name mg)))
       else if mf_cloudProvider f = ''aws'' then Inr (aws_manager A)
       else Inl (errorf (''spec.provider=\"aws\" but controller started with --cloud-provider='' @
         quote (mf_cloudProvider f))))"
proof -
  obtain m where m: "buildCloudManager H (mf_cloudProvider f) (mf_awsRegion f) = Inr m"
    "r_CloudManager r = Some m" "r_Provider r = mf_cloudProvider f"
    using manager_main_Serves [OF assms(1)] assms(2) by (metis option.inject)
  have q: "quote ''aws'' = ''\"aws\"''" by (simp add: quote_plain plain_char_def)
  from buildCloudManager_Inr [OF m(1)] show ?thesis
  proof (elim disjE conjE exE)
    fix cfg assume *: "mf_cloudProvider f = ''aws''"
      "mh_load_config H (if mf_awsRegion f = [] then None else Some (mf_awsRegion f)) = Inr cfg"
      "m = aws_manager (mh_clients H cfg)"
    then show ?thesis
      using plain_provider [of "''aws''"]
      by (intro exI [of _ "mh_clients H cfg"])
        (auto simp: cloudManagerFor_def Let_def m(2,3) uses_cloud_provider provider_name_def [symmetric])
  next
    assume *: "mf_cloudProvider f \<in> {''noop'', []}" "m = noop_manager"
    then have "to_lower (trim_space (mf_cloudProvider f)) = mf_cloudProvider f"
      using plain_provider by blast
    with * show ?thesis
      by (auto simp: cloudManagerFor_def Let_def m(2,3) q uses_cloud_provider provider_name_def [symmetric])
  qed
qed

section \<open>Watches\<close>

text \<open>
  The controller of \<^verbatim>\<open>SetupWithManager\<close> reconciles a group when it changes, and the group that a link or
  a machine port refers to when one of them changes. An update enqueues for the object before and after.
\<close>

datatype api_object = ApiGroup machine_group | ApiLink pool_link | ApiPort machine_port

definition group_name :: "machine_group \<Rightarrow> namespaced_name" where
  "group_name mg = \<lparr>nn_namespace = meta_namespace (mg_meta mg), nn_name = meta_name (mg_meta mg)\<rparr>"

fun enqueued :: "api_object \<Rightarrow> namespaced_name list" where
  "enqueued (ApiGroup mg) = [group_name mg]"
| "enqueued (ApiLink l) = mapToMachineGroup (WatchedLink l)"
| "enqueued (ApiPort p) = mapToMachineGroup (WatchedPort p)"

lemma refers_to_iff: "refers_to ref m mg \<longleftrightarrow> NamespacedName ref (meta_namespace m) = group_name mg"
  by (auto simp: refers_to_def Let_def group_name_def intro: namespaced_name.equality)

lemma enqueued_link:
  "meta_name (mg_meta mg) \<noteq> [] \<Longrightarrow> group_name mg \<in> set (enqueued (ApiLink l)) \<longleftrightarrow>
     refers_to (lks_MachineGroupRef (lk_Spec l)) (lk_meta l) mg"
  by (auto simp: mapToMachineGroup_def Let_def refers_to_iff) (simp add: group_name_def)

lemma enqueued_port:
  "meta_name (mg_meta mg) \<noteq> [] \<Longrightarrow> group_name mg \<in> set (enqueued (ApiPort p)) \<longleftrightarrow>
     refers_to (mps_MachineGroupRef (mp_Spec p)) (mp_meta p) mg"
  by (auto simp: mapToMachineGroup_def Let_def refers_to_iff) (simp add: group_name_def)

text \<open>
  C27: No wake-up is missed: the links and machine ports a reconciliation of a group works with are all among
  those whose change enqueues the group, so objects that do not enqueue it cannot change its outcome, and
  no object enqueues two groups.
\<close>

theorem watches_complete:
  assumes "meta_name (mg_meta mg) \<noteq> []"
  shows "managed_links mg (filter (\<lambda>l. group_name mg \<in> set (enqueued (ApiLink l))) links) = managed_links mg links \<and>
    managed_ports mg (filter (\<lambda>p. group_name mg \<in> set (enqueued (ApiPort p))) ports) = managed_ports mg ports \<and>
    length (enqueued obj) \<le> 1"
proof (intro conjI)
  have "filter (\<lambda>l. \<not> lks_Disabled (lk_Spec l) \<and> refers_to (lks_MachineGroupRef (lk_Spec l)) (lk_meta l) mg)
      (filter (\<lambda>l. refers_to (lks_MachineGroupRef (lk_Spec l)) (lk_meta l) mg) links) =
    filter (\<lambda>l. \<not> lks_Disabled (lk_Spec l) \<and> refers_to (lks_MachineGroupRef (lk_Spec l)) (lk_meta l) mg) links"
    by (simp add: conj_ac cong: conj_cong)
  then show "managed_links mg (filter (\<lambda>l. group_name mg \<in> set (enqueued (ApiLink l))) links) = managed_links mg links"
    by (simp only: managed_links_def enqueued_link [OF assms])
  show "managed_ports mg (filter (\<lambda>p. group_name mg \<in> set (enqueued (ApiPort p))) ports) = managed_ports mg ports"
    by (simp add: managed_ports_def enqueued_port [OF assms] del: enqueued.simps)
  show "length (enqueued obj) \<le> 1"
    by (cases obj) (simp_all add: mapToMachineGroup_def Let_def)
qed

theorem watches_complete_witness:
  "managed_links run_mg (filter (\<lambda>l. group_name run_mg \<in> set (enqueued (ApiLink l))) sample_links) =
     managed_links run_mg sample_links \<and>
   managed_ports run_mg (filter (\<lambda>p. group_name run_mg \<in> set (enqueued (ApiPort p))) sample_ports) =
     managed_ports run_mg sample_ports \<and> length (enqueued (ApiLink run_link)) \<le> 1"
  by (rule watches_complete) (simp add: run_mg_def sample_meta_def)

section \<open>A sample process\<close>

definition sample_manager_host :: "(unit, unit, unit, unit) manager_host" where
  "sample_manager_host = \<lparr>mh_parse_bool = (\<lambda>s. if s = ''true'' then Some True else None),
     mh_parse_duration = (\<lambda>s. if s = ''0s'' then Some 0 else None), mh_rest_config = Inr (),
     mh_scheme_lib = \<lparr>sl_empty = (), sl_add_client_go = id, sl_add_types = (\<lambda>_ _. id), sl_add_meta = (\<lambda>_. id)\<rparr>,
     mh_new_manager = (\<lambda>_ _ _ _ _ _. Inr sample_client), mh_load_config = (\<lambda>_. Inr ()),
     mh_clients = (\<lambda>_. sample_aws sample_asg), mh_kube_lib = sample_lib, mh_complete = (\<lambda>_. None),
     mh_healthz = None, mh_readyz = None, mh_start = None\<rparr>"

definition sample_given :: given_flags where
  "sample_given = [''cloud-provider'' \<mapsto> ''aws'', ''machine-status-stale-after'' \<mapsto> ''0s'']"

theorem served_providers_witness:
  "\<exists>r A. manager_main sample_manager_host sample_given = Serves r \<and>
     cloudManagerFor r run_mg = Inr (aws_manager A)"
proof -
  obtain r f where serves: "manager_main sample_manager_host sample_given = Serves r"
      "manager_flags_of sample_manager_host sample_given = Some f" "mf_cloudProvider f = ''aws''"
    by (simp add: manager_main_def restConfigOrDie_def manager_flags_of_def sample_manager_host_def sample_given_def
        parsed_flag_def string_flag_def buildCloudManager_def NewManager_def)
  have "uses_cloud run_mg" "provider_name run_mg = ''aws''" by code_simp+
  with served_providers [OF serves(1,2), of run_mg] serves show ?thesis by auto
qed

end
