(* ===== verification/Agent_Command.thy ===== *)
theory Agent_Command
  imports Agent Status_Writers Aws_Machines
begin

text \<open>
  The agent process, \<^verbatim>\<open>cmd/tiproxy-machine-agent/main.go\<close>: the flags with their defaults from the
  environment, the machine identity, the Kubernetes client and the loop of the agent. Reading a
  kubeconfig and creating the client are fields of \<open>agent_host\<close>.

  The second half puts the process together with the AWS provider: a machine booted with the user data
  that the provider writes into the launch template runs an agent of its own group.
\<close>

section \<open>Flags\<close>

record ('c, 'w) agent_host =
  ah_env :: "'w agent_env"
  ah_kubeconfig_flag :: "string option"
  ah_parse_duration :: "string \<Rightarrow> int option"
  ah_config_from :: "string \<Rightarrow> 'c result"
  ah_default_config :: "'c result"
  ah_new_client :: "'c \<Rightarrow> 'w agent_env result"

type_synonym given_values = "string \<Rightarrow> string option"

text \<open>
  The flag \<^verbatim>\<open>kubeconfig\<close> may have been registered by a library, with the value \<open>registered\<close>; then the
  default of this program is set on it. The result is the value the flag has afterwards.
\<close>

definition registerKubeconfigFlag :: "string option \<Rightarrow> string \<Rightarrow> string" where
  "registerKubeconfigFlag registered defaultValue =
     (case registered of
        Some v \<Rightarrow> if defaultValue \<noteq> [] then defaultValue else v
      | None \<Rightarrow> defaultValue)"

definition flag_value :: "given_values \<Rightarrow> string \<Rightarrow> string \<Rightarrow> string" where
  "flag_value given name value = (case given name of None \<Rightarrow> value | Some v \<Rightarrow> v)"

record agent_options =
  ao_namespace :: string
  ao_machineGroup :: string
  ao_machineID :: string
  ao_kubeconfig :: string
  ao_syncPeriod :: int
  ao_defaultImage :: string
  ao_dockerHost :: string

definition agent_flags :: "('c, 'w) agent_host \<Rightarrow> given_values \<Rightarrow> agent_options option" where
  "agent_flags H given =
     (let env = getenv (ah_env H);
          kubeconfig = registerKubeconfigFlag (ah_kubeconfig_flag H) (env ''TIPROXY_KUBECONFIG'' []) in
      case (case given ''sync-period'' of None \<Rightarrow> Some 10000000000 | Some v \<Rightarrow> ah_parse_duration H v) of
        None \<Rightarrow> None
      | Some syncPeriod \<Rightarrow> Some \<lparr>
          ao_namespace = flag_value given ''namespace'' (env ''TIPROXY_MACHINE_NAMESPACE'' ''default''),
          ao_machineGroup = flag_value given ''machine-group'' (env ''TIPROXY_MACHINE_GROUP'' []),
          ao_machineID = flag_value given ''machine-id'' (env ''TIPROXY_MACHINE_ID'' []),
          ao_kubeconfig = flag_value given ''kubeconfig'' kubeconfig,
          ao_syncPeriod = syncPeriod,
          ao_defaultImage = flag_value given ''default-image''
            (env ''TIPROXY_DEFAULT_IMAGE'' ''pingcap/tiproxy:latest''),
          ao_dockerHost = flag_value given ''docker-host'' (env ''TIPROXY_DOCKER_HOST'' [])\<rparr>)"

definition buildKubeConfig :: "('c, 'w) agent_host \<Rightarrow> string \<Rightarrow> 'c result" where
  "buildKubeConfig H kubeconfig =
     (if kubeconfig \<noteq> [] then ah_config_from H kubeconfig else ah_default_config H)"

section \<open>The process\<close>

definition agent_of :: "agent_options \<Rightarrow> string \<Rightarrow> agent" where
  "agent_of opts machineID = \<lparr>ag_Namespace = ao_namespace opts, ag_MachineGroup = ao_machineGroup opts,
     ag_MachineID = machineID, ag_SyncPeriod = ao_syncPeriod opts, ag_DefaultImage = ao_defaultImage opts,
     ag_DockerHost = ao_dockerHost opts\<rparr>"

text \<open>
  How the process ends, with the environment it leaves: \<open>Fails\<close> is an exit with status 1, \<open>Stopped\<close> the
  return of the loop after the context is done, \<open>Waiting\<close> a loop that still waits.
\<close>

datatype 'w agent_process = BadFlags | Fails string 'w | Waiting | Stopped 'w

definition fresh_machine :: "'w \<Rightarrow> 'w machine" where
  "fresh_machine w = \<lparr>mc_lastConfigHash = [], mc_docker = None, mc_world = w\<rparr>"

definition run_agent :: "'w agent_env \<Rightarrow> agent \<Rightarrow> run_event list \<Rightarrow> 'w \<Rightarrow> 'w agent_process" where
  "run_agent E a evs w =
     (case Run E a evs (fresh_machine w) of None \<Rightarrow> Waiting | Some m \<Rightarrow> Stopped (mc_world m))"

definition agent_main ::
  "('c, 'w) agent_host \<Rightarrow> given_values \<Rightarrow> run_event list \<Rightarrow> 'w \<Rightarrow> 'w agent_process" where
  "agent_main H given evs w =
     (case agent_flags H given of
        None \<Rightarrow> BadFlags
      | Some opts \<Rightarrow>
          if ao_machineGroup opts = [] then Fails ''missing required flag: --machine-group'' w
          else
            (case ResolveMachineID (ah_env H) (ao_machineID opts) w of (machineID, w) \<Rightarrow>
               (case buildKubeConfig H (ao_kubeconfig opts) of
                  Inl e \<Rightarrow> Fails ''failed to get kube config'' w
                | Inr cfg \<Rightarrow>
                    (case ah_new_client H cfg of
                       Inl e \<Rightarrow> Fails ''failed to create kube client'' w
                     | Inr E \<Rightarrow> run_agent E (agent_of opts machineID) evs w))))"

section \<open>The boot of a machine\<close>

text \<open>
  The flags in \<^verbatim>\<open>deploy/systemd/tiproxy-machine-agent.service\<close>, as functions of the variables of the service.
\<close>

definition service_flags :: "(string \<Rightarrow> string) \<Rightarrow> given_values" where
  "service_flags env = [''namespace'' \<mapsto> env ''TIPROXY_MACHINE_NAMESPACE'',
     ''machine-group'' \<mapsto> env ''TIPROXY_MACHINE_GROUP'', ''machine-id'' \<mapsto> env ''TIPROXY_MACHINE_ID'']"

definition kubeconfig_path :: "machine_group \<Rightarrow> string" where
  "kubeconfig_path mg =
     (let path = trim_space (kc_Path (bs_Kubeconfig (sp_Bootstrap (mg_Spec mg)))) in
      if path = [] then ''/etc/tiproxy-machine-agent/kubeconfig'' else path)"

lemma userData_env:
  assumes "bs_UserData (sp_Bootstrap (mg_Spec mg)) = []"
  obtains rest where "userData mg = env_script mg (kubeconfig_path mg) @ rest"
  using assms by (auto simp: userData_def Let_def kubeconfig_path_def)

text \<open>The lines of the user data that write the file \<^verbatim>\<open>/etc/tiproxy-machine-agent/env\<close> of the service.\<close>

definition env_lines :: "machine_group \<Rightarrow> string list" where
  "env_lines mg = [''cat >/etc/tiproxy-machine-agent/env <<'' @ squote @ ''EOF'' @ squote,
     ''TIPROXY_MACHINE_NAMESPACE='' @ meta_namespace (mg_meta mg),
     ''TIPROXY_MACHINE_GROUP='' @ meta_name (mg_meta mg), ''TIPROXY_KUBECONFIG='' @ kubeconfig_path mg, ''EOF'']"

lemma userData_lines:
  assumes "bs_UserData (sp_Bootstrap (mg_Spec mg)) = []"
    and "one_line (meta_namespace (mg_meta mg))" "one_line (meta_name (mg_meta mg))" "one_line (kubeconfig_path mg)"
  shows "\<exists>first rest. text_lines (userData mg) = first @ env_lines mg @ rest \<and> length first = 3"
proof -
  obtain rest where userData: "userData mg = env_script mg (kubeconfig_path mg) @ rest"
    using userData_env [OF assms(1)] .
  let ?first = "[''#!/bin/bash'', ''set -euxo pipefail'', ''mkdir -p /etc/tiproxy-machine-agent'']"
  have lines: "text_lines (unlines ls @ s) = ls @ text_lines s" if "list_all one_line ls" for ls s
    using that by (induction ls) (simp_all add: text_lines_line)
  have "env_script mg (kubeconfig_path mg) = unlines (?first @ env_lines mg)"
    by (simp only: env_script_def env_lines_def append.simps append_assoc)
  moreover have "list_all one_line (?first @ env_lines mg)" using assms by (simp add: squote_def env_lines_def)
  ultimately have "text_lines (userData mg) = ?first @ env_lines mg @ text_lines rest"
    unfolding userData by (simp only: lines append_assoc)
  then show ?thesis by (intro exI [of _ ?first] exI [of _ "text_lines rest"]) simp
qed

lemma kubeconfig_path_nonempty [simp]: "kubeconfig_path mg \<noteq> []"
  by (simp add: kubeconfig_path_def Let_def)

text \<open>
  C18: From the launch template to the agent. The user data that the AWS provider writes for a group assigns the
  group's namespace, name and kubeconfig path to the variables of the agent's service. In every environment
  in which these three variables have these values, whatever else it contains, the service runs, once the
  kubeconfig gives a client, the agent of this group: under its namespace and name, with a machine identity
  that is not empty, with the default image of the environment if it names one, and with no default left to
  apply.
\<close>

theorem booted_machine_joins_group:
  assumes "bs_UserData (sp_Bootstrap (mg_Spec mg)) = []" "env = ae_getenv (ah_env H)"
    and "one_line (meta_namespace (mg_meta mg))" "one_line (meta_name (mg_meta mg))" "one_line (kubeconfig_path mg)"
    and "env ''TIPROXY_MACHINE_NAMESPACE'' = meta_namespace (mg_meta mg)" "meta_namespace (mg_meta mg) \<noteq> []"
    and "env ''TIPROXY_MACHINE_GROUP'' = meta_name (mg_meta mg)" "meta_name (mg_meta mg) \<noteq> []"
    and "env ''TIPROXY_KUBECONFIG'' = kubeconfig_path mg"
    and "ah_config_from H (kubeconfig_path mg) = Inr cfg" "ah_new_client H cfg = Inr E"
  shows "(\<exists>first rest. text_lines (userData mg) = first @ env_lines mg @ rest \<and> length first = 3) \<and>
    (\<exists>a w'. agent_main H (service_flags env) evs w = run_agent E a evs w' \<and>
       ag_Namespace a = meta_namespace (mg_meta mg) \<and> ag_MachineGroup a = meta_name (mg_meta mg) \<and>
       (ag_MachineID a, w') = ResolveMachineID (ah_env H) (env ''TIPROXY_MACHINE_ID'') w \<and> ag_MachineID a \<noteq> [] \<and>
       ag_DefaultImage a = (if env ''TIPROXY_DEFAULT_IMAGE'' \<noteq> [] then env ''TIPROXY_DEFAULT_IMAGE''
         else ''pingcap/tiproxy:latest'') \<and>
       ag_DockerHost a = env ''TIPROXY_DOCKER_HOST'' \<and> with_defaults a = a)"
proof -
  have host: "ae_getenv (ah_env H) k = env k" for k by (simp add: assms(2))
  define opts where "opts = \<lparr>ao_namespace = meta_namespace (mg_meta mg), ao_machineGroup = meta_name (mg_meta mg),
    ao_machineID = env ''TIPROXY_MACHINE_ID'', ao_kubeconfig = kubeconfig_path mg, ao_syncPeriod = 10000000000,
    ao_defaultImage = (if env ''TIPROXY_DEFAULT_IMAGE'' \<noteq> [] then env ''TIPROXY_DEFAULT_IMAGE'' else ''pingcap/tiproxy:latest''),
    ao_dockerHost = env ''TIPROXY_DOCKER_HOST''\<rparr>"
  have flags: "agent_flags H (service_flags env) = Some opts"
    using assms(6,8,10) by (auto simp: agent_flags_def Let_def flag_value_def service_flags_def getenv_def host
        registerKubeconfigFlag_def opts_def split: option.split)
  obtain machineID w' where id: "ResolveMachineID (ah_env H) (env ''TIPROXY_MACHINE_ID'') w = (machineID, w')"
    by (rule prod.exhaust)
  have "machineID \<noteq> []" using ResolveMachineID_nonempty [of "ah_env H" "env ''TIPROXY_MACHINE_ID''" w] id by simp
  moreover have "agent_main H (service_flags env) evs w = run_agent E (agent_of opts machineID) evs w'"
    using assms(9) by (simp add: agent_main_def flags opts_def id buildKubeConfig_def assms(11,12))
  ultimately have "\<exists>a w'. agent_main H (service_flags env) evs w = run_agent E a evs w' \<and>
       ag_Namespace a = meta_namespace (mg_meta mg) \<and> ag_MachineGroup a = meta_name (mg_meta mg) \<and>
       (ag_MachineID a, w') = ResolveMachineID (ah_env H) (env ''TIPROXY_MACHINE_ID'') w \<and> ag_MachineID a \<noteq> [] \<and>
       ag_DefaultImage a = (if env ''TIPROXY_DEFAULT_IMAGE'' \<noteq> [] then env ''TIPROXY_DEFAULT_IMAGE''
         else ''pingcap/tiproxy:latest'') \<and>
       ag_DockerHost a = env ''TIPROXY_DOCKER_HOST'' \<and> with_defaults a = a"
    using assms(7) by (intro exI [of _ "agent_of opts machineID"] exI [of _ w'])
      (simp add: agent_of_def with_defaults_def opts_def id)
  then show ?thesis using userData_lines [OF assms(1,3-5)] by blast
qed

text \<open>A machine whose environment names no group does nothing.\<close>

lemma agent_main_without_group:
  assumes "agent_flags H given = Some opts" "ao_machineGroup opts = []"
  shows "agent_main H given evs w = Fails ''missing required flag: --machine-group'' w"
  using assms by (simp add: agent_main_def)

section \<open>A sample machine\<close>

text \<open>The variables of a service on a machine of the group \<^verbatim>\<open>ns/g\<close>, with a search path and an image.\<close>

definition service_variables :: "string \<Rightarrow> string" where
  "service_variables k = (case map_of [(''TIPROXY_MACHINE_NAMESPACE'', ''ns''), (''TIPROXY_MACHINE_GROUP'', ''g''),
     (''TIPROXY_KUBECONFIG'', ''/etc/tiproxy-machine-agent/kubeconfig''), (''PATH'', ''/usr/bin:/bin''),
     (''TIPROXY_DEFAULT_IMAGE'', ''mirror/tiproxy:v1'')] k of None \<Rightarrow> [] | Some v \<Rightarrow> v)"

definition sample_agent_host :: "(unit, machine_group) agent_host" where
  "sample_agent_host = \<lparr>
     ah_env = (sample_env id)\<lparr>ae_getenv := service_variables\<rparr>,
     ah_kubeconfig_flag = Some [], ah_parse_duration = (\<lambda>_. None), ah_config_from = (\<lambda>_. Inr ()),
     ah_default_config = Inl (errorf ''no config''), ah_new_client = (\<lambda>_. Inr (sample_env id))\<rparr>"

theorem booted_machine_joins_group_witness:
  "\<exists>a w'. agent_main sample_agent_host (service_flags service_variables) [] sample_mg =
     run_agent (sample_env id) a [] w' \<and> ag_Namespace a = ''ns'' \<and> ag_MachineGroup a = ''g'' \<and>
     ag_DefaultImage a = ''mirror/tiproxy:v1''"
proof -
  have mg: "bs_UserData (sp_Bootstrap (mg_Spec sample_mg)) = []"
    "meta_namespace (mg_meta sample_mg) = ''ns''" "meta_name (mg_meta sample_mg) = ''g''"
    by (simp_all add: sample_group)
  have path: "kubeconfig_path sample_mg = ''/etc/tiproxy-machine-agent/kubeconfig''"
    by (simp add: kubeconfig_path_def sample_group)
  have host: "ae_getenv (ah_env sample_agent_host) = service_variables" by (simp add: sample_agent_host_def)
  show ?thesis
    using booted_machine_joins_group [of sample_mg service_variables sample_agent_host "()" "sample_env id" "[]" sample_mg]
    by (auto simp: mg path host service_variables_def) (auto simp: sample_agent_host_def)
qed

end
