(* ===== verification/Go_Heap.thy ===== *)
theory Go_Heap
  imports Prelude
begin

text \<open>
  Go data with references, for the code whose point is aliasing: a heap of cells, values that hold
  addresses, the layouts of Go types, and the copying idioms of the generated deep copies. \<open>read\<close> follows
  the references of a value and gives the tree it stands for, with the addresses it goes through.

  \<open>copies l f\<close> is the contract of a copier for a layout: the copy reads as the original, only adds cells
  to the heap, and goes through none of the cells that were there before. Each idiom has a lemma that
  derives its contract from those of its parts (\<open>copy_rules\<close>).
\<close>

named_theorems copy_rules \<open>contracts of copiers\<close>

section \<open>Values, cells and heaps\<close>

text \<open>A slice has the address of its array, the offset and the length; nil is \<open>VNil\<close>.\<close>

datatype gval =
    VStr string
  | VInt int
  | VBool bool
  | VNil
  | VPtr nat
  | VSlice nat nat nat
  | VMap nat
  | VStruct "(string \<times> gval) list"

datatype cell = CVal gval | CArr "gval list" | CMap "(string \<times> gval) list"

type_synonym heap = "cell list"

definition cell_at :: "heap \<Rightarrow> nat \<Rightarrow> cell option" where
  "cell_at h a = (if a < length h then Some (h ! a) else None)"

lemma cell_at_append: "cell_at h a = Some c \<Longrightarrow> cell_at (h @ h') a = Some c"
  by (auto simp: cell_at_def nth_append split: if_splits)

lemma cell_at_new [simp]: "cell_at (h @ [c]) (length h) = Some c"
  by (simp add: cell_at_def)

lemma cell_at_bound: "cell_at h a = Some c \<Longrightarrow> a < length h"
  by (simp add: cell_at_def split: if_splits)

lemma cell_at_prefix: "prefix h h' \<Longrightarrow> cell_at h a = Some c \<Longrightarrow> cell_at h' a = Some c"
  by (auto simp: prefix_def cell_at_append)

section \<open>Layouts and reading\<close>

datatype layout =
    String_t
  | Int_t
  | Bool_t
  | Ptr_t layout
  | Slice_t layout
  | Map_t layout
  | Struct_t "(string \<times> layout) list"

datatype tree =
    LStr string
  | LInt int
  | LBool bool
  | Absent
  | Pointee tree
  | Elems "tree list"
  | Entries "(string \<times> tree) list"
  | Fields "(string \<times> tree) list"

function read :: "layout \<Rightarrow> heap \<Rightarrow> gval \<Rightarrow> (tree \<times> nat list) option"
  and read_each :: "layout \<Rightarrow> heap \<Rightarrow> gval list \<Rightarrow> (tree list \<times> nat list) option"
  and read_fields :: "(string \<times> layout) list \<Rightarrow> heap \<Rightarrow> (string \<times> gval) list \<Rightarrow>
    ((string \<times> tree) list \<times> nat list) option" where
  "read String_t h v = (case v of VStr s \<Rightarrow> Some (LStr s, []) | _ \<Rightarrow> None)"
| "read Int_t h v = (case v of VInt i \<Rightarrow> Some (LInt i, []) | _ \<Rightarrow> None)"
| "read Bool_t h v = (case v of VBool b \<Rightarrow> Some (LBool b, []) | _ \<Rightarrow> None)"
| "read (Ptr_t l) h v =
     (case v of
        VNil \<Rightarrow> Some (Absent, [])
      | VPtr a \<Rightarrow>
          (case cell_at h a of
             Some (CVal w) \<Rightarrow> map_option (\<lambda>(t, A). (Pointee t, a # A)) (read l h w)
           | _ \<Rightarrow> None)
      | _ \<Rightarrow> None)"
| "read (Slice_t l) h v =
     (case v of
        VNil \<Rightarrow> Some (Absent, [])
      | VSlice a off n \<Rightarrow>
          (case cell_at h a of
             Some (CArr ws) \<Rightarrow>
               if off + n \<le> length ws
               then map_option (\<lambda>(ts, A). (Elems ts, a # A)) (read_each l h (take n (drop off ws)))
               else None
           | _ \<Rightarrow> None)
      | _ \<Rightarrow> None)"
| "read (Map_t l) h v =
     (case v of
        VNil \<Rightarrow> Some (Absent, [])
      | VMap a \<Rightarrow>
          (case cell_at h a of
             Some (CMap kvs) \<Rightarrow>
               map_option (\<lambda>(ts, A). (Entries (zip (map fst kvs) ts), a # A)) (read_each l h (map snd kvs))
           | _ \<Rightarrow> None)
      | _ \<Rightarrow> None)"
| "read (Struct_t ls) h v =
     (case v of
        VStruct fs \<Rightarrow> map_option (\<lambda>(us, A). (Fields us, A)) (read_fields ls h fs)
      | _ \<Rightarrow> None)"
| "read_each l h [] = Some ([], [])"
| "read_each l h (v # vs) =
     (case read l h v of
        None \<Rightarrow> None
      | Some (t, A) \<Rightarrow> map_option (\<lambda>(ts, B). (t # ts, A @ B)) (read_each l h vs))"
| "read_fields [] h fs = (if fs = [] then Some ([], []) else None)"
| "read_fields ((n, l) # ls) h fs =
     (case fs of
        [] \<Rightarrow> None
      | (m, v) # fs \<Rightarrow>
          if m = n then
            (case read l h v of
               None \<Rightarrow> None
             | Some (t, A) \<Rightarrow> map_option (\<lambda>(us, B). ((n, t) # us, A @ B)) (read_fields ls h fs))
          else None)"
  by pat_completeness auto

termination
  by (relation "measures [
      case_sum (\<lambda>(l, h, v). size l) (case_sum (\<lambda>(l, h, vs). size l) (\<lambda>(ls, h, fs). size_list (size_prod (\<lambda>_. 0) size) ls)),
      case_sum (\<lambda>_. 0) (case_sum (\<lambda>(l, h, vs). Suc (length vs)) (\<lambda>_. 0))]") auto

text \<open>A value reads the same in every heap that agrees on the cells it goes through.\<close>

lemma read_agree_aux:
  "read l h v = Some (t, A) \<Longrightarrow> (\<And>a. a \<in> set A \<Longrightarrow> cell_at h' a = cell_at h a) \<Longrightarrow> read l h' v = Some (t, A)"
  "read_each l h vs = Some (ts, A) \<Longrightarrow> (\<And>a. a \<in> set A \<Longrightarrow> cell_at h' a = cell_at h a) \<Longrightarrow>
     read_each l h' vs = Some (ts, A)"
  "read_fields ls h fs = Some (us, A) \<Longrightarrow> (\<And>a. a \<in> set A \<Longrightarrow> cell_at h' a = cell_at h a) \<Longrightarrow>
     read_fields ls h' fs = Some (us, A)"
proof (induction l h v and l h vs and ls h fs arbitrary: t A and ts A and us A
    rule: read_read_each_read_fields.induct)
qed (fastforce split: gval.splits option.splits cell.splits if_splits list.splits)+

lemmas read_agree = read_agree_aux(1)

lemma read_bounds_aux:
  "read l h v = Some (t, A) \<Longrightarrow> \<forall>a\<in>set A. a < length h"
  "read_each l h vs = Some (ts, A) \<Longrightarrow> \<forall>a\<in>set A. a < length h"
  "read_fields ls h fs = Some (us, A) \<Longrightarrow> \<forall>a\<in>set A. a < length h"
proof (induction l h v and l h vs and ls h fs arbitrary: t A and ts A and us A
    rule: read_read_each_read_fields.induct)
qed (fastforce dest: cell_at_bound split: gval.splits option.splits cell.splits if_splits list.splits)+

lemma prefix_agree: "prefix h h' \<Longrightarrow> a < length h \<Longrightarrow> cell_at h' a = cell_at h a"
  by (auto simp: prefix_def cell_at_def nth_append)

lemma read_prefix: "read l h v = Some (t, A) \<Longrightarrow> prefix h h' \<Longrightarrow> read l h' v = Some (t, A)"
  by (rule read_agree) (use read_bounds_aux(1) in \<open>blast intro: prefix_agree\<close>)+

lemma read_each_prefix: "read_each l h vs = Some (ts, A) \<Longrightarrow> prefix h h' \<Longrightarrow> read_each l h' vs = Some (ts, A)"
  by (rule read_agree_aux(2)) (use read_bounds_aux(2) in \<open>blast intro: prefix_agree\<close>)+

lemma read_fields_prefix:
  "read_fields ls h fs = Some (us, A) \<Longrightarrow> prefix h h' \<Longrightarrow> read_fields ls h' fs = Some (us, A)"
  by (rule read_agree_aux(3)) (use read_bounds_aux(3) in \<open>blast intro: prefix_agree\<close>)+

lemma read_each_length: "read_each l h vs = Some (ts, A) \<Longrightarrow> length ts = length vs"
  by (induction vs arbitrary: ts A) (auto split: option.splits)

section \<open>Copiers\<close>

text \<open>
  A copier gives the value that the generated code writes to \<^verbatim>\<open>*out\<close> for the value \<^verbatim>\<open>*in\<close>, and the heap
  with the cells it has allocated. The functions below are the idioms of the generated code: an assignment;
  a pointer with \<^verbatim>\<open>new\<close>; a slice with \<^verbatim>\<open>make\<close> and \<^verbatim>\<open>copy\<close> or a loop; a map with \<^verbatim>\<open>make\<close> and a loop; and
  \<^verbatim>\<open>*out = *in\<close> followed by the copies of single fields, which are in the order of the struct. A cell is
  added to the heap when its content is complete; nobody else can know its address before.
\<close>

type_synonym copier = "gval \<Rightarrow> heap \<Rightarrow> gval \<times> heap"

definition plain :: copier where
  "plain v h = (v, h)"

definition new_ptr :: "copier \<Rightarrow> copier" where
  "new_ptr f v h =
     (case v of
        VPtr a \<Rightarrow>
          (case cell_at h a of
             Some (CVal w) \<Rightarrow> (case f w h of (w, h) \<Rightarrow> (VPtr (length h), h @ [CVal w]))
           | _ \<Rightarrow> (v, h))
      | _ \<Rightarrow> (v, h))"

fun copy_each :: "copier \<Rightarrow> gval list \<Rightarrow> heap \<Rightarrow> gval list \<times> heap" where
  "copy_each f [] h = ([], h)"
| "copy_each f (v # vs) h =
     (case f v h of (v, h) \<Rightarrow> (case copy_each f vs h of (vs, h) \<Rightarrow> (v # vs, h)))"

definition new_slice :: "copier \<Rightarrow> copier" where
  "new_slice f v h =
     (case v of
        VSlice a off n \<Rightarrow>
          (case cell_at h a of
             Some (CArr ws) \<Rightarrow>
               (case copy_each f (take n (drop off ws)) h of (vs, h) \<Rightarrow>
                  (VSlice (length h) 0 n, h @ [CArr vs]))
           | _ \<Rightarrow> (v, h))
      | _ \<Rightarrow> (v, h))"

definition new_map :: "copier \<Rightarrow> copier" where
  "new_map f v h =
     (case v of
        VMap a \<Rightarrow>
          (case cell_at h a of
             Some (CMap kvs) \<Rightarrow>
               (case copy_each f (map snd kvs) h of (vs, h) \<Rightarrow>
                  (VMap (length h), h @ [CMap (zip (map fst kvs) vs)]))
           | _ \<Rightarrow> (v, h))
      | _ \<Rightarrow> (v, h))"

text \<open>A value that is copied through a pointer of its own, \<^verbatim>\<open>*val.DeepCopy()\<close>.\<close>

definition through_ptr :: "copier \<Rightarrow> copier" where
  "through_ptr f v h = (case f v h of (w, h) \<Rightarrow> (w, h @ [CVal w]))"

fun copy_fields :: "(string \<times> copier) list \<Rightarrow> (string \<times> gval) list \<Rightarrow> heap \<Rightarrow>
  (string \<times> gval) list \<times> heap" where
  "copy_fields fs [] h = ([], h)"
| "copy_fields fs ((n, v) # vs) h =
     (case (case map_of fs n of None \<Rightarrow> (v, h) | Some f \<Rightarrow> f v h) of (v, h) \<Rightarrow>
        (case copy_fields fs vs h of (vs, h) \<Rightarrow> ((n, v) # vs, h)))"

definition copy_struct :: "(string \<times> copier) list \<Rightarrow> copier" where
  "copy_struct fs v h =
     (case v of VStruct vs \<Rightarrow> (case copy_fields fs vs h of (vs, h) \<Rightarrow> (VStruct vs, h)) | _ \<Rightarrow> (v, h))"

section \<open>The contract\<close>

definition copies :: "layout \<Rightarrow> copier \<Rightarrow> bool" where
  "copies l f \<longleftrightarrow> (\<forall>h v t A. read l h v = Some (t, A) \<longrightarrow>
     (case f v h of (v', h') \<Rightarrow> prefix h h' \<and>
        (\<exists>A'. read l h' v' = Some (t, A') \<and> (\<forall>a\<in>set A'. length h \<le> a))))"

lemma copiesI:
  assumes "\<And>h v t A v' h'. read l h v = Some (t, A) \<Longrightarrow> f v h = (v', h') \<Longrightarrow>
    prefix h h' \<and> (\<exists>A'. read l h' v' = Some (t, A') \<and> (\<forall>a\<in>set A'. length h \<le> a))"
  shows "copies l f"
  unfolding copies_def
proof (intro allI impI)
  fix h v t A assume "read l h v = Some (t, A)"
  from assms [OF this] show "case f v h of (v', h') \<Rightarrow> prefix h h' \<and>
      (\<exists>A'. read l h' v' = Some (t, A') \<and> (\<forall>a\<in>set A'. length h \<le> a))"
    by (cases "f v h") simp
qed

lemma copiesE:
  assumes "copies l f" "read l h v = Some (t, A)"
  obtains v' h' A' where "f v h = (v', h')" "prefix h h'" "read l h' v' = Some (t, A')" "\<forall>a\<in>set A'. length h \<le> a"
  using assms unfolding copies_def by (cases "f v h") fastforce

text \<open>A layout without references: an assignment copies it.\<close>

fun flat :: "layout \<Rightarrow> bool" where
  "flat (Ptr_t l) = False"
| "flat (Slice_t l) = False"
| "flat (Map_t l) = False"
| "flat (Struct_t ls) = list_all (\<lambda>(n, l). flat l) ls"
| "flat _ = True"

lemma flat_fields:
  assumes "\<And>l v t A. l \<in> snd ` set ls \<Longrightarrow> read l h v = Some (t, A) \<Longrightarrow> A = []"
  shows "read_fields ls h fs = Some (us, A) \<Longrightarrow> A = []"
  using assms
proof (induction ls arbitrary: fs us A)
  case (Cons x ls)
  then show ?case by (cases x) (fastforce split: list.splits if_splits option.splits)
qed (simp split: if_splits)

lemma flat_read: "flat l \<Longrightarrow> read l h v = Some (t, A) \<Longrightarrow> A = []"
proof (induction l arbitrary: v t A rule: flat.induct)
  case (4 ls)
  then obtain fs us where fs: "read_fields ls h fs = Some (us, A)" by (auto split: gval.splits)
  show ?case
    by (rule flat_fields [OF _ fs]) (use 4 in \<open>force simp: list_all_iff\<close>)
qed (auto split: gval.splits)

lemma copies_plain [copy_rules]: "flat l \<Longrightarrow> copies l plain"
  by (rule copiesI) (auto simp: plain_def dest: flat_read)

lemma copies_ptr [copy_rules]:
  assumes "copies l f"
  shows "copies (Ptr_t l) (new_ptr f)"
proof (rule copiesI)
  fix h v t A v' h'
  assume rd: "read (Ptr_t l) h v = Some (t, A)" and cp: "new_ptr f v h = (v', h')"
  show "prefix h h' \<and> (\<exists>A'. read (Ptr_t l) h' v' = Some (t, A') \<and> (\<forall>a\<in>set A'. length h \<le> a))"
  proof (cases "v = VNil")
    case False
    with rd obtain a w s B where a: "v = VPtr a" "cell_at h a = Some (CVal w)" "read l h w = Some (s, B)"
      "t = Pointee s" by (auto split: gval.splits option.splits cell.splits)
    from copiesE [OF assms a(3)] obtain w' h1 B' where c: "f w h = (w', h1)" "prefix h h1"
      "read l h1 w' = Some (s, B')" "\<forall>a\<in>set B'. length h \<le> a" .
    then have "v' = VPtr (length h1)" "h' = h1 @ [CVal w']"
      using cp a by (simp_all add: new_ptr_def)
    with a c read_prefix [OF c(3), of h'] prefix_length_le [OF c(2)] show ?thesis
      by (auto intro: prefix_prefix)
  qed (use rd cp in \<open>auto simp: new_ptr_def\<close>)
qed

lemma copy_each_copies:
  assumes "copies l f" "read_each l h vs = Some (ts, A)" "copy_each f vs h = (vs', h')"
  shows "prefix h h' \<and> (\<exists>A'. read_each l h' vs' = Some (ts, A') \<and> (\<forall>a\<in>set A'. length h \<le> a))"
  using assms(2,3)
proof (induction vs arbitrary: h ts A vs')
  case (Cons v vs)
  then obtain t B ts1 B1 where rd: "read l h v = Some (t, B)" "read_each l h vs = Some (ts1, B1)"
    "ts = t # ts1" by (auto split: option.splits)
  from copiesE [OF assms(1) rd(1)] obtain v1 h1 C where c: "f v h = (v1, h1)" "prefix h h1"
    "read l h1 v1 = Some (t, C)" "\<forall>a\<in>set C. length h \<le> a" .
  obtain vs1 where vs1: "copy_each f vs h1 = (vs1, h')" "vs' = v1 # vs1"
    using Cons.prems(2) c(1) by (auto split: prod.splits)
  from Cons.IH [OF read_each_prefix [OF rd(2) c(2)] vs1(1)] obtain C1 where d: "prefix h1 h'"
    "read_each l h' vs1 = Some (ts1, C1)" "\<forall>a\<in>set C1. length h1 \<le> a" by blast
  show ?case
    using c d rd vs1 read_prefix [OF c(3) d(1)] prefix_length_le [OF c(2)]
    by (force intro: prefix_order.trans)
qed simp

lemma copies_slice [copy_rules]:
  assumes "copies l f"
  shows "copies (Slice_t l) (new_slice f)"
proof (rule copiesI)
  fix h v t A v' h'
  assume rd: "read (Slice_t l) h v = Some (t, A)" and cp: "new_slice f v h = (v', h')"
  show "prefix h h' \<and> (\<exists>A'. read (Slice_t l) h' v' = Some (t, A') \<and> (\<forall>a\<in>set A'. length h \<le> a))"
  proof (cases "v = VNil")
    case False
    with rd obtain a off n ws ts B where a: "v = VSlice a off n" "cell_at h a = Some (CArr ws)"
      "off + n \<le> length ws" "read_each l h (take n (drop off ws)) = Some (ts, B)" "t = Elems ts"
      by (auto split: gval.splits option.splits cell.splits if_splits)
    obtain vs h1 where c: "copy_each f (take n (drop off ws)) h = (vs, h1)" by (rule prod.exhaust)
    from copy_each_copies [OF assms a(4) c] obtain B' where d: "prefix h h1"
      "read_each l h1 vs = Some (ts, B')" "\<forall>a\<in>set B'. length h \<le> a" by blast
    have h': "v' = VSlice (length h1) 0 n" "h' = h1 @ [CArr vs]"
      using cp a c by (simp_all add: new_slice_def)
    have "length vs = n" using read_each_length [OF a(4)] read_each_length [OF d(2)] a(3) by simp
    with a d h' read_each_prefix [OF d(2), of h'] prefix_length_le [OF d(1)] show ?thesis
      by (auto intro: prefix_prefix)
  qed (use rd cp in \<open>auto simp: new_slice_def\<close>)
qed

lemma copies_map [copy_rules]:
  assumes "copies l f"
  shows "copies (Map_t l) (new_map f)"
proof (rule copiesI)
  fix h v t A v' h'
  assume rd: "read (Map_t l) h v = Some (t, A)" and cp: "new_map f v h = (v', h')"
  show "prefix h h' \<and> (\<exists>A'. read (Map_t l) h' v' = Some (t, A') \<and> (\<forall>a\<in>set A'. length h \<le> a))"
  proof (cases "v = VNil")
    case False
    with rd obtain a kvs ts B where a: "v = VMap a" "cell_at h a = Some (CMap kvs)"
      "read_each l h (map snd kvs) = Some (ts, B)" "t = Entries (zip (map fst kvs) ts)"
      by (auto split: gval.splits option.splits cell.splits)
    obtain vs h1 where c: "copy_each f (map snd kvs) h = (vs, h1)" by (rule prod.exhaust)
    from copy_each_copies [OF assms a(3) c] obtain B' where d: "prefix h h1"
      "read_each l h1 vs = Some (ts, B')" "\<forall>a\<in>set B'. length h \<le> a" by blast
    have h': "v' = VMap (length h1)" "h' = h1 @ [CMap (zip (map fst kvs) vs)]"
      using cp a c by (simp_all add: new_map_def)
    have "length vs = length kvs" using read_each_length [OF a(3)] read_each_length [OF d(2)] by simp
    with a d h' read_each_prefix [OF d(2), of h'] prefix_length_le [OF d(1)] show ?thesis
      by (auto intro: prefix_prefix)
  qed (use rd cp in \<open>auto simp: new_map_def\<close>)
qed

lemma copies_through_ptr [copy_rules]:
  assumes "copies l f"
  shows "copies l (through_ptr f)"
proof (rule copiesI)
  fix h v t A v' h'
  assume rd: "read l h v = Some (t, A)" and cp: "through_ptr f v h = (v', h')"
  from copiesE [OF assms rd] obtain w h1 B where c: "f v h = (w, h1)" "prefix h h1"
    "read l h1 w = Some (t, B)" "\<forall>a\<in>set B. length h \<le> a" .
  then have "v' = w" "h' = h1 @ [CVal w]" using cp by (auto simp: through_ptr_def)
  with c read_prefix [OF c(3), of h']
  show "prefix h h' \<and> (\<exists>A'. read l h' v' = Some (t, A') \<and> (\<forall>a\<in>set A'. length h \<le> a))"
    by (auto intro: prefix_prefix)
qed

definition copier_of :: "(string \<times> copier) list \<Rightarrow> string \<Rightarrow> copier" where
  "copier_of fs n = (case map_of fs n of None \<Rightarrow> plain | Some f \<Rightarrow> f)"

lemma copy_fields_copies:
  assumes "\<And>n l. (n, l) \<in> set ls \<Longrightarrow> copies l (copier_of fs n)"
    and "read_fields ls h vs = Some (us, A)" "copy_fields fs vs h = (vs', h')"
  shows "prefix h h' \<and> (\<exists>A'. read_fields ls h' vs' = Some (us, A') \<and> (\<forall>a\<in>set A'. length h \<le> a))"
  using assms
proof (induction ls arbitrary: h vs us A vs')
  case Nil
  then show ?case by (auto split: if_splits)
next
  case (Cons x ls)
  obtain n l where x: "x = (n, l)" by (rule prod.exhaust)
  with Cons.prems(2) obtain v ws t B us1 B1 where rd: "vs = (n, v) # ws" "read l h v = Some (t, B)"
    "read_fields ls h ws = Some (us1, B1)" "us = (n, t) # us1"
    by (auto split: option.splits list.splits if_splits)
  from copiesE [OF Cons.prems(1) rd(2), of n] x obtain v1 h1 C where c: "copier_of fs n v h = (v1, h1)"
    "prefix h h1" "read l h1 v1 = Some (t, C)" "\<forall>a\<in>set C. length h \<le> a" by auto
  obtain ws1 where ws1: "copy_fields fs ws h1 = (ws1, h')" "vs' = (n, v1) # ws1"
    using Cons.prems(3) c(1) rd(1)
    by (auto simp: copier_of_def plain_def split: prod.splits option.splits)
  from Cons.IH [OF Cons.prems(1) read_fields_prefix [OF rd(3) c(2)] ws1(1)] obtain C1 where
    d: "prefix h1 h'" "read_fields ls h' ws1 = Some (us1, C1)" "\<forall>a\<in>set C1. length h1 \<le> a" by auto
  show ?case
    using c d rd ws1 x read_prefix [OF c(3) d(1)] prefix_length_le [OF c(2)]
    by (force intro: prefix_order.trans)
qed

lemma copies_struct [copy_rules]:
  assumes "list_all (\<lambda>(n, l). copies l (copier_of fs n)) ls"
  shows "copies (Struct_t ls) (copy_struct fs)"
proof (rule copiesI)
  fix h v t A v' h'
  assume rd: "read (Struct_t ls) h v = Some (t, A)" and cp: "copy_struct fs v h = (v', h')"
  then obtain vs us where v: "v = VStruct vs" "read_fields ls h vs = Some (us, A)" "t = Fields us"
    by (auto split: gval.splits)
  obtain vs' where vs': "copy_fields fs vs h = (vs', h')" "v' = VStruct vs'"
    using cp v(1) by (auto simp: copy_struct_def split: prod.splits)
  from copy_fields_copies [OF _ v(2) vs'(1)] assms v(3) vs'(2)
  show "prefix h h' \<and> (\<exists>A'. read (Struct_t ls) h' v' = Some (t, A') \<and> (\<forall>a\<in>set A'. length h \<le> a))"
    by (fastforce simp: list_all_iff)
qed

section \<open>What a copy is good for\<close>

text \<open>
  After a copy, whatever is stored in the cells that existed before leaves the copy as it was, and
  whatever is stored in the cells of the copy leaves the original as it was.
\<close>

lemma copies_isolated:
  assumes "copies l f" "read l h v = Some (t, A)" "f v h = (v', h')"
  shows "\<exists>A'. read l h' v' = Some (t, A') \<and> set A' \<inter> set A = {} \<and>
    (\<forall>h''. (\<forall>a. length h \<le> a \<longrightarrow> cell_at h'' a = cell_at h' a) \<longrightarrow> read l h'' v' = Some (t, A')) \<and>
    (\<forall>h''. (\<forall>a<length h. cell_at h'' a = cell_at h a) \<longrightarrow> read l h'' v = Some (t, A))"
proof -
  obtain v1 h1 A' where c1: "f v h = (v1, h1)" "read l h1 v1 = Some (t, A')" "\<forall>a\<in>set A'. length h \<le> a"
    by (rule copiesE [OF assms(1,2)])
  then have c: "read l h' v' = Some (t, A')" "\<forall>a\<in>set A'. length h \<le> a" using assms(3) by simp_all
  have old: "\<forall>a\<in>set A. a < length h" by (rule read_bounds_aux(1) [OF assms(2)])
  show ?thesis
  proof (intro exI [of _ A'] conjI allI impI)
    show "set A' \<inter> set A = {}" using c(2) old by fastforce
    show "read l h'' v' = Some (t, A')" if "\<forall>a. length h \<le> a \<longrightarrow> cell_at h'' a = cell_at h' a" for h''
      by (rule read_agree [OF c(1)]) (use that c(2) in blast)
    show "read l h'' v = Some (t, A)" if "\<forall>a<length h. cell_at h'' a = cell_at h a" for h''
      by (rule read_agree [OF assms(2)]) (use that old in blast)
  qed (rule c(1))
qed

end
