(* ===== verification/Deep_Copy.thy ===== *)
theory Deep_Copy
  imports Go_Heap
begin

text \<open>
  The deep copies of \<^verbatim>\<open>api/v1alpha1/zz_generated.deepcopy.go\<close>, on the heap of \<open>Go_Heap\<close>: for every struct of
  the API its layout, with the fields in the order of the Go type, its \<^verbatim>\<open>DeepCopyInto\<close> and \<^verbatim>\<open>DeepCopy\<close>, and
  for the objects \<^verbatim>\<open>DeepCopyObject\<close>. A field that a \<^verbatim>\<open>DeepCopyInto\<close> does not name, or that it copies by
  a plain assignment, is copied by \<^verbatim>\<open>*out = *in\<close>; the lemma of a type holds only if such a field is free
  of references, so a field that the generated code had missed would break it.

  The rest of the development models these objects as values and a \<^verbatim>\<open>DeepCopy\<close> as the value itself;
  \<open>DeepCopy_isolates\<close> is what makes this right. Layout and copier of the types of the Kubernetes
  libraries are parameters, under the documented law that their \<^verbatim>\<open>DeepCopyInto\<close> makes a deep copy; a
  \<^verbatim>\<open>metav1.Time\<close>, which is copied by assignment, counts as a value, as \<^verbatim>\<open>time.Time\<close> documents.
\<close>

section \<open>Types of the libraries\<close>

record library_types =
  ly_TypeMeta :: layout
  ly_LocalObjectReference :: layout
  ly_ObjectMeta :: layout
  ly_ListMeta :: layout
  ly_Condition :: layout
  ly_LabelSelector :: layout
  ly_RawExtension :: layout
  ly_Time :: layout
  cp_ObjectMeta :: copier
  cp_ListMeta :: copier
  cp_Condition :: copier
  cp_LabelSelector :: copier
  cp_RawExtension :: copier
  cp_Time :: copier

text \<open>\<^verbatim>\<open>TypeMeta\<close> and \<^verbatim>\<open>LocalObjectReference\<close> hold strings only; the generated code assigns them.\<close>

definition library_law :: "library_types \<Rightarrow> bool" where
  "library_law X \<longleftrightarrow> flat (ly_TypeMeta X) \<and> flat (ly_LocalObjectReference X) \<and>
     copies (ly_ObjectMeta X) (cp_ObjectMeta X) \<and> copies (ly_ListMeta X) (cp_ListMeta X) \<and>
     copies (ly_Condition X) (cp_Condition X) \<and> copies (ly_LabelSelector X) (cp_LabelSelector X) \<and>
     copies (ly_RawExtension X) (cp_RawExtension X) \<and> copies (ly_Time X) (cp_Time X)"

lemma library_copies [copy_rules]:
  "library_law X \<Longrightarrow> flat (ly_TypeMeta X)" "library_law X \<Longrightarrow> flat (ly_LocalObjectReference X)"
  "library_law X \<Longrightarrow> copies (ly_ObjectMeta X) (cp_ObjectMeta X)"
  "library_law X \<Longrightarrow> copies (ly_ListMeta X) (cp_ListMeta X)"
  "library_law X \<Longrightarrow> copies (ly_Condition X) (cp_Condition X)"
  "library_law X \<Longrightarrow> copies (ly_LabelSelector X) (cp_LabelSelector X)"
  "library_law X \<Longrightarrow> copies (ly_RawExtension X) (cp_RawExtension X)"
  "library_law X \<Longrightarrow> copies (ly_Time X) (cp_Time X)"
  by (simp_all add: library_law_def)

section \<open>The common frame\<close>

text \<open>\<^verbatim>\<open>DeepCopy\<close> of every type: nil for nil, otherwise \<^verbatim>\<open>new(T)\<close> and \<^verbatim>\<open>DeepCopyInto\<close>.\<close>

definition DeepCopy :: "copier \<Rightarrow> copier" where
  "DeepCopy into = new_ptr into"

text \<open>\<^verbatim>\<open>DeepCopyObject\<close>: the copy as an interface value, nil when the copy is nil.\<close>

definition DeepCopyObject :: "copier \<Rightarrow> copier" where
  "DeepCopyObject copy v h = (case copy v h of (c, h) \<Rightarrow> if c \<noteq> VNil then (c, h) else (VNil, h))"

lemma copies_DeepCopy [copy_rules]: "copies l f \<Longrightarrow> copies (Ptr_t l) (DeepCopy f)"
  by (simp add: DeepCopy_def copies_ptr)

lemma DeepCopyObject_same: "DeepCopyObject f = f"
  by (intro ext) (simp add: DeepCopyObject_def split: prod.split)

lemma copies_DeepCopyObject [copy_rules]: "copies l f \<Longrightarrow> copies l (DeepCopyObject f)"
  by (simp add: DeepCopyObject_same)

section \<open>The structs of the API\<close>

definition ObjectReference_layout :: layout where
  "ObjectReference_layout = Struct_t
     [(''Name'', String_t), (''Namespace'', String_t)]"

definition ObjectReference_DeepCopyInto :: copier where
  "ObjectReference_DeepCopyInto = plain"

definition ObjectReference_DeepCopy :: copier where
  "ObjectReference_DeepCopy = DeepCopy ObjectReference_DeepCopyInto"

lemma ObjectReference_flat [copy_rules]: "flat ObjectReference_layout"
  by (simp add: ObjectReference_layout_def)

lemma ObjectReference_copies [copy_rules]:
  "copies ObjectReference_layout ObjectReference_DeepCopyInto"
  by (simp add: ObjectReference_DeepCopyInto_def copier_of_def copy_rules)

definition PortRange_layout :: layout where
  "PortRange_layout = Struct_t
     [(''Start'', Int_t), (''End'', Int_t)]"

definition PortRange_DeepCopyInto :: copier where
  "PortRange_DeepCopyInto = plain"

definition PortRange_DeepCopy :: copier where
  "PortRange_DeepCopy = DeepCopy PortRange_DeepCopyInto"

lemma PortRange_flat [copy_rules]: "flat PortRange_layout"
  by (simp add: PortRange_layout_def)

lemma PortRange_copies [copy_rules]:
  "copies PortRange_layout PortRange_DeepCopyInto"
  by (simp add: PortRange_DeepCopyInto_def copier_of_def copy_rules)

definition TiProxyRuntimeSpec_layout :: "library_types \<Rightarrow> layout" where
  "TiProxyRuntimeSpec_layout X = Struct_t
     [(''Image'', String_t), (''BaseImage'', String_t), (''Version'', String_t),
      (''Config'', Ptr_t (ly_RawExtension X)), (''APIPort'', Int_t), (''APIScheme'', String_t),
      (''ContainerName'', String_t), (''ConfigPath'', String_t), (''CertDir'', String_t),
      (''ExtraArgs'', Slice_t String_t)]"

definition TiProxyRuntimeSpec_DeepCopyInto :: "library_types \<Rightarrow> copier" where
  "TiProxyRuntimeSpec_DeepCopyInto X = copy_struct
     [(''Config'', new_ptr (cp_RawExtension X)), (''ExtraArgs'', new_slice plain)]"

definition TiProxyRuntimeSpec_DeepCopy :: "library_types \<Rightarrow> copier" where
  "TiProxyRuntimeSpec_DeepCopy X = DeepCopy (TiProxyRuntimeSpec_DeepCopyInto X)"

lemma TiProxyRuntimeSpec_copies [copy_rules]:
  "library_law X \<Longrightarrow> copies (TiProxyRuntimeSpec_layout X) (TiProxyRuntimeSpec_DeepCopyInto X)"
  by (simp add: TiProxyRuntimeSpec_layout_def TiProxyRuntimeSpec_DeepCopyInto_def copier_of_def copy_rules)

definition ScalingSpec_layout :: layout where
  "ScalingSpec_layout = Struct_t
     [(''MinReplicas'', Ptr_t Int_t), (''MaxReplicas'', Ptr_t Int_t)]"

definition ScalingSpec_DeepCopyInto :: copier where
  "ScalingSpec_DeepCopyInto = copy_struct
     [(''MinReplicas'', new_ptr plain), (''MaxReplicas'', new_ptr plain)]"

definition ScalingSpec_DeepCopy :: copier where
  "ScalingSpec_DeepCopy = DeepCopy ScalingSpec_DeepCopyInto"

lemma ScalingSpec_copies [copy_rules]:
  "copies ScalingSpec_layout ScalingSpec_DeepCopyInto"
  by (simp add: ScalingSpec_layout_def ScalingSpec_DeepCopyInto_def copier_of_def copy_rules)

definition PlacementSpec_layout :: layout where
  "PlacementSpec_layout = Struct_t
     [(''Region'', String_t), (''FailureDomains'', Slice_t String_t),
      (''SpreadPolicy'', String_t)]"

definition PlacementSpec_DeepCopyInto :: copier where
  "PlacementSpec_DeepCopyInto = copy_struct
     [(''FailureDomains'', new_slice plain)]"

definition PlacementSpec_DeepCopy :: copier where
  "PlacementSpec_DeepCopy = DeepCopy PlacementSpec_DeepCopyInto"

lemma PlacementSpec_copies [copy_rules]:
  "copies PlacementSpec_layout PlacementSpec_DeepCopyInto"
  by (simp add: PlacementSpec_layout_def PlacementSpec_DeepCopyInto_def copier_of_def copy_rules)

definition MachineSpec_layout :: layout where
  "MachineSpec_layout = Struct_t
     [(''Image'', String_t), (''Class'', String_t), (''IdentityRef'', String_t),
      (''SSHKeyName'', String_t)]"

definition MachineSpec_DeepCopyInto :: copier where
  "MachineSpec_DeepCopyInto = plain"

definition MachineSpec_DeepCopy :: copier where
  "MachineSpec_DeepCopy = DeepCopy MachineSpec_DeepCopyInto"

lemma MachineSpec_flat [copy_rules]: "flat MachineSpec_layout"
  by (simp add: MachineSpec_layout_def)

lemma MachineSpec_copies [copy_rules]:
  "copies MachineSpec_layout MachineSpec_DeepCopyInto"
  by (simp add: MachineSpec_DeepCopyInto_def copier_of_def copy_rules)

definition NetworkSpec_layout :: layout where
  "NetworkSpec_layout = Struct_t
     [(''SubnetIDs'', Slice_t String_t), (''SecurityGroupIDs'', Slice_t String_t)]"

definition NetworkSpec_DeepCopyInto :: copier where
  "NetworkSpec_DeepCopyInto = copy_struct
     [(''SubnetIDs'', new_slice plain), (''SecurityGroupIDs'', new_slice plain)]"

definition NetworkSpec_DeepCopy :: copier where
  "NetworkSpec_DeepCopy = DeepCopy NetworkSpec_DeepCopyInto"

lemma NetworkSpec_copies [copy_rules]:
  "copies NetworkSpec_layout NetworkSpec_DeepCopyInto"
  by (simp add: NetworkSpec_layout_def NetworkSpec_DeepCopyInto_def copier_of_def copy_rules)

definition ResourceNamesSpec_layout :: layout where
  "ResourceNamesSpec_layout = Struct_t
     [(''Group'', String_t), (''MachineTemplate'', String_t)]"

definition ResourceNamesSpec_DeepCopyInto :: copier where
  "ResourceNamesSpec_DeepCopyInto = plain"

definition ResourceNamesSpec_DeepCopy :: copier where
  "ResourceNamesSpec_DeepCopy = DeepCopy ResourceNamesSpec_DeepCopyInto"

lemma ResourceNamesSpec_flat [copy_rules]: "flat ResourceNamesSpec_layout"
  by (simp add: ResourceNamesSpec_layout_def)

lemma ResourceNamesSpec_copies [copy_rules]:
  "copies ResourceNamesSpec_layout ResourceNamesSpec_DeepCopyInto"
  by (simp add: ResourceNamesSpec_DeepCopyInto_def copier_of_def copy_rules)

definition LoadBalancerExposureSpec_layout :: layout where
  "LoadBalancerExposureSpec_layout = Struct_t
     [(''Name'', String_t), (''Scope'', String_t), (''LoadBalancerName'', String_t),
      (''SubnetIDs'', Slice_t String_t)]"

definition LoadBalancerExposureSpec_DeepCopyInto :: copier where
  "LoadBalancerExposureSpec_DeepCopyInto = copy_struct
     [(''SubnetIDs'', new_slice plain)]"

definition LoadBalancerExposureSpec_DeepCopy :: copier where
  "LoadBalancerExposureSpec_DeepCopy = DeepCopy LoadBalancerExposureSpec_DeepCopyInto"

lemma LoadBalancerExposureSpec_copies [copy_rules]:
  "copies LoadBalancerExposureSpec_layout LoadBalancerExposureSpec_DeepCopyInto"
  by (simp add: LoadBalancerExposureSpec_layout_def LoadBalancerExposureSpec_DeepCopyInto_def copier_of_def copy_rules)

definition ExposureSpec_layout :: layout where
  "ExposureSpec_layout = Struct_t
     [(''LoadBalancers'', Slice_t LoadBalancerExposureSpec_layout)]"

definition ExposureSpec_DeepCopyInto :: copier where
  "ExposureSpec_DeepCopyInto = copy_struct
     [(''LoadBalancers'', new_slice LoadBalancerExposureSpec_DeepCopyInto)]"

definition ExposureSpec_DeepCopy :: copier where
  "ExposureSpec_DeepCopy = DeepCopy ExposureSpec_DeepCopyInto"

lemma ExposureSpec_copies [copy_rules]:
  "copies ExposureSpec_layout ExposureSpec_DeepCopyInto"
  by (simp add: ExposureSpec_layout_def ExposureSpec_DeepCopyInto_def copier_of_def copy_rules)

definition RemoteContentRef_layout :: layout where
  "RemoteContentRef_layout = Struct_t
     [(''Backend'', String_t), (''Identifier'', String_t)]"

definition RemoteContentRef_DeepCopyInto :: copier where
  "RemoteContentRef_DeepCopyInto = plain"

definition RemoteContentRef_DeepCopy :: copier where
  "RemoteContentRef_DeepCopy = DeepCopy RemoteContentRef_DeepCopyInto"

lemma RemoteContentRef_flat [copy_rules]: "flat RemoteContentRef_layout"
  by (simp add: RemoteContentRef_layout_def)

lemma RemoteContentRef_copies [copy_rules]:
  "copies RemoteContentRef_layout RemoteContentRef_DeepCopyInto"
  by (simp add: RemoteContentRef_DeepCopyInto_def copier_of_def copy_rules)

definition KubeconfigBootstrapSpec_layout :: layout where
  "KubeconfigBootstrapSpec_layout = Struct_t
     [(''Path'', String_t), (''Inline'', String_t),
      (''RemoteRef'', Ptr_t RemoteContentRef_layout)]"

definition KubeconfigBootstrapSpec_DeepCopyInto :: copier where
  "KubeconfigBootstrapSpec_DeepCopyInto = copy_struct
     [(''RemoteRef'', new_ptr plain)]"

definition KubeconfigBootstrapSpec_DeepCopy :: copier where
  "KubeconfigBootstrapSpec_DeepCopy = DeepCopy KubeconfigBootstrapSpec_DeepCopyInto"

lemma KubeconfigBootstrapSpec_copies [copy_rules]:
  "copies KubeconfigBootstrapSpec_layout KubeconfigBootstrapSpec_DeepCopyInto"
  by (simp add: KubeconfigBootstrapSpec_layout_def KubeconfigBootstrapSpec_DeepCopyInto_def copier_of_def copy_rules)

definition MachineBootstrapSpec_layout :: layout where
  "MachineBootstrapSpec_layout = Struct_t
     [(''UserData'', String_t), (''Kubeconfig'', KubeconfigBootstrapSpec_layout)]"

definition MachineBootstrapSpec_DeepCopyInto :: copier where
  "MachineBootstrapSpec_DeepCopyInto = copy_struct
     [(''Kubeconfig'', KubeconfigBootstrapSpec_DeepCopyInto)]"

definition MachineBootstrapSpec_DeepCopy :: copier where
  "MachineBootstrapSpec_DeepCopy = DeepCopy MachineBootstrapSpec_DeepCopyInto"

lemma MachineBootstrapSpec_copies [copy_rules]:
  "copies MachineBootstrapSpec_layout MachineBootstrapSpec_DeepCopyInto"
  by (simp add: MachineBootstrapSpec_layout_def MachineBootstrapSpec_DeepCopyInto_def copier_of_def copy_rules)

definition LoadBalancerCloudStatus_layout :: layout where
  "LoadBalancerCloudStatus_layout = Struct_t
     [(''Name'', String_t), (''Scope'', String_t), (''LoadBalancerID'', String_t),
      (''LoadBalancerAddress'', String_t)]"

definition LoadBalancerCloudStatus_DeepCopyInto :: copier where
  "LoadBalancerCloudStatus_DeepCopyInto = plain"

definition LoadBalancerCloudStatus_DeepCopy :: copier where
  "LoadBalancerCloudStatus_DeepCopy = DeepCopy LoadBalancerCloudStatus_DeepCopyInto"

lemma LoadBalancerCloudStatus_flat [copy_rules]: "flat LoadBalancerCloudStatus_layout"
  by (simp add: LoadBalancerCloudStatus_layout_def)

lemma LoadBalancerCloudStatus_copies [copy_rules]:
  "copies LoadBalancerCloudStatus_layout LoadBalancerCloudStatus_DeepCopyInto"
  by (simp add: LoadBalancerCloudStatus_DeepCopyInto_def copier_of_def copy_rules)

definition CloudStatus_layout :: layout where
  "CloudStatus_layout = Struct_t
     [(''MachineGroupName'', String_t), (''MachineTemplateID'', String_t),
      (''MachineTemplateName'', String_t), (''MachineTemplateVer'', String_t),
      (''FrontendID'', String_t), (''FrontendAddress'', String_t),
      (''LoadBalancers'', Slice_t LoadBalancerCloudStatus_layout)]"

definition CloudStatus_DeepCopyInto :: copier where
  "CloudStatus_DeepCopyInto = copy_struct
     [(''LoadBalancers'', new_slice plain)]"

definition CloudStatus_DeepCopy :: copier where
  "CloudStatus_DeepCopy = DeepCopy CloudStatus_DeepCopyInto"

lemma CloudStatus_copies [copy_rules]:
  "copies CloudStatus_layout CloudStatus_DeepCopyInto"
  by (simp add: CloudStatus_layout_def CloudStatus_DeepCopyInto_def copier_of_def copy_rules)

definition MachinePortLoadBalancerCloudStatus_layout :: layout where
  "MachinePortLoadBalancerCloudStatus_layout = Struct_t
     [(''Name'', String_t), (''Scope'', String_t), (''LoadBalancerID'', String_t),
      (''LoadBalancerAddress'', String_t), (''ListenerID'', String_t), (''BackendID'', String_t)]"

definition MachinePortLoadBalancerCloudStatus_DeepCopyInto :: copier where
  "MachinePortLoadBalancerCloudStatus_DeepCopyInto = plain"

definition MachinePortLoadBalancerCloudStatus_DeepCopy :: copier where
  "MachinePortLoadBalancerCloudStatus_DeepCopy = DeepCopy MachinePortLoadBalancerCloudStatus_DeepCopyInto"

lemma MachinePortLoadBalancerCloudStatus_flat [copy_rules]: "flat MachinePortLoadBalancerCloudStatus_layout"
  by (simp add: MachinePortLoadBalancerCloudStatus_layout_def)

lemma MachinePortLoadBalancerCloudStatus_copies [copy_rules]:
  "copies MachinePortLoadBalancerCloudStatus_layout MachinePortLoadBalancerCloudStatus_DeepCopyInto"
  by (simp add: MachinePortLoadBalancerCloudStatus_DeepCopyInto_def copier_of_def copy_rules)

definition MachinePortCloudStatus_layout :: layout where
  "MachinePortCloudStatus_layout = Struct_t
     [(''FrontendID'', String_t), (''FrontendAddress'', String_t), (''ListenerID'', String_t),
      (''BackendID'', String_t),
      (''LoadBalancers'', Slice_t MachinePortLoadBalancerCloudStatus_layout)]"

definition MachinePortCloudStatus_DeepCopyInto :: copier where
  "MachinePortCloudStatus_DeepCopyInto = copy_struct
     [(''LoadBalancers'', new_slice plain)]"

definition MachinePortCloudStatus_DeepCopy :: copier where
  "MachinePortCloudStatus_DeepCopy = DeepCopy MachinePortCloudStatus_DeepCopyInto"

lemma MachinePortCloudStatus_copies [copy_rules]:
  "copies MachinePortCloudStatus_layout MachinePortCloudStatus_DeepCopyInto"
  by (simp add: MachinePortCloudStatus_layout_def MachinePortCloudStatus_DeepCopyInto_def copier_of_def copy_rules)

definition TiProxyMachineGroupSpec_layout :: "library_types \<Rightarrow> layout" where
  "TiProxyMachineGroupSpec_layout X = Struct_t
     [(''Replicas'', Ptr_t Int_t), (''Scaling'', ScalingSpec_layout), (''Provider'', String_t),
      (''ProviderConfigRef'', Ptr_t ObjectReference_layout), (''PortRange'', PortRange_layout),
      (''LinkSelector'', Ptr_t (ly_LabelSelector X)), (''Exposure'', ExposureSpec_layout),
      (''Placement'', PlacementSpec_layout), (''ResourceNames'', ResourceNamesSpec_layout),
      (''Machine'', MachineSpec_layout), (''Network'', NetworkSpec_layout),
      (''Tags'', Map_t String_t), (''Bootstrap'', MachineBootstrapSpec_layout),
      (''TiProxy'', TiProxyRuntimeSpec_layout X)]"

definition TiProxyMachineGroupSpec_DeepCopyInto :: "library_types \<Rightarrow> copier" where
  "TiProxyMachineGroupSpec_DeepCopyInto X = copy_struct
     [(''Replicas'', new_ptr plain), (''Scaling'', ScalingSpec_DeepCopyInto),
      (''ProviderConfigRef'', new_ptr plain), (''LinkSelector'', new_ptr (cp_LabelSelector X)),
      (''Exposure'', ExposureSpec_DeepCopyInto), (''Placement'', PlacementSpec_DeepCopyInto),
      (''Network'', NetworkSpec_DeepCopyInto), (''Tags'', new_map plain),
      (''Bootstrap'', MachineBootstrapSpec_DeepCopyInto),
      (''TiProxy'', TiProxyRuntimeSpec_DeepCopyInto X)]"

definition TiProxyMachineGroupSpec_DeepCopy :: "library_types \<Rightarrow> copier" where
  "TiProxyMachineGroupSpec_DeepCopy X = DeepCopy (TiProxyMachineGroupSpec_DeepCopyInto X)"

lemma TiProxyMachineGroupSpec_copies [copy_rules]:
  "library_law X \<Longrightarrow> copies (TiProxyMachineGroupSpec_layout X) (TiProxyMachineGroupSpec_DeepCopyInto X)"
  by (simp add: TiProxyMachineGroupSpec_layout_def TiProxyMachineGroupSpec_DeepCopyInto_def copier_of_def copy_rules)

definition ResolvedLinkStatus_layout :: "library_types \<Rightarrow> layout" where
  "ResolvedLinkStatus_layout X = Struct_t
     [(''UID'', String_t), (''Name'', String_t), (''Namespace'', String_t),
      (''RouteNamespace'', String_t), (''FrontendUser'', String_t), (''Port'', Int_t),
      (''ClusterName'', String_t), (''PDAddresses'', Slice_t String_t),
      (''NSServerAddr'', String_t), (''TLSSecretRef'', Ptr_t (ly_LocalObjectReference X)),
      (''ConfigHash'', String_t)]"

definition ResolvedLinkStatus_DeepCopyInto :: copier where
  "ResolvedLinkStatus_DeepCopyInto = copy_struct
     [(''PDAddresses'', new_slice plain), (''TLSSecretRef'', new_ptr plain)]"

definition ResolvedLinkStatus_DeepCopy :: copier where
  "ResolvedLinkStatus_DeepCopy = DeepCopy ResolvedLinkStatus_DeepCopyInto"

lemma ResolvedLinkStatus_copies [copy_rules]:
  "library_law X \<Longrightarrow> copies (ResolvedLinkStatus_layout X) ResolvedLinkStatus_DeepCopyInto"
  by (simp add: ResolvedLinkStatus_layout_def ResolvedLinkStatus_DeepCopyInto_def copier_of_def copy_rules)

definition MachineStatus_layout :: "library_types \<Rightarrow> layout" where
  "MachineStatus_layout X = Struct_t
     [(''ObservedGeneration'', Int_t), (''LastHeartbeatTime'', ly_Time X),
      (''Phase'', String_t), (''ConfigHash'', String_t), (''TiProxyImage'', String_t),
      (''Message'', String_t)]"

definition MachineStatus_DeepCopyInto :: "library_types \<Rightarrow> copier" where
  "MachineStatus_DeepCopyInto X = copy_struct
     [(''LastHeartbeatTime'', cp_Time X)]"

definition MachineStatus_DeepCopy :: "library_types \<Rightarrow> copier" where
  "MachineStatus_DeepCopy X = DeepCopy (MachineStatus_DeepCopyInto X)"

lemma MachineStatus_copies [copy_rules]:
  "library_law X \<Longrightarrow> copies (MachineStatus_layout X) (MachineStatus_DeepCopyInto X)"
  by (simp add: MachineStatus_layout_def MachineStatus_DeepCopyInto_def copier_of_def copy_rules)

definition TiProxyMachineGroupStatus_layout :: "library_types \<Rightarrow> layout" where
  "TiProxyMachineGroupStatus_layout X = Struct_t
     [(''ObservedGeneration'', Int_t), (''AllocatedPorts'', Map_t Int_t),
      (''ResolvedLinks'', Slice_t (ResolvedLinkStatus_layout X)),
      (''Machines'', Map_t (MachineStatus_layout X)), (''Cloud'', CloudStatus_layout),
      (''Conditions'', Slice_t (ly_Condition X))]"

definition TiProxyMachineGroupStatus_DeepCopyInto :: "library_types \<Rightarrow> copier" where
  "TiProxyMachineGroupStatus_DeepCopyInto X = copy_struct
     [(''AllocatedPorts'', new_map plain),
      (''ResolvedLinks'', new_slice ResolvedLinkStatus_DeepCopyInto),
      (''Machines'', new_map (through_ptr (MachineStatus_DeepCopyInto X))),
      (''Cloud'', CloudStatus_DeepCopyInto), (''Conditions'', new_slice (cp_Condition X))]"

definition TiProxyMachineGroupStatus_DeepCopy :: "library_types \<Rightarrow> copier" where
  "TiProxyMachineGroupStatus_DeepCopy X = DeepCopy (TiProxyMachineGroupStatus_DeepCopyInto X)"

lemma TiProxyMachineGroupStatus_copies [copy_rules]:
  "library_law X \<Longrightarrow> copies (TiProxyMachineGroupStatus_layout X) (TiProxyMachineGroupStatus_DeepCopyInto X)"
  by (simp add: TiProxyMachineGroupStatus_layout_def TiProxyMachineGroupStatus_DeepCopyInto_def copier_of_def copy_rules)

definition TiProxyMachineGroup_layout :: "library_types \<Rightarrow> layout" where
  "TiProxyMachineGroup_layout X = Struct_t
     [(''TypeMeta'', ly_TypeMeta X), (''ObjectMeta'', ly_ObjectMeta X),
      (''Spec'', TiProxyMachineGroupSpec_layout X),
      (''Status'', TiProxyMachineGroupStatus_layout X)]"

definition TiProxyMachineGroup_DeepCopyInto :: "library_types \<Rightarrow> copier" where
  "TiProxyMachineGroup_DeepCopyInto X = copy_struct
     [(''ObjectMeta'', cp_ObjectMeta X), (''Spec'', TiProxyMachineGroupSpec_DeepCopyInto X),
      (''Status'', TiProxyMachineGroupStatus_DeepCopyInto X)]"

definition TiProxyMachineGroup_DeepCopy :: "library_types \<Rightarrow> copier" where
  "TiProxyMachineGroup_DeepCopy X = DeepCopy (TiProxyMachineGroup_DeepCopyInto X)"

definition TiProxyMachineGroup_DeepCopyObject :: "library_types \<Rightarrow> copier" where
  "TiProxyMachineGroup_DeepCopyObject X = DeepCopyObject (TiProxyMachineGroup_DeepCopy X)"

lemma TiProxyMachineGroup_copies [copy_rules]:
  "library_law X \<Longrightarrow> copies (TiProxyMachineGroup_layout X) (TiProxyMachineGroup_DeepCopyInto X)"
  by (simp add: TiProxyMachineGroup_layout_def TiProxyMachineGroup_DeepCopyInto_def copier_of_def copy_rules)

definition TiProxyMachineGroupList_layout :: "library_types \<Rightarrow> layout" where
  "TiProxyMachineGroupList_layout X = Struct_t
     [(''TypeMeta'', ly_TypeMeta X), (''ListMeta'', ly_ListMeta X),
      (''Items'', Slice_t (TiProxyMachineGroup_layout X))]"

definition TiProxyMachineGroupList_DeepCopyInto :: "library_types \<Rightarrow> copier" where
  "TiProxyMachineGroupList_DeepCopyInto X = copy_struct
     [(''ListMeta'', cp_ListMeta X), (''Items'', new_slice (TiProxyMachineGroup_DeepCopyInto X))]"

definition TiProxyMachineGroupList_DeepCopy :: "library_types \<Rightarrow> copier" where
  "TiProxyMachineGroupList_DeepCopy X = DeepCopy (TiProxyMachineGroupList_DeepCopyInto X)"

definition TiProxyMachineGroupList_DeepCopyObject :: "library_types \<Rightarrow> copier" where
  "TiProxyMachineGroupList_DeepCopyObject X = DeepCopyObject (TiProxyMachineGroupList_DeepCopy X)"

lemma TiProxyMachineGroupList_copies [copy_rules]:
  "library_law X \<Longrightarrow> copies (TiProxyMachineGroupList_layout X) (TiProxyMachineGroupList_DeepCopyInto X)"
  by (simp add: TiProxyMachineGroupList_layout_def TiProxyMachineGroupList_DeepCopyInto_def copier_of_def copy_rules)

definition TiProxyMachinePortSpec_layout :: layout where
  "TiProxyMachinePortSpec_layout = Struct_t
     [(''MachineGroupRef'', ObjectReference_layout), (''RequestedPort'', Ptr_t Int_t),
      (''Protocol'', String_t)]"

definition TiProxyMachinePortSpec_DeepCopyInto :: copier where
  "TiProxyMachinePortSpec_DeepCopyInto = copy_struct
     [(''RequestedPort'', new_ptr plain)]"

definition TiProxyMachinePortSpec_DeepCopy :: copier where
  "TiProxyMachinePortSpec_DeepCopy = DeepCopy TiProxyMachinePortSpec_DeepCopyInto"

lemma TiProxyMachinePortSpec_copies [copy_rules]:
  "copies TiProxyMachinePortSpec_layout TiProxyMachinePortSpec_DeepCopyInto"
  by (simp add: TiProxyMachinePortSpec_layout_def TiProxyMachinePortSpec_DeepCopyInto_def copier_of_def copy_rules)

definition TiProxyMachinePortStatus_layout :: "library_types \<Rightarrow> layout" where
  "TiProxyMachinePortStatus_layout X = Struct_t
     [(''ObservedGeneration'', Int_t), (''AssignedPort'', Ptr_t Int_t), (''Phase'', String_t),
      (''Cloud'', MachinePortCloudStatus_layout), (''Conditions'', Slice_t (ly_Condition X))]"

definition TiProxyMachinePortStatus_DeepCopyInto :: "library_types \<Rightarrow> copier" where
  "TiProxyMachinePortStatus_DeepCopyInto X = copy_struct
     [(''AssignedPort'', new_ptr plain), (''Cloud'', MachinePortCloudStatus_DeepCopyInto),
      (''Conditions'', new_slice (cp_Condition X))]"

definition TiProxyMachinePortStatus_DeepCopy :: "library_types \<Rightarrow> copier" where
  "TiProxyMachinePortStatus_DeepCopy X = DeepCopy (TiProxyMachinePortStatus_DeepCopyInto X)"

lemma TiProxyMachinePortStatus_copies [copy_rules]:
  "library_law X \<Longrightarrow> copies (TiProxyMachinePortStatus_layout X) (TiProxyMachinePortStatus_DeepCopyInto X)"
  by (simp add: TiProxyMachinePortStatus_layout_def TiProxyMachinePortStatus_DeepCopyInto_def copier_of_def copy_rules)

definition TiProxyMachinePort_layout :: "library_types \<Rightarrow> layout" where
  "TiProxyMachinePort_layout X = Struct_t
     [(''TypeMeta'', ly_TypeMeta X), (''ObjectMeta'', ly_ObjectMeta X),
      (''Spec'', TiProxyMachinePortSpec_layout), (''Status'', TiProxyMachinePortStatus_layout X)]"

definition TiProxyMachinePort_DeepCopyInto :: "library_types \<Rightarrow> copier" where
  "TiProxyMachinePort_DeepCopyInto X = copy_struct
     [(''ObjectMeta'', cp_ObjectMeta X), (''Spec'', TiProxyMachinePortSpec_DeepCopyInto),
      (''Status'', TiProxyMachinePortStatus_DeepCopyInto X)]"

definition TiProxyMachinePort_DeepCopy :: "library_types \<Rightarrow> copier" where
  "TiProxyMachinePort_DeepCopy X = DeepCopy (TiProxyMachinePort_DeepCopyInto X)"

definition TiProxyMachinePort_DeepCopyObject :: "library_types \<Rightarrow> copier" where
  "TiProxyMachinePort_DeepCopyObject X = DeepCopyObject (TiProxyMachinePort_DeepCopy X)"

lemma TiProxyMachinePort_copies [copy_rules]:
  "library_law X \<Longrightarrow> copies (TiProxyMachinePort_layout X) (TiProxyMachinePort_DeepCopyInto X)"
  by (simp add: TiProxyMachinePort_layout_def TiProxyMachinePort_DeepCopyInto_def copier_of_def copy_rules)

definition TiProxyMachinePortList_layout :: "library_types \<Rightarrow> layout" where
  "TiProxyMachinePortList_layout X = Struct_t
     [(''TypeMeta'', ly_TypeMeta X), (''ListMeta'', ly_ListMeta X),
      (''Items'', Slice_t (TiProxyMachinePort_layout X))]"

definition TiProxyMachinePortList_DeepCopyInto :: "library_types \<Rightarrow> copier" where
  "TiProxyMachinePortList_DeepCopyInto X = copy_struct
     [(''ListMeta'', cp_ListMeta X), (''Items'', new_slice (TiProxyMachinePort_DeepCopyInto X))]"

definition TiProxyMachinePortList_DeepCopy :: "library_types \<Rightarrow> copier" where
  "TiProxyMachinePortList_DeepCopy X = DeepCopy (TiProxyMachinePortList_DeepCopyInto X)"

definition TiProxyMachinePortList_DeepCopyObject :: "library_types \<Rightarrow> copier" where
  "TiProxyMachinePortList_DeepCopyObject X = DeepCopyObject (TiProxyMachinePortList_DeepCopy X)"

lemma TiProxyMachinePortList_copies [copy_rules]:
  "library_law X \<Longrightarrow> copies (TiProxyMachinePortList_layout X) (TiProxyMachinePortList_DeepCopyInto X)"
  by (simp add: TiProxyMachinePortList_layout_def TiProxyMachinePortList_DeepCopyInto_def copier_of_def copy_rules)

definition TiDBResourcePoolLinkSpec_layout :: "library_types \<Rightarrow> layout" where
  "TiDBResourcePoolLinkSpec_layout X = Struct_t
     [(''MachineGroupRef'', ObjectReference_layout), (''ClusterName'', String_t),
      (''RouteNamespace'', String_t), (''FrontendUser'', String_t),
      (''PDAddresses'', Slice_t String_t), (''NSServerAddr'', String_t),
      (''TLSSecretRef'', Ptr_t (ly_LocalObjectReference X)), (''Disabled'', Bool_t)]"

definition TiDBResourcePoolLinkSpec_DeepCopyInto :: copier where
  "TiDBResourcePoolLinkSpec_DeepCopyInto = copy_struct
     [(''PDAddresses'', new_slice plain), (''TLSSecretRef'', new_ptr plain)]"

definition TiDBResourcePoolLinkSpec_DeepCopy :: copier where
  "TiDBResourcePoolLinkSpec_DeepCopy = DeepCopy TiDBResourcePoolLinkSpec_DeepCopyInto"

lemma TiDBResourcePoolLinkSpec_copies [copy_rules]:
  "library_law X \<Longrightarrow> copies (TiDBResourcePoolLinkSpec_layout X) TiDBResourcePoolLinkSpec_DeepCopyInto"
  by (simp add: TiDBResourcePoolLinkSpec_layout_def TiDBResourcePoolLinkSpec_DeepCopyInto_def copier_of_def copy_rules)

definition TiDBResourcePoolLinkStatus_layout :: "library_types \<Rightarrow> layout" where
  "TiDBResourcePoolLinkStatus_layout X = Struct_t
     [(''ObservedGeneration'', Int_t), (''Phase'', String_t),
      (''Conditions'', Slice_t (ly_Condition X))]"

definition TiDBResourcePoolLinkStatus_DeepCopyInto :: "library_types \<Rightarrow> copier" where
  "TiDBResourcePoolLinkStatus_DeepCopyInto X = copy_struct
     [(''Conditions'', new_slice (cp_Condition X))]"

definition TiDBResourcePoolLinkStatus_DeepCopy :: "library_types \<Rightarrow> copier" where
  "TiDBResourcePoolLinkStatus_DeepCopy X = DeepCopy (TiDBResourcePoolLinkStatus_DeepCopyInto X)"

lemma TiDBResourcePoolLinkStatus_copies [copy_rules]:
  "library_law X \<Longrightarrow> copies (TiDBResourcePoolLinkStatus_layout X) (TiDBResourcePoolLinkStatus_DeepCopyInto X)"
  by (simp add: TiDBResourcePoolLinkStatus_layout_def TiDBResourcePoolLinkStatus_DeepCopyInto_def copier_of_def copy_rules)

definition TiDBResourcePoolLink_layout :: "library_types \<Rightarrow> layout" where
  "TiDBResourcePoolLink_layout X = Struct_t
     [(''TypeMeta'', ly_TypeMeta X), (''ObjectMeta'', ly_ObjectMeta X),
      (''Spec'', TiDBResourcePoolLinkSpec_layout X),
      (''Status'', TiDBResourcePoolLinkStatus_layout X)]"

definition TiDBResourcePoolLink_DeepCopyInto :: "library_types \<Rightarrow> copier" where
  "TiDBResourcePoolLink_DeepCopyInto X = copy_struct
     [(''ObjectMeta'', cp_ObjectMeta X), (''Spec'', TiDBResourcePoolLinkSpec_DeepCopyInto),
      (''Status'', TiDBResourcePoolLinkStatus_DeepCopyInto X)]"

definition TiDBResourcePoolLink_DeepCopy :: "library_types \<Rightarrow> copier" where
  "TiDBResourcePoolLink_DeepCopy X = DeepCopy (TiDBResourcePoolLink_DeepCopyInto X)"

definition TiDBResourcePoolLink_DeepCopyObject :: "library_types \<Rightarrow> copier" where
  "TiDBResourcePoolLink_DeepCopyObject X = DeepCopyObject (TiDBResourcePoolLink_DeepCopy X)"

lemma TiDBResourcePoolLink_copies [copy_rules]:
  "library_law X \<Longrightarrow> copies (TiDBResourcePoolLink_layout X) (TiDBResourcePoolLink_DeepCopyInto X)"
  by (simp add: TiDBResourcePoolLink_layout_def TiDBResourcePoolLink_DeepCopyInto_def copier_of_def copy_rules)

definition TiDBResourcePoolLinkList_layout :: "library_types \<Rightarrow> layout" where
  "TiDBResourcePoolLinkList_layout X = Struct_t
     [(''TypeMeta'', ly_TypeMeta X), (''ListMeta'', ly_ListMeta X),
      (''Items'', Slice_t (TiDBResourcePoolLink_layout X))]"

definition TiDBResourcePoolLinkList_DeepCopyInto :: "library_types \<Rightarrow> copier" where
  "TiDBResourcePoolLinkList_DeepCopyInto X = copy_struct
     [(''ListMeta'', cp_ListMeta X),
      (''Items'', new_slice (TiDBResourcePoolLink_DeepCopyInto X))]"

definition TiDBResourcePoolLinkList_DeepCopy :: "library_types \<Rightarrow> copier" where
  "TiDBResourcePoolLinkList_DeepCopy X = DeepCopy (TiDBResourcePoolLinkList_DeepCopyInto X)"

definition TiDBResourcePoolLinkList_DeepCopyObject :: "library_types \<Rightarrow> copier" where
  "TiDBResourcePoolLinkList_DeepCopyObject X = DeepCopyObject (TiDBResourcePoolLinkList_DeepCopy X)"

lemma TiDBResourcePoolLinkList_copies [copy_rules]:
  "library_law X \<Longrightarrow> copies (TiDBResourcePoolLinkList_layout X) (TiDBResourcePoolLinkList_DeepCopyInto X)"
  by (simp add: TiDBResourcePoolLinkList_layout_def TiDBResourcePoolLinkList_DeepCopyInto_def copier_of_def copy_rules)

section \<open>Every deep copy is one\<close>

definition deep_copies :: "library_types \<Rightarrow> (layout \<times> copier) list" where
  "deep_copies X =
    [(ObjectReference_layout, ObjectReference_DeepCopy),
     (PortRange_layout, PortRange_DeepCopy),
     (TiProxyRuntimeSpec_layout X, TiProxyRuntimeSpec_DeepCopy X),
     (ScalingSpec_layout, ScalingSpec_DeepCopy),
     (PlacementSpec_layout, PlacementSpec_DeepCopy),
     (MachineSpec_layout, MachineSpec_DeepCopy),
     (NetworkSpec_layout, NetworkSpec_DeepCopy),
     (ResourceNamesSpec_layout, ResourceNamesSpec_DeepCopy),
     (LoadBalancerExposureSpec_layout, LoadBalancerExposureSpec_DeepCopy),
     (ExposureSpec_layout, ExposureSpec_DeepCopy),
     (RemoteContentRef_layout, RemoteContentRef_DeepCopy),
     (KubeconfigBootstrapSpec_layout, KubeconfigBootstrapSpec_DeepCopy),
     (MachineBootstrapSpec_layout, MachineBootstrapSpec_DeepCopy),
     (LoadBalancerCloudStatus_layout, LoadBalancerCloudStatus_DeepCopy),
     (CloudStatus_layout, CloudStatus_DeepCopy),
     (MachinePortLoadBalancerCloudStatus_layout, MachinePortLoadBalancerCloudStatus_DeepCopy),
     (MachinePortCloudStatus_layout, MachinePortCloudStatus_DeepCopy),
     (TiProxyMachineGroupSpec_layout X, TiProxyMachineGroupSpec_DeepCopy X),
     (ResolvedLinkStatus_layout X, ResolvedLinkStatus_DeepCopy),
     (MachineStatus_layout X, MachineStatus_DeepCopy X),
     (TiProxyMachineGroupStatus_layout X, TiProxyMachineGroupStatus_DeepCopy X),
     (TiProxyMachineGroup_layout X, TiProxyMachineGroup_DeepCopy X),
     (TiProxyMachineGroup_layout X, TiProxyMachineGroup_DeepCopyObject X),
     (TiProxyMachineGroupList_layout X, TiProxyMachineGroupList_DeepCopy X),
     (TiProxyMachineGroupList_layout X, TiProxyMachineGroupList_DeepCopyObject X),
     (TiProxyMachinePortSpec_layout, TiProxyMachinePortSpec_DeepCopy),
     (TiProxyMachinePortStatus_layout X, TiProxyMachinePortStatus_DeepCopy X),
     (TiProxyMachinePort_layout X, TiProxyMachinePort_DeepCopy X),
     (TiProxyMachinePort_layout X, TiProxyMachinePort_DeepCopyObject X),
     (TiProxyMachinePortList_layout X, TiProxyMachinePortList_DeepCopy X),
     (TiProxyMachinePortList_layout X, TiProxyMachinePortList_DeepCopyObject X),
     (TiDBResourcePoolLinkSpec_layout X, TiDBResourcePoolLinkSpec_DeepCopy),
     (TiDBResourcePoolLinkStatus_layout X, TiDBResourcePoolLinkStatus_DeepCopy X),
     (TiDBResourcePoolLink_layout X, TiDBResourcePoolLink_DeepCopy X),
     (TiDBResourcePoolLink_layout X, TiDBResourcePoolLink_DeepCopyObject X),
     (TiDBResourcePoolLinkList_layout X, TiDBResourcePoolLinkList_DeepCopy X),
     (TiDBResourcePoolLinkList_layout X, TiDBResourcePoolLinkList_DeepCopyObject X)]"

lemmas DeepCopy_defs = ObjectReference_DeepCopy_def PortRange_DeepCopy_def
  TiProxyRuntimeSpec_DeepCopy_def ScalingSpec_DeepCopy_def
  PlacementSpec_DeepCopy_def MachineSpec_DeepCopy_def
  NetworkSpec_DeepCopy_def ResourceNamesSpec_DeepCopy_def
  LoadBalancerExposureSpec_DeepCopy_def ExposureSpec_DeepCopy_def
  RemoteContentRef_DeepCopy_def KubeconfigBootstrapSpec_DeepCopy_def
  MachineBootstrapSpec_DeepCopy_def LoadBalancerCloudStatus_DeepCopy_def
  CloudStatus_DeepCopy_def MachinePortLoadBalancerCloudStatus_DeepCopy_def
  MachinePortCloudStatus_DeepCopy_def TiProxyMachineGroupSpec_DeepCopy_def
  ResolvedLinkStatus_DeepCopy_def MachineStatus_DeepCopy_def
  TiProxyMachineGroupStatus_DeepCopy_def TiProxyMachineGroup_DeepCopy_def
  TiProxyMachineGroupList_DeepCopy_def TiProxyMachinePortSpec_DeepCopy_def
  TiProxyMachinePortStatus_DeepCopy_def TiProxyMachinePort_DeepCopy_def
  TiProxyMachinePortList_DeepCopy_def TiDBResourcePoolLinkSpec_DeepCopy_def
  TiDBResourcePoolLinkStatus_DeepCopy_def TiDBResourcePoolLink_DeepCopy_def
  TiDBResourcePoolLinkList_DeepCopy_def
  TiDBResourcePoolLink_DeepCopyObject_def TiDBResourcePoolLinkList_DeepCopyObject_def TiProxyMachineGroup_DeepCopyObject_def
  TiProxyMachineGroupList_DeepCopyObject_def TiProxyMachinePort_DeepCopyObject_def TiProxyMachinePortList_DeepCopyObject_def

lemma deep_copies_copy:
  assumes "library_law X" "(l, f) \<in> set (deep_copies X)"
  shows "copies (Ptr_t l) f"
proof -
  have "list_all (\<lambda>(l, f). copies (Ptr_t l) f) (deep_copies X)"
    by (simp add: deep_copies_def DeepCopy_defs copy_rules assms(1) del: flat.simps)
  then show ?thesis using assms(2) by (auto simp: list_all_iff)
qed

text \<open>
  C19: Every generated deep copy of the API isolates. Of a pointer that reads as \<open>t\<close> it makes one that reads as
  \<open>t\<close> and shares no cell with it; whatever is stored later in the cells that existed before the copy,
  through the original or through anything else, the copy still reads as \<open>t\<close>, and whatever is stored in
  the cells of the copy, the original does. This is what the reconciler needs of \<^verbatim>\<open>base := mg.DeepCopy()\<close>
  before it changes \<^verbatim>\<open>mg\<close>.
\<close>

theorem DeepCopy_isolates:
  assumes "library_law X" "(l, f) \<in> set (deep_copies X)"
    and "read (Ptr_t l) h v = Some (t, A)" "f v h = (v', h')"
  shows "\<exists>A'. read (Ptr_t l) h' v' = Some (t, A') \<and> set A' \<inter> set A = {} \<and>
    (\<forall>h''. (\<forall>a. length h \<le> a \<longrightarrow> cell_at h'' a = cell_at h' a) \<longrightarrow> read (Ptr_t l) h'' v' = Some (t, A')) \<and>
    (\<forall>h''. (\<forall>a<length h. cell_at h'' a = cell_at h a) \<longrightarrow> read (Ptr_t l) h'' v = Some (t, A))"
  by (rule copies_isolated [OF deep_copies_copy [OF assms(1,2)] assms(3,4)])

section \<open>A sample copy\<close>

definition sample_library :: library_types where
  "sample_library = \<lparr>ly_TypeMeta = Struct_t [], ly_LocalObjectReference = Struct_t [(''Name'', String_t)],
     ly_ObjectMeta = Struct_t [(''Name'', String_t)], ly_ListMeta = Struct_t [], ly_Condition = Struct_t [],
     ly_LabelSelector = Struct_t [], ly_RawExtension = Slice_t Int_t, ly_Time = Int_t,
     cp_ObjectMeta = plain, cp_ListMeta = plain, cp_Condition = plain, cp_LabelSelector = plain,
     cp_RawExtension = new_slice plain, cp_Time = plain\<rparr>"

lemma sample_library_law: "library_law sample_library"
  by (simp add: library_law_def sample_library_def copy_rules)

text \<open>An exposure with one load balancer in one subnet, at address 0.\<close>

definition sample_heap :: heap where
  "sample_heap =
    [CVal (VStruct [(''LoadBalancers'', VSlice 1 0 1)]),
     CArr [VStruct [(''Name'', VStr ''a''), (''Scope'', VStr []), (''LoadBalancerName'', VStr []),
       (''SubnetIDs'', VSlice 2 1 1)]],
     CArr [VStr ''s0'', VStr ''s1'']]"

theorem DeepCopy_isolates_witness:
  "\<exists>v' h' t A'. ExposureSpec_DeepCopy (VPtr 0) sample_heap = (v', h') \<and>
     read (Ptr_t ExposureSpec_layout) (h'[2 := CArr []]) v' = Some (t, A') \<and>
     read (Ptr_t ExposureSpec_layout) sample_heap (VPtr 0) = Some (t, [0, 1, 2])"
proof -
  obtain v' h' where c: "ExposureSpec_DeepCopy (VPtr 0) sample_heap = (v', h')" by (rule prod.exhaust)
  have "map_option snd (read (Ptr_t ExposureSpec_layout) sample_heap (VPtr 0)) = Some [0, 1, 2]" by code_simp
  then obtain t where t: "read (Ptr_t ExposureSpec_layout) sample_heap (VPtr 0) = Some (t, [0, 1, 2])" by auto
  have "(ExposureSpec_layout, ExposureSpec_DeepCopy) \<in> set (deep_copies sample_library)"
    by (simp add: deep_copies_def)
  from DeepCopy_isolates [OF sample_library_law this t c] obtain A' where
    "\<forall>h''. (\<forall>a. length sample_heap \<le> a \<longrightarrow> cell_at h'' a = cell_at h' a) \<longrightarrow>
      read (Ptr_t ExposureSpec_layout) h'' v' = Some (t, A')" by blast
  moreover have "cell_at (h'[2 := CArr []]) a = cell_at h' a" if "length sample_heap \<le> a" for a
    using that by (simp add: sample_heap_def cell_at_def)
  ultimately show ?thesis using c t by blast
qed

end
