(* ===== verification/Lifecycle.thy ===== *)
theory Lifecycle
  imports Controller_Properties
begin

text \<open>
  The life of one group object in the API server, with everybody who writes it: users and other
  programs, the API server that removes a deleted object, and the reconciler, which may stop after any call
  and reads the object from a cache that lags behind. \<open>sys_step\<close> is this system with the reconciler as the
  protocol of \<open>Controller_Protocol\<close>, one call at a time; \<open>operated\<close> is it with the calls of \<open>Reconcile\<close>
  itself, and \<open>operated_reaches\<close> takes one to the other.

  \<open>w_hist\<close> holds the versions of the object, \<open>None\<close> after its removal; \<open>w_seen\<close> is the version the cache
  has given last, so a later read gives this or a later one; \<open>w_run\<close> is the phase of the run that is
  under way; \<open>w_owed\<close> holds the resource names for which \<^verbatim>\<open>EnsureMachineGroup\<close> was called and no
  \<^verbatim>\<open>DeleteMachineGroup\<close> has succeeded since.

  The theorem is that nothing is owed when the object is gone, if nobody changes what the finalizer
  protects: the provider and the resource names. Without this restriction it fails, in two ways.
\<close>

section \<open>The system\<close>

record world =
  w_hist :: "machine_group option list"
  w_seen :: nat
  w_run :: "phase option"
  w_owed :: "(string \<times> string) set"

definition current :: "world \<Rightarrow> machine_group option" where
  "current s = last (w_hist s)"

definition store_group :: "machine_group option \<Rightarrow> world \<Rightarrow> world" where
  "store_group v s = s\<lparr>w_hist := w_hist s @ [v]\<rparr>"

text \<open>
  What others do to the object. They leave the finalizer of the operator alone, a deletion cannot be
  taken back, and the API server removes the object when it is deleted and the finalizer is gone. With
  \<open>pin\<close> they also keep the provider and the resource names of a group that has the finalizer.
\<close>

definition keeps_resources :: "machine_group \<Rightarrow> machine_group \<Rightarrow> bool" where
  "keeps_resources mg mg' \<longleftrightarrow> (uses_cloud mg \<longrightarrow> uses_cloud mg') \<and> ResolveNames mg' = ResolveNames mg"

definition others_may :: "kube_lib \<Rightarrow> bool \<Rightarrow> machine_group \<Rightarrow> machine_group option \<Rightarrow> bool" where
  "others_may L pin mg new \<longleftrightarrow>
     (case new of
        None \<Rightarrow> deleted mg \<and> \<not> finalized L mg
      | Some mg' \<Rightarrow> (deleted mg \<longrightarrow> deleted mg') \<and> (finalized L mg \<longrightarrow> finalized L mg') \<and>
          (pin \<and> finalized L mg \<longrightarrow> keeps_resources mg mg'))"

text \<open>
  A patch of the finalizers writes the list of the patched object, whatever the stored object has by
  then, and changes nothing else.
\<close>

definition patched :: "kube_lib \<Rightarrow> machine_group \<Rightarrow> machine_group \<Rightarrow> machine_group \<Rightarrow> bool" where
  "patched L obj mg mg' \<longleftrightarrow> finalized L mg' = finalized L obj \<and> deleted mg' = deleted mg \<and>
     mg_Spec mg' = mg_Spec mg \<and> ResolveNames mg' = ResolveNames mg"

text \<open>
  The effect of a call of the reconciler. A patch may fail, and fails when the object is gone. Status
  patches do not touch what is tracked here; as new versions they are among the steps of others.
\<close>

fun effect :: "kube_lib \<Rightarrow> event \<Rightarrow> world \<Rightarrow> world \<Rightarrow> bool" where
  "effect L (PatchGroup base obj answer) s s' \<longleftrightarrow>
     s' = s \<or> (\<exists>mg mg'. current s = Some mg \<and> patched L obj mg mg' \<and> s' = store_group (Some mg') s)"
| "effect L (CloudEnsure mg mps al res) s s' \<longleftrightarrow> s' = s\<lparr>w_owed := insert (ResolveNames mg) (w_owed s)\<rparr>"
| "effect L (CloudDelete mg None) s s' \<longleftrightarrow> s' = s\<lparr>w_owed := w_owed s - {ResolveNames mg}\<rparr>"
| "effect L (GetGroup n r) s s' \<longleftrightarrow> False"
| "effect L ev s s' \<longleftrightarrow> s' = s"

inductive sys_step :: "kube_lib \<Rightarrow> bool \<Rightarrow> world \<Rightarrow> world \<Rightarrow> bool" for L :: kube_lib and pin :: bool where
  others: "current s = Some mg \<Longrightarrow> others_may L pin mg new \<Longrightarrow> sys_step L pin s (store_group new s)"
| begin_run: "w_run s = None \<Longrightarrow> sys_step L pin s (s\<lparr>w_run := Some (Start n)\<rparr>)"
| end_run: "sys_step L pin s (s\<lparr>w_run := None\<rparr>)"
| read_group: "w_run s = Some (Start n) \<Longrightarrow> w_seen s \<le> i \<Longrightarrow> i < length (w_hist s) \<Longrightarrow>
    w_hist s ! i = Some mg \<Longrightarrow> ctl_step L (Start n) (GetGroup n (Inr mg)) p \<Longrightarrow>
    sys_step L pin s (s\<lparr>w_seen := i, w_run := Some p\<rparr>)"
| read_nothing: "w_run s = Some (Start n) \<Longrightarrow> ctl_step L (Start n) (GetGroup n (Inl e)) p \<Longrightarrow>
    sys_step L pin s (s\<lparr>w_run := Some p\<rparr>)"
| call: "w_run s = Some p \<Longrightarrow> ctl_step L p ev p' \<Longrightarrow> effect L ev s s' \<Longrightarrow>
    sys_step L pin s (s'\<lparr>w_run := Some p'\<rparr>)"

inductive reaches :: "kube_lib \<Rightarrow> bool \<Rightarrow> world \<Rightarrow> world \<Rightarrow> bool" for L :: kube_lib and pin :: bool where
  here: "reaches L pin s s"
| further: "reaches L pin s s' \<Longrightarrow> sys_step L pin s' s'' \<Longrightarrow> reaches L pin s s''"

text \<open>A new object, which the operator has not seen.\<close>

definition created :: "machine_group \<Rightarrow> world" where
  "created mg = \<lparr>w_hist = [Some mg], w_seen = 0, w_run = None, w_owed = {}\<rparr>"

section \<open>The invariant\<close>

text \<open>A version whose group the provider is called for, and a version that still protects it.\<close>

definition protects :: "kube_lib \<Rightarrow> machine_group \<Rightarrow> machine_group option \<Rightarrow> bool" where
  "protects L mg v \<longleftrightarrow> (\<exists>mg'. v = Some mg' \<and> finalized L mg' \<and> keeps_resources mg mg')"

text \<open>The group of a phase, with what the phase says of it.\<close>

fun phase_ok :: "kube_lib \<Rightarrow> world \<Rightarrow> phase \<Rightarrow> bool" where
  "phase_ok L s (Start n) \<longleftrightarrow> True"
| "phase_ok L s (Fetched mg) \<longleftrightarrow> w_hist s ! w_seen s = Some mg"
| "phase_ok L s (Removed mg) \<longleftrightarrow> w_hist s ! w_seen s = Some mg \<and> deleted mg \<and> w_owed s = {}"
| "phase_ok L s (HaveLinks mg links) \<longleftrightarrow> w_hist s ! w_seen s = Some mg \<and> active L mg"
| "phase_ok L s (HavePorts mg links mps) \<longleftrightarrow> w_hist s ! w_seen s = Some mg \<and> active L mg"
| "phase_ok L s (Refusing mg links mps) \<longleftrightarrow> w_hist s ! w_seen s = Some mg \<and> active L mg"
| "phase_ok L s (Ensured mg links mps al res) \<longleftrightarrow> True"
| "phase_ok L s (Reported mg links mps al res) \<longleftrightarrow> True"
| "phase_ok L s Halted \<longleftrightarrow> True"

definition deletion_final :: "world \<Rightarrow> bool" where
  "deletion_final s \<longleftrightarrow> (\<forall>i j mg. i \<le> j \<longrightarrow> j < length (w_hist s) \<longrightarrow> w_hist s ! i = Some mg \<longrightarrow> deleted mg \<longrightarrow>
     (\<forall>mg'. w_hist s ! j = Some mg' \<longrightarrow> deleted mg'))"

definition groups_protected :: "kube_lib \<Rightarrow> world \<Rightarrow> bool" where
  "groups_protected L s \<longleftrightarrow> (\<forall>i j mg. w_seen s \<le> i \<longrightarrow> i \<le> j \<longrightarrow> j < length (w_hist s) \<longrightarrow>
     w_hist s ! i = Some mg \<longrightarrow> \<not> deleted mg \<longrightarrow> finalized L mg \<longrightarrow> protects L mg (w_hist s ! j))"

definition owed_held :: "kube_lib \<Rightarrow> world \<Rightarrow> bool" where
  "owed_held L s \<longleftrightarrow> (\<forall>x\<in>w_owed s. \<forall>j. w_seen s \<le> j \<longrightarrow> j < length (w_hist s) \<longrightarrow>
     (\<exists>mg. w_hist s ! j = Some mg \<and> finalized L mg \<and> uses_cloud mg \<and> ResolveNames mg = x))"

definition sys_inv :: "kube_lib \<Rightarrow> world \<Rightarrow> bool" where
  "sys_inv L s \<longleftrightarrow> w_seen s < length (w_hist s) \<and> deletion_final s \<and> groups_protected L s \<and>
     owed_held L s \<and> (\<forall>p. w_run s = Some p \<longrightarrow> phase_ok L s p)"

text \<open>A new version keeps the invariant when it continues the last one.\<close>

definition continues :: "kube_lib \<Rightarrow> world \<Rightarrow> machine_group option \<Rightarrow> bool" where
  "continues L s new \<longleftrightarrow> (\<exists>mg. current s = Some mg \<and>
     (\<forall>mg'. new = Some mg' \<longrightarrow> deleted mg \<longrightarrow> deleted mg') \<and>
     (finalized L mg \<longrightarrow> protects L mg new \<or>
        w_owed s = {} \<and> (\<exists>mg0. w_hist s ! w_seen s = Some mg0 \<and> deleted mg0)))"

lemma current_nth: "w_hist s \<noteq> [] \<Longrightarrow> current s = w_hist s ! (length (w_hist s) - 1)"
  by (simp add: current_def last_conv_nth)

lemma store_simps [simp]:
  "w_seen (store_group v s) = w_seen s" "w_run (store_group v s) = w_run s"
  "w_owed (store_group v s) = w_owed s" "length (w_hist (store_group v s)) = Suc (length (w_hist s))"
  by (simp_all add: store_group_def)

lemma store_nth:
  "j < length (w_hist s) \<Longrightarrow> w_hist (store_group v s) ! j = w_hist s ! j"
  "w_hist (store_group v s) ! length (w_hist s) = v"
  by (simp_all add: store_group_def nth_append)

lemma protects_trans:
  "protects L mg (Some mg') \<Longrightarrow> protects L mg' v \<Longrightarrow> protects L mg v"
  by (auto simp: protects_def keeps_resources_def)

lemma protects_self: "finalized L mg \<Longrightarrow> protects L mg (Some mg)"
  by (simp add: protects_def keeps_resources_def)

lemma phase_ok_store: "w_seen s < length (w_hist s) \<Longrightarrow> phase_ok L s p \<Longrightarrow> phase_ok L (store_group v s) p"
  by (cases p) (simp_all add: store_nth)

lemma inv_updates [simp]:
  "deletion_final (s\<lparr>w_run := r\<rparr>) = deletion_final s" "deletion_final (s\<lparr>w_owed := xs\<rparr>) = deletion_final s"
  "deletion_final (s\<lparr>w_seen := i\<rparr>) = deletion_final s" "groups_protected L (s\<lparr>w_run := r\<rparr>) = groups_protected L s"
  "groups_protected L (s\<lparr>w_owed := xs\<rparr>) = groups_protected L s" "owed_held L (s\<lparr>w_run := r\<rparr>) = owed_held L s"
  by (simp_all add: deletion_final_def groups_protected_def owed_held_def)

lemma phase_ok_run [simp]: "phase_ok L (s\<lparr>w_run := r\<rparr>) p = phase_ok L s p"
  by (cases p) simp_all

lemma groups_protected_later:
  "groups_protected L s \<Longrightarrow> w_seen s \<le> i \<Longrightarrow> groups_protected L (s\<lparr>w_seen := i\<rparr>)"
  unfolding groups_protected_def by (simp, meson order_trans)

lemma owed_held_later:
  assumes "owed_held L s" "w_seen s \<le> i"
  shows "owed_held L (s\<lparr>w_seen := i\<rparr>)"
  unfolding owed_held_def
proof (intro ballI allI impI)
  fix x j assume "x \<in> w_owed (s\<lparr>w_seen := i\<rparr>)" "w_seen (s\<lparr>w_seen := i\<rparr>) \<le> j" "j < length (w_hist (s\<lparr>w_seen := i\<rparr>))"
  then have "x \<in> w_owed s" "w_seen s \<le> j" "j < length (w_hist s)" using assms(2) by simp_all
  with assms(1) have "\<exists>mg. w_hist s ! j = Some mg \<and> finalized L mg \<and> uses_cloud mg \<and> ResolveNames mg = x"
    unfolding owed_held_def by blast
  then show "\<exists>mg. w_hist (s\<lparr>w_seen := i\<rparr>) ! j = Some mg \<and> finalized L mg \<and> uses_cloud mg \<and> ResolveNames mg = x"
    by simp
qed

lemma deletion_finalD:
  "deletion_final s \<Longrightarrow> i \<le> j \<Longrightarrow> j < length (w_hist s) \<Longrightarrow> w_hist s ! i = Some mg \<Longrightarrow> deleted mg \<Longrightarrow>
     w_hist s ! j = Some mg' \<Longrightarrow> deleted mg'"
  unfolding deletion_final_def by blast

lemma groups_protectedD:
  "groups_protected L s \<Longrightarrow> w_seen s \<le> i \<Longrightarrow> i \<le> j \<Longrightarrow> j < length (w_hist s) \<Longrightarrow> w_hist s ! i = Some mg \<Longrightarrow>
     \<not> deleted mg \<Longrightarrow> finalized L mg \<Longrightarrow> protects L mg (w_hist s ! j)"
  unfolding groups_protected_def by blast

lemma owed_heldD:
  assumes "owed_held L s" "x \<in> w_owed s" "w_seen s \<le> j" "j < length (w_hist s)"
  obtains mg where "w_hist s ! j = Some mg" "finalized L mg" "uses_cloud mg" "ResolveNames mg = x"
  using assms unfolding owed_held_def by blast

lemma owed_at_seen:
  "owed_held L s \<Longrightarrow> w_seen s < length (w_hist s) \<Longrightarrow> w_hist s ! w_seen s = Some mg \<Longrightarrow> x \<in> w_owed s \<Longrightarrow>
     uses_cloud mg \<and> x = ResolveNames mg"
  unfolding owed_held_def by fastforce

lemma deletion_final_store:
  assumes "deletion_final s" "w_hist s \<noteq> []" "continues L s new"
  shows "deletion_final (store_group new s)"
  unfolding deletion_final_def
proof (intro allI impI)
  fix i j mg0 mg'
  assume ij: "i \<le> j" "j < length (w_hist (store_group new s))" and at_i: "w_hist (store_group new s) ! i = Some mg0"
    and del: "deleted mg0" and at_j: "w_hist (store_group new s) ! j = Some mg'"
  consider (old) "j < length (w_hist s)" | (last) "i < length (w_hist s)" "j = length (w_hist s)" | (same) "i = j"
    using ij by fastforce
  then show "deleted mg'"
  proof cases
    case old
    with at_i at_j ij show ?thesis by (intro deletion_finalD [OF assms(1) ij(1) old _ del]) (simp_all add: store_nth)
  next
    case last
    then have i: "w_hist s ! i = Some mg0" and new: "new = Some mg'"
      using at_i at_j by (simp_all add: store_nth)
    obtain mg where mg: "w_hist s ! (length (w_hist s) - 1) = Some mg" "deleted mg \<longrightarrow> deleted mg'"
      using assms(3) new unfolding continues_def current_nth [OF assms(2)] by blast
    have "deleted mg" by (rule deletion_finalD [OF assms(1) _ _ i del mg(1)]) (use last in simp_all)
    with mg(2) show ?thesis by simp
  next
    case same
    with at_i at_j del show ?thesis by simp
  qed
qed

lemma groups_protected_store:
  assumes "groups_protected L s" "deletion_final s" "w_hist s \<noteq> []" "continues L s new"
  shows "groups_protected L (store_group new s)"
  unfolding groups_protected_def
proof (intro allI impI)
  fix i j mg0
  assume ij: "w_seen (store_group new s) \<le> i" "i \<le> j" "j < length (w_hist (store_group new s))"
    and at_i: "w_hist (store_group new s) ! i = Some mg0" and grp: "\<not> deleted mg0" "finalized L mg0"
  consider (old) "j < length (w_hist s)" | (last) "i < length (w_hist s)" "j = length (w_hist s)" | (same) "i = j"
    using ij by fastforce
  then show "protects L mg0 (w_hist (store_group new s) ! j)"
  proof cases
    case old
    with ij at_i show ?thesis using groups_protectedD [OF assms(1) _ ij(2) old _ grp] by (simp add: store_nth)
  next
    case last
    then have i: "w_hist s ! i = Some mg0" using at_i by (simp add: store_nth)
    obtain mg where mg: "w_hist s ! (length (w_hist s) - 1) = Some mg"
      and cont: "finalized L mg \<longrightarrow> protects L mg new \<or>
        w_owed s = {} \<and> (\<exists>mg1. w_hist s ! w_seen s = Some mg1 \<and> deleted mg1)"
      using assms(4) unfolding continues_def current_nth [OF assms(3)] by blast
    have p: "protects L mg0 (Some mg)"
      using groups_protectedD [OF assms(1) _ _ _ i grp, of "length (w_hist s) - 1"] ij last mg by simp
    have "\<not> deleted mg1" if "w_hist s ! w_seen s = Some mg1" for mg1
      using deletion_finalD [OF assms(2) _ last(1) that _ i] ij(1) grp(1) by auto
    with cont p have "protects L mg new" by (auto simp: protects_def)
    with p last show ?thesis by (simp add: store_nth protects_trans)
  next
    case same
    with at_i grp show ?thesis by (simp add: protects_self)
  qed
qed

lemma owed_held_store:
  assumes "owed_held L s" "w_seen s < length (w_hist s)" "continues L s new"
  shows "owed_held L (store_group new s)"
  unfolding owed_held_def
proof (intro ballI allI impI)
  fix x j assume "x \<in> w_owed (store_group new s)"
    and j: "w_seen (store_group new s) \<le> j" "j < length (w_hist (store_group new s))"
  then have x: "x \<in> w_owed s" by simp
  have ne: "w_hist s \<noteq> []" using assms(2) by auto
  show "\<exists>mg. w_hist (store_group new s) ! j = Some mg \<and> finalized L mg \<and> uses_cloud mg \<and> ResolveNames mg = x"
  proof (cases "j < length (w_hist s)")
    case True
    with j owed_heldD [OF assms(1) x _ True] show ?thesis by (metis store_nth(1) store_simps(1))
  next
    case False
    with j have j: "j = length (w_hist s)" by simp
    obtain mg where mg: "w_hist s ! (length (w_hist s) - 1) = Some mg" "finalized L mg" "uses_cloud mg"
      "ResolveNames mg = x" by (rule owed_heldD [OF assms(1) x, of "length (w_hist s) - 1"]) (use assms(2) in auto)
    then have "protects L mg new"
      using assms(3) x unfolding continues_def current_nth [OF ne] by auto
    with mg j show ?thesis by (auto simp: store_nth protects_def keeps_resources_def)
  qed
qed

lemma store_keeps:
  assumes "sys_inv L s" "continues L s new"
  shows "sys_inv L (store_group new s)"
proof -
  have seen: "w_seen s < length (w_hist s)" using assms(1) by (simp add: sys_inv_def)
  then have "w_hist s \<noteq> []" by auto
  with assms seen show ?thesis
    unfolding sys_inv_def
    by (auto intro: deletion_final_store groups_protected_store owed_held_store phase_ok_store)
qed

section \<open>Every step keeps the invariant\<close>

lemma others_continue: "current s = Some mg \<Longrightarrow> others_may L True mg new \<Longrightarrow> continues L s new"
  by (auto simp: continues_def others_may_def protects_def split: option.splits)

lemma patch_continues:
  assumes "finalizer_law L" "sys_inv L s" "w_run s = Some p" "ctl_step L p (PatchGroup base obj answer) p'"
    and "current s = Some mg" "patched L obj mg mg'"
  shows "continues L s (Some mg')"
proof -
  have ok: "phase_ok L s p" and held: "owed_held L s" and seen: "w_seen s < length (w_hist s)"
    using assms(2,3) by (simp_all add: sys_inv_def)
  have pr: "protects L mg (Some mg')" if "finalized L obj"
    using that assms(6) by (auto simp: patched_def protects_def keeps_resources_def uses_cloud_def)
  from assms(4) have "finalized L obj \<or> w_owed s = {} \<and> (\<exists>mg0. w_hist s ! w_seen s = Some mg0 \<and> deleted mg0)"
  proof (cases rule: ctl_step.cases)
    case add_finalizer
    then show ?thesis using assms(1) by (simp add: finalized_def with_finalizer_def finalizer_law_def)
  next
    case remove_finalizer
    then show ?thesis using ok by simp
  next
    case remove_finalizer_noop
    then have mg0: "w_hist s ! w_seen s = Some base" using ok by simp
    have "w_owed s = {}"
      using owed_at_seen [OF held seen mg0] remove_finalizer_noop by blast
    with mg0 remove_finalizer_noop show ?thesis by simp
  qed (auto elim: step_Refusing)
  then show ?thesis using assms(5,6) pr unfolding continues_def by (auto simp: patched_def)
qed

lemma step_ensure:
  "ctl_step L p (CloudEnsure mg mps al res) p' \<Longrightarrow>
     \<exists>links. p = HavePorts mg links mps \<and> uses_cloud mg \<and> p' = Ensured mg links mps al res"
  by (induction p "CloudEnsure mg mps al res" p' rule: ctl_step.induct) auto

lemma step_delete:
  "ctl_step L p (CloudDelete mg None) p' \<Longrightarrow> p = Fetched mg \<and> deleted mg \<and> p' = Removed mg"
  by (induction p "CloudDelete mg None" p' rule: ctl_step.induct) auto

lemma ensure_keeps:
  assumes "sys_inv L s" "w_run s = Some p" "ctl_step L p (CloudEnsure mg mps al res) p'"
  shows "sys_inv L (s\<lparr>w_owed := insert (ResolveNames mg) (w_owed s), w_run := Some p'\<rparr>)"
proof -
  have inv: "w_seen s < length (w_hist s)" "deletion_final s" "groups_protected L s" "owed_held L s" "phase_ok L s p"
    using assms(1,2) by (simp_all add: sys_inv_def)
  from step_ensure [OF assms(3)] obtain links where p: "p = HavePorts mg links mps" "uses_cloud mg"
    "p' = Ensured mg links mps al res" by blast
  with inv(5) have mg: "w_hist s ! w_seen s = Some mg" "\<not> deleted mg" "finalized L mg"
    by (simp_all add: active_def)
  have prot: "protects L mg (w_hist s ! j)" if "w_seen s \<le> j" "j < length (w_hist s)" for j
    using groups_protectedD [OF inv(3) order_refl that mg] .
  have "owed_held L (s\<lparr>w_owed := insert (ResolveNames mg) (w_owed s), w_run := Some p'\<rparr>)"
    unfolding owed_held_def
  proof (intro ballI allI impI)
    fix x j let ?s = "s\<lparr>w_owed := insert (ResolveNames mg) (w_owed s), w_run := Some p'\<rparr>"
    assume "x \<in> w_owed ?s" "w_seen ?s \<le> j" "j < length (w_hist ?s)"
    then have x: "x = ResolveNames mg \<or> x \<in> w_owed s" and j: "w_seen s \<le> j" "j < length (w_hist s)" by auto
    from x show "\<exists>mg. w_hist ?s ! j = Some mg \<and> finalized L mg \<and> uses_cloud mg \<and> ResolveNames mg = x"
    proof
      assume "x = ResolveNames mg"
      then show ?thesis using prot [OF j] p(2) by (auto simp: protects_def keeps_resources_def)
    next
      assume "x \<in> w_owed s"
      then have "\<exists>mg. w_hist s ! j = Some mg \<and> finalized L mg \<and> uses_cloud mg \<and> ResolveNames mg = x"
        using inv(4) j unfolding owed_held_def by blast
      then show ?thesis by simp
    qed
  qed
  with inv p show ?thesis by (simp add: sys_inv_def)
qed

lemma delete_keeps:
  assumes "sys_inv L s" "w_run s = Some p" "ctl_step L p (CloudDelete mg None) p'"
  shows "sys_inv L (s\<lparr>w_owed := w_owed s - {ResolveNames mg}, w_run := Some p'\<rparr>)"
proof -
  have inv: "w_seen s < length (w_hist s)" "deletion_final s" "groups_protected L s" "owed_held L s" "phase_ok L s p"
    using assms(1,2) by (simp_all add: sys_inv_def)
  from step_delete [OF assms(3)] have p: "p = Fetched mg" "deleted mg" "p' = Removed mg" by simp_all
  with inv(5) have mg: "w_hist s ! w_seen s = Some mg" by simp
  have none: "w_owed s - {ResolveNames mg} = {}" using owed_at_seen [OF inv(4,1) mg] by blast
  have "owed_held L (s\<lparr>w_owed := {}\<rparr>)" by (simp add: owed_held_def)
  then show ?thesis unfolding none using inv p mg by (simp add: sys_inv_def)
qed

text \<open>Every other call leaves the world as it is; the phase it leads to speaks of the same group.\<close>

fun other_call :: "event \<Rightarrow> bool" where
  "other_call (GetGroup n r) = False"
| "other_call (CloudDelete mg None) = False"
| "other_call ev = True"

lemma phase_ok_on_success: "phase_ok L s p \<Longrightarrow> phase_ok L s (on_success answer p)"
  by (cases answer) simp_all

lemma phase_ok_step: "ctl_step L p ev p' \<Longrightarrow> phase_ok L s p \<Longrightarrow> other_call ev \<Longrightarrow> phase_ok L s p'"
  by (induction rule: ctl_step.induct) (simp_all add: phase_ok_on_success)

lemma sys_step_keeps:
  assumes "sys_step L True s s'" "finalizer_law L" "sys_inv L s"
  shows "sys_inv L s'"
  using assms
proof (induction rule: sys_step.induct)
  case (others s mg new)
  then show ?case by (blast intro: store_keeps others_continue)
next
  case (read_group s n i mg p)
  then have "p = Fetched mg" by (auto elim: step_Start)
  with read_group show ?case by (simp add: sys_inv_def groups_protected_later owed_held_later)
next
  case (read_nothing s n e p)
  then have "p = Halted" by (auto elim: step_Start)
  with read_nothing show ?case by (simp add: sys_inv_def)
next
  case (call s p ev p' s')
  have goto: "sys_inv L (t\<lparr>w_run := Some p'\<rparr>)" if "sys_inv L t" "w_run t = Some p" "other_call ev" for t
    using that phase_ok_step [OF call(2), of t]
    by (simp add: sys_inv_def)
  from call(3) show ?case
  proof (cases rule: effect.elims(2))
    case (1 base obj t t')
    show ?thesis
    proof (cases "s' = s")
      case False
      then obtain mg mg' where m: "current s = Some mg" "patched L obj mg mg'" "s' = store_group (Some mg') s"
        using 1 by auto
      have "sys_inv L s'"
        unfolding m(3) using call 1 m by (blast intro: store_keeps patch_continues)
      moreover have "w_run s' = Some p" unfolding m(3) using call(1) by simp
      ultimately show ?thesis using 1 by (simp add: goto)
    qed (use call 1 in \<open>simp add: goto\<close>)
  next
    case (2 mg mps al res t t')
    then show ?thesis using ensure_keeps [OF call(5,1)] call(2) by simp
  next
    case (3 mg t t')
    then show ?thesis using delete_keeps [OF call(5,1)] call(2) by simp
  qed (use call in \<open>simp_all add: goto\<close>)
qed (simp_all add: sys_inv_def)

lemma created_inv: "sys_inv L (created mg)"
  by (auto simp: sys_inv_def created_def deletion_final_def groups_protected_def owed_held_def protects_self)

lemma reaches_inv:
  assumes "reaches L True (created mg) s" "finalizer_law L"
  shows "sys_inv L s"
  using assms
proof (induction "created mg" s rule: reaches.induct)
  case here
  then show ?case by (simp add: created_inv)
next
  case (further s' s'')
  then show ?case by (blast intro: sys_step_keeps)
qed

section \<open>The reconciler in the system\<close>

text \<open>
  \<open>plays\<close> lets the calls of a list happen in order, with steps of others in between; a read of the group
  gives a version that the cache may have. \<open>operated\<close> are the worlds that runs of \<open>Reconcile\<close> lead to: each
  run is for any object name, over any environment \<open>w\<close>, and may stop after any of its calls.
\<close>

inductive plays :: "kube_lib \<Rightarrow> bool \<Rightarrow> event list \<Rightarrow> world \<Rightarrow> world \<Rightarrow> bool" for L :: kube_lib and pin :: bool where
  quiet: "plays L pin [] s s"
| meanwhile: "plays L pin es s s' \<Longrightarrow> current s' = Some mg \<Longrightarrow> others_may L pin mg new \<Longrightarrow>
    plays L pin es s (store_group new s')"
| reads: "plays L pin es s s' \<Longrightarrow> w_seen s' \<le> i \<Longrightarrow> i < length (w_hist s') \<Longrightarrow> w_hist s' ! i = Some mg \<Longrightarrow>
    plays L pin (es @ [GetGroup n (Inr mg)]) s (s'\<lparr>w_seen := i\<rparr>)"
| reads_nothing: "plays L pin es s s' \<Longrightarrow> plays L pin (es @ [GetGroup n (Inl e)]) s s'"
| asks: "plays L pin es s s' \<Longrightarrow> effect L ev s' s'' \<Longrightarrow> plays L pin (es @ [ev]) s s''"

inductive operated :: "'w reconciler \<Rightarrow> bool \<Rightarrow> machine_group \<Rightarrow> world \<Rightarrow> bool"
  for r :: "'w reconciler" and pin :: bool and g0 :: machine_group where
  creation: "operated r pin g0 (created g0)"
| edited: "operated r pin g0 s \<Longrightarrow> current s = Some mg \<Longrightarrow> others_may (r_Lib r) pin mg new \<Longrightarrow>
    operated r pin g0 (store_group new s)"
| reconciled: "operated r pin g0 s \<Longrightarrow> Reconcile (recorded_reconciler r) n (w, []) = Some (out, (w', es @ rest)) \<Longrightarrow>
    plays (r_Lib r) pin es s s' \<Longrightarrow> operated r pin g0 s'"

lemma get_group_starts: "ctl_step L p ev p' \<Longrightarrow> ev = GetGroup n x \<Longrightarrow> p = Start n"
  by (induction rule: ctl_step.induct) simp_all

inductive_cases ctl_run_snocE: "ctl_run L p es p'"

lemma ctl_run_snoc:
  "ctl_run L p (es @ [ev]) p' \<Longrightarrow> \<exists>q. ctl_run L p es q \<and> ctl_step L q ev p'"
  by (erule ctl_run_snocE) auto

lemma ctl_run_prefix: "ctl_run L p (es @ rest) p' \<Longrightarrow> \<exists>q. ctl_run L p es q"
proof (induction rest arbitrary: p' rule: rev_induct)
  case (snoc ev rest)
  then have "ctl_run L p ((es @ rest) @ [ev]) p'" by simp
  with ctl_run_snoc snoc.IH show ?case by blast
qed auto

lemma store_run:
  "current (s\<lparr>w_run := r\<rparr>) = current s" "store_group v (s\<lparr>w_run := r\<rparr>) = (store_group v s)\<lparr>w_run := r\<rparr>"
  by (simp_all add: current_def store_group_def)

lemma idle_run: "w_run s = None \<Longrightarrow> s\<lparr>w_run := None\<rparr> = s"
  by (cases s) simp

lemma effect_run: "effect L ev s s' \<Longrightarrow> effect L ev (s\<lparr>w_run := r\<rparr>) (s'\<lparr>w_run := r\<rparr>)"
  by (cases "(L, ev, s, s')" rule: effect.cases) (simp_all add: store_run, blast)

lemma effect_keeps_run: "effect L ev s s' \<Longrightarrow> w_run s' = w_run s"
  by (cases "(L, ev, s, s')" rule: effect.cases) auto

lemma plays_keeps_run: "plays L pin es s s' \<Longrightarrow> w_run s' = w_run s"
  by (induction rule: plays.induct) (simp_all add: effect_keeps_run)

text \<open>The calls of a run of the protocol move the system along.\<close>

lemma plays_reaches:
  assumes "plays L pin es s s'" "ctl_run L p es p'" "reaches L pin s0 (s\<lparr>w_run := Some p\<rparr>)"
  shows "reaches L pin s0 (s'\<lparr>w_run := Some p'\<rparr>)"
  using assms
proof (induction arbitrary: p' rule: plays.induct)
  case (quiet s)
  then show ?case by (auto elim: ctl_run_snocE)
next
  case (meanwhile es s s' mg new)
  then have "reaches L pin s0 (s'\<lparr>w_run := Some p'\<rparr>)" by blast
  from further [OF this others [of _ mg L pin new]] meanwhile.hyps(2,3) show ?case by (simp add: store_run)
next
  case (reads es s s' i mg n)
  then obtain q where q: "ctl_run L p es q" "ctl_step L q (GetGroup n (Inr mg)) p'" using ctl_run_snoc by blast
  then have "q = Start n" using get_group_starts by blast
  with q reads have "reaches L pin s0 (s'\<lparr>w_run := Some (Start n)\<rparr>)" by blast
  then show ?case
    using read_group [of "s'\<lparr>w_run := Some (Start n)\<rparr>" n i mg L p' pin] q(2) reads.hyps \<open>q = Start n\<close> further
    by fastforce
next
  case (reads_nothing es s s' n e)
  then obtain q where q: "ctl_run L p es q" "ctl_step L q (GetGroup n (Inl e)) p'" using ctl_run_snoc by blast
  then have "q = Start n" using get_group_starts by blast
  with q reads_nothing have "reaches L pin s0 (s'\<lparr>w_run := Some (Start n)\<rparr>)" by blast
  then show ?case
    using read_nothing [of "s'\<lparr>w_run := Some (Start n)\<rparr>" n L e p' pin] q(2) \<open>q = Start n\<close> further by fastforce
next
  case (asks es s s' ev s'')
  then obtain q where q: "ctl_run L p es q" "ctl_step L q ev p'" using ctl_run_snoc by blast
  with asks have "reaches L pin s0 (s'\<lparr>w_run := Some q\<rparr>)" by blast
  then show ?case
    using call [of "s'\<lparr>w_run := Some q\<rparr>" q L ev p' "s''\<lparr>w_run := Some q\<rparr>" pin] q(2)
      effect_run [OF asks.hyps(2), of "Some q"] further by fastforce
qed

lemma operated_reaches:
  "operated r pin g0 s \<Longrightarrow> reaches (r_Lib r) pin (created g0) s \<and> w_run s = None"
proof (induction rule: operated.induct)
  case creation
  then show ?case by (simp add: here) (simp add: created_def)
next
  case (edited s mg new)
  then show ?case by (auto intro: further others)
next
  case (reconciled s n w out w' es rest s')
  obtain p where "ctl_run (r_Lib r) (Start n) (es @ rest) p" using log_run [OF reconciled.hyps(2)] .
  then obtain q where run: "ctl_run (r_Lib r) (Start n) es q" using ctl_run_prefix by blast
  have idle: "w_run s' = None" using reconciled.IH plays_keeps_run [OF reconciled.hyps(3)] by simp
  have "reaches (r_Lib r) pin (created g0) (s\<lparr>w_run := Some (Start n)\<rparr>)"
    using reconciled.IH further begin_run by blast
  from plays_reaches [OF reconciled.hyps(3) run this] have
    "reaches (r_Lib r) pin (created g0) ((s'\<lparr>w_run := Some q\<rparr>)\<lparr>w_run := None\<rparr>)" using further end_run by blast
  then show ?case using idle by (simp add: idle_run)
qed

section \<open>Nothing is left behind\<close>

text \<open>
  C6: When a group object is gone from the API server, every resource name for which the provider was asked
  to ensure a machine group has been deleted successfully since: in every interleaving of the calls of
  \<open>Reconcile\<close> with edits, deletion and removal, with failing calls, aborted runs and stale reads, provided
  the edits keep the provider and the resource names while the group has the finalizer.
\<close>

theorem no_resources_left:
  assumes "operated r True mg s" "finalizer_law (r_Lib r)" "current s = None"
  shows "w_owed s = {}"
proof -
  have inv: "w_seen s < length (w_hist s)" "owed_held (r_Lib r) s"
    using reaches_inv [OF conjunct1 [OF operated_reaches [OF assms(1)]] assms(2)] by (simp_all add: sys_inv_def)
  then have j: "w_hist s \<noteq> []" "w_seen s \<le> length (w_hist s) - 1" "length (w_hist s) - 1 < length (w_hist s)" by auto
  have none: "w_hist s ! (length (w_hist s) - 1) = None" using assms(3) current_nth [OF j(1)] by simp
  show ?thesis
  proof (rule ccontr)
    assume "w_owed s \<noteq> {}"
    then obtain x where x: "x \<in> w_owed s" by blast
    from owed_heldD [OF inv(2) x j(2,3)] none show False by simp
  qed
qed

section \<open>Two lives\<close>

text \<open>A group by its finalizer, its deletion, its provider and its group name.\<close>

definition life_mg :: "bool \<Rightarrow> bool \<Rightarrow> string \<Rightarrow> string \<Rightarrow> machine_group" where
  "life_mg fin del provider asg = run_mg\<lparr>
     mg_meta := (sample_meta ''g1'' ''g'')\<lparr>meta_finalizers := (if fin then [machineGroupFinalizer] else []),
       meta_deletion_timestamp := (if del then Some 1 else None)\<rparr>,
     mg_Spec := (mg_Spec run_mg)\<lparr>sp_Provider := provider,
       sp_ResourceNames := \<lparr>rn_Group = asg, rn_MachineTemplate = ''lt''\<rparr>\<rparr>\<rparr>"

lemma life_mg_fields [simp]:
  "meta_finalizers (mg_meta (life_mg fin del p a)) = (if fin then [machineGroupFinalizer] else [])"
  "meta_deletion_timestamp (mg_meta (life_mg fin del p a)) = (if del then Some 1 else None)"
  "sp_ResourceNames (mg_Spec (life_mg fin del p a)) = \<lparr>rn_Group = a, rn_MachineTemplate = ''lt''\<rparr>"
  "sp_Provider (mg_Spec (life_mg fin del p a)) = p"
  by (simp_all add: life_mg_def)

lemma life_mg_facts:
  "finalized sample_lib (life_mg fin del p a) = fin" "deleted (life_mg fin del p a) = del"
  "a \<noteq> [] \<Longrightarrow> ResolveNames (life_mg fin del p a) = (''lt'', a)"
  by (simp_all add: finalized_def deleted_def is_zero_time_def sample_lib_def ResolveNames_def)

lemma life_mg_finalizers:
  "with_finalizer sample_lib (life_mg False del p a) = life_mg True del p a"
  "without_finalizer sample_lib (life_mg True del p a) = life_mg False del p a"
  unfolding with_finalizer_def without_finalizer_def life_mg_def sample_lib_def by simp_all

lemma life_mg_spec: "mg_Spec (life_mg False True p a) = mg_Spec (life_mg True True p a)"
  by (simp add: life_mg_def)

lemma life_mg_cloud: "uses_cloud (life_mg fin del ''aws'' a)" "\<not> uses_cloud (life_mg fin del ''noop'' a)"
proof -
  have "to_lower (trim_space ''aws'') = ''aws''" "to_lower (trim_space ''noop'') = ''noop''" by code_simp+
  then show "uses_cloud (life_mg fin del ''aws'' a)" "\<not> uses_cloud (life_mg fin del ''noop'' a)"
    by (simp_all add: uses_cloud_def life_mg_def)
qed

text \<open>A reconciler whose environment is the version that its cache gives, with no links and no machine ports.\<close>

definition life_reconciler :: "machine_group reconciler" where
  "life_reconciler = \<lparr>r_Client = \<lparr>k_get_group = (\<lambda>_ w. (Inr w, w)), k_list_links = (\<lambda>_ _ w. (Inr [], w)),
       k_list_ports = (\<lambda>_ w. (Inr [], w)), k_patch_group = (\<lambda>_ _. act_skip),
       k_patch_group_status = (\<lambda>_ _. act_skip), k_patch_port_status = (\<lambda>_ _. act_skip),
       k_patch_link_status = (\<lambda>_ _. act_skip), k_now = (\<lambda>_. 1000)\<rparr>,
     r_Lib = sample_lib, r_CloudManager = Some noop_manager, r_Provider = ''aws'', r_MachineStatusStaleAfter = 600\<rparr>"

lemma life_client [simp]:
  "k_get_group (r_Client life_reconciler) n w = (Inr w, w)"
  "k_list_links (r_Client life_reconciler) ns sel w = (Inr [], w)"
  "k_list_ports (r_Client life_reconciler) ns w = (Inr [], w)"
  "k_patch_group (r_Client life_reconciler) b g w = (None, w)"
  "k_patch_group_status (r_Client life_reconciler) b g w = (None, w)"
  "r_Lib life_reconciler = sample_lib"
  by (simp_all add: life_reconciler_def act_skip_def)

lemma life_manager:
  "cloudManagerFor (recorded_reconciler life_reconciler) (life_mg fin del ''aws'' a) = Inr (recorded_manager noop_manager)"
  "cloudManagerFor (recorded_reconciler life_reconciler) (life_mg fin del ''noop'' a) = Inr noop_manager"
proof -
  have "to_lower (trim_space ''aws'') = ''aws''" "to_lower (trim_space ''noop'') = ''noop''" by code_simp+
  then show
    "cloudManagerFor (recorded_reconciler life_reconciler) (life_mg fin del ''aws'' a) = Inr (recorded_manager noop_manager)"
    "cloudManagerFor (recorded_reconciler life_reconciler) (life_mg fin del ''noop'' a) = Inr noop_manager"
    by (simp_all add: cloudManagerFor_def life_reconciler_def life_mg_def Let_def)
qed

lemma life_contains [simp]: "lib_contains_finalizer sample_lib (mg_meta (life_mg fin del p a)) machineGroupFinalizer = fin"
  using life_mg_facts(1) [of fin del p a] by (simp add: finalized_def)

text \<open>The calls of the four kinds of runs.\<close>

lemma run_adds_finalizer:
  "\<exists>out. Reconcile (recorded_reconciler life_reconciler) n (life_mg False False p a, []) = Some (out, (life_mg False False p a,
     [GetGroup n (Inr (life_mg False False p a)), PatchGroup (life_mg False False p a) (life_mg True False p a) None]))"
  using life_mg_finalizers(1) [of False p a]
  by (simp add: Reconcile_def reconcile_group_def is_zero_time_def log_call_eq with_finalizer_def)

lemma run_deletes:
  "\<exists>out. Reconcile (recorded_reconciler life_reconciler) n (life_mg True True ''aws'' a, []) = Some (out, (life_mg True True ''aws'' a,
     [GetGroup n (Inr (life_mg True True ''aws'' a)), CloudDelete (life_mg True True ''aws'' a) None,
      PatchGroup (life_mg True True ''aws'' a) (life_mg False True ''aws'' a) None]))"
  "\<exists>out. Reconcile (recorded_reconciler life_reconciler) n (life_mg True True ''noop'' a, []) = Some (out, (life_mg True True ''noop'' a,
     [GetGroup n (Inr (life_mg True True ''noop'' a)),
      PatchGroup (life_mg True True ''noop'' a) (life_mg False True ''noop'' a) None]))"
  using life_mg_finalizers(2) [of True "''aws''" a] life_mg_finalizers(2) [of True "''noop''" a]
  by (simp_all add: Reconcile_def reconcile_group_def reconcileDelete_def is_zero_time_def log_call_eq
      life_manager noop_manager_def noop_Delete_def act_skip_def without_finalizer_def Let_def)

lemma run_ensures:
  "\<exists>out res rest. Reconcile (recorded_reconciler life_reconciler) n (life_mg True False ''aws'' a, []) =
     Some (out, (life_mg True False ''aws'' a,
       [GetGroup n (Inr (life_mg True False ''aws'' a)), ListLinks ''ns'' None (Inr []), ListPorts ''ns'' (Inr []),
        CloudEnsure (life_mg True False ''aws'' a) [] [] res] @ rest))"
proof -
  let ?mg = "life_mg True False ''aws'' a" and ?r = "recorded_reconciler life_reconciler"
  have meta: "meta_namespace (mg_meta ?mg) = ''ns''" "sp_LinkSelector (mg_Spec ?mg) = None"
    "st_AllocatedPorts (mg_Status ?mg) = []" "sp_PortRange (mg_Spec ?mg) = \<lparr>range_start = 10000, range_end = 10010\<rparr>"
    by (simp_all add: life_mg_def run_mg_def sample_group)
  have spec: "Validate \<lparr>range_start = 10000, range_end = 10010\<rparr> = Inr ()"
    "NormalizeLoadBalancers (sp_Exposure (mg_Spec ?mg)) = Inr []"
    by (simp_all add: Validate_def life_mg_def run_mg_def sample_group NormalizeLoadBalancers_def)
  have lists: "managed_links ?mg [] = []" "managed_ports ?mg [] = []"
    by (simp_all add: managed_links_def managed_ports_def)
  have alloc: "ReconcilePorts [] (port_requests []) 10000 10010 = Some (Inr [])" by code_simp
  have prune: "pruneStaleMachineStatuses ?r ?mg now = (0, ?mg)" for now
    by (simp add: pruneStaleMachineStatuses_def life_mg_def run_mg_def sample_status_def)
  define res where "res = fst (noop_Ensure ?mg [] [] ?mg)"
  have res: "noop_Ensure ?mg [] [] w = (res, w)" for w :: machine_group
    by (simp add: res_def noop_Ensure_def spec Let_def split: prod.split)
  obtain cs ps err where parts: "res = (cs, ps, err)" by (rule prod_cases3)
  show ?thesis
    by (simp add: parts Reconcile_def reconcile_group_def is_zero_time_def meta spec reconcile_ports_def
        list_links_recorded list_ports_recorded on_items_def log_call_eq lists maxMachinePortsPerGroup_def alloc Let_def
        reconcile_allocated_eq life_manager noop_manager_def res after_ensure_def prune
        syncMachinePortStatuses_def syncLinkStatuses_def split: prod.split)
qed

text \<open>
  One life of a sample group on AWS with the group name \<open>a\<close>: created, ensured, edited to the provider \<open>p\<close>
  and the group name \<open>a'\<close>, deleted, and removed.
\<close>

abbreviation world_of :: "machine_group option list \<Rightarrow> nat \<Rightarrow> (string \<times> string) set \<Rightarrow> world" where
  "world_of h i xs \<equiv> \<lparr>w_hist = h, w_seen = i, w_run = None, w_owed = xs\<rparr>"

definition life_hist :: "string \<Rightarrow> string \<Rightarrow> string \<Rightarrow> machine_group option list" where
  "life_hist a p a' = [Some (life_mg False False ''aws'' a), Some (life_mg True False ''aws'' a),
     Some (life_mg True False p a'), Some (life_mg True True p a'), Some (life_mg False True p a'), None]"

lemma plays_reads:
  "i \<le> j \<Longrightarrow> j < length h \<Longrightarrow> h ! j = Some mg \<Longrightarrow>
     plays L pin [GetGroup n (Inr mg)] (world_of h i xs) (world_of h j xs)"
  using reads [OF quiet, of "world_of h i xs" j mg L pin n] by simp

lemma plays_asks:
  "plays L pin es s s' \<Longrightarrow> effect L ev s' s'' \<Longrightarrow> es' = es @ [ev] \<Longrightarrow> plays L pin es' s s''"
  using asks by blast

lemma edited_to:
  "operated r pin g0 (world_of h i xs) \<Longrightarrow> h \<noteq> [] \<Longrightarrow> last h = Some mg \<Longrightarrow> others_may (r_Lib r) pin mg v \<Longrightarrow>
     operated r pin g0 (world_of (h @ [v]) i xs)"
  using edited [of r pin g0 "world_of h i xs" mg v] by (simp add: current_def store_group_def)

lemma patch_effect:
  "h \<noteq> [] \<Longrightarrow> last h = Some mg \<Longrightarrow> patched L obj mg obj \<Longrightarrow>
     effect L (PatchGroup base obj answer) (world_of h i xs) (world_of (h @ [Some obj]) i xs)"
  by (auto simp: current_def store_group_def)

lemma life_patched:
  "patched sample_lib (life_mg fin' del p a) (life_mg fin del p a) (life_mg fin' del p a)"
  by (simp add: patched_def life_mg_facts ResolveNames_def) (simp add: life_mg_def)

lemma life_until_ensured:
  assumes "a \<noteq> []"
  shows "operated life_reconciler pin (life_mg False False ''aws'' a)
    (world_of [Some (life_mg False False ''aws'' a), Some (life_mg True False ''aws'' a)] 1 {(''lt'', a)})"
proof -
  let ?g0 = "life_mg False False ''aws'' a" and ?g1 = "life_mg True False ''aws'' a"
  fix n :: namespaced_name
  obtain out where add: "Reconcile (recorded_reconciler life_reconciler) n (?g0, []) =
      Some (out, (?g0, [GetGroup n (Inr ?g0), PatchGroup ?g0 ?g1 None] @ []))" using run_adds_finalizer by fastforce
  obtain out' res rest where ensure: "Reconcile (recorded_reconciler life_reconciler) n (?g1, []) =
      Some (out', (?g1, [GetGroup n (Inr ?g1), ListLinks ''ns'' None (Inr []), ListPorts ''ns'' (Inr []),
        CloudEnsure ?g1 [] [] res] @ rest))" using run_ensures by blast
  have "operated life_reconciler pin ?g0 (world_of [Some ?g0] 0 {})"
    using creation [of life_reconciler pin ?g0] by (simp add: created_def)
  moreover have "plays sample_lib pin [GetGroup n (Inr ?g0), PatchGroup ?g0 ?g1 None]
      (world_of [Some ?g0] 0 {}) (world_of ([Some ?g0] @ [Some ?g1]) 0 {})"
    by (rule plays_asks [OF plays_reads patch_effect [OF _ _ life_patched]]) simp_all
  ultimately have "operated life_reconciler pin ?g0 (world_of [Some ?g0, Some ?g1] 0 {})"
    using reconciled [OF _ add] by simp
  moreover have "plays (r_Lib life_reconciler) pin [GetGroup n (Inr ?g1), ListLinks ''ns'' None (Inr []),
      ListPorts ''ns'' (Inr []), CloudEnsure ?g1 [] [] res]
      (world_of [Some ?g0, Some ?g1] 0 {}) (world_of [Some ?g0, Some ?g1] 1 {(''lt'', a)})"
    by (rule plays_asks [where s' = "world_of [Some ?g0, Some ?g1] 1 {}", OF plays_asks
          [where s' = "world_of [Some ?g0, Some ?g1] 1 {}", OF plays_asks
            [where s' = "world_of [Some ?g0, Some ?g1] 1 {}", OF plays_reads]]])
      (simp_all add: life_mg_facts(3) [OF assms])
  ultimately show ?thesis by (rule reconciled [OF _ ensure])
qed

text \<open>From an edited group to its removal: with the provider it names, or without one.\<close>

lemma life_until_gone:
  assumes "operated life_reconciler pin g0 (world_of h 1 xs)" "2 \<le> length h" "last h = Some (life_mg True False ''aws'' a)"
    and "p \<in> {''aws'', ''noop''}" "a' \<noteq> []" "pin \<Longrightarrow> p = ''aws'' \<and> a' = a \<and> a \<noteq> []"
  shows "operated life_reconciler pin g0 (world_of (h @ [Some (life_mg True False p a'), Some (life_mg True True p a'),
    Some (life_mg False True p a'), None]) (Suc (length h)) (if p = ''aws'' then xs - {(''lt'', a')} else xs))"
proof -
  fix n :: namespaced_name
  let ?g2 = "life_mg True False p a'" and ?g3 = "life_mg True True p a'" and ?g4 = "life_mg False True p a'"
  let ?h3 = "(h @ [Some ?g2]) @ [Some ?g3]" and ?k = "Suc (length h)"
  let ?ys = "if p = ''aws'' then xs - {(''lt'', a')} else xs"
  let ?log = "[GetGroup n (Inr ?g3)] @ (if p = ''aws'' then [CloudDelete ?g3 None] else []) @ [PatchGroup ?g3 ?g4 None]"
  have "h \<noteq> []" using assms(2) by auto
  then have "operated life_reconciler pin g0 (world_of (h @ [Some ?g2]) 1 xs)"
    using edited_to [OF assms(1) _ assms(3), of "Some ?g2"] assms(5,6)
    by (simp add: others_may_def life_mg_facts keeps_resources_def life_mg_cloud)
  then have operated: "operated life_reconciler pin g0 (world_of ?h3 1 xs)"
    using edited_to [of life_reconciler pin g0 "h @ [Some ?g2]" 1 xs ?g2 "Some ?g3"] assms(4,5)
    by (auto simp: others_may_def life_mg_facts keeps_resources_def life_mg_cloud)
  obtain out where run: "Reconcile (recorded_reconciler life_reconciler) n (?g3, []) = Some (out, (?g3, ?log @ []))"
    using assms(4) run_deletes [of n a'] by (elim insertE emptyE) auto
  have read: "plays sample_lib pin [GetGroup n (Inr ?g3)] (world_of ?h3 1 xs) (world_of ?h3 ?k xs)"
    by (rule plays_reads) (use assms(2) in \<open>simp_all add: nth_append\<close>)
  have "plays sample_lib pin ([GetGroup n (Inr ?g3)] @ (if p = ''aws'' then [CloudDelete ?g3 None] else []))
      (world_of ?h3 1 xs) (world_of ?h3 ?k ?ys)"
  proof (cases "p = ''aws''")
    case True
    have "effect sample_lib (CloudDelete ?g3 None) (world_of ?h3 ?k xs) (world_of ?h3 ?k (xs - {(''lt'', a')}))"
      by (simp add: life_mg_facts(3) [OF assms(5)])
    from plays_asks [OF read this refl] show ?thesis by (simp add: True)
  qed (use read in simp)
  from plays_asks [OF this patch_effect [OF _ _ life_patched]]
  have "plays sample_lib pin ?log (world_of ?h3 1 xs) (world_of (?h3 @ [Some ?g4]) ?k ?ys)" by simp
  with reconciled [OF operated run] have "operated life_reconciler pin g0 (world_of (?h3 @ [Some ?g4]) ?k ?ys)" by simp
  from edited_to [OF this _ _, of ?g4 None] show ?thesis by (simp add: others_may_def life_mg_facts)
qed

lemma sample_life:
  assumes "p \<in> {''aws'', ''noop''}" "a \<noteq> []" "a' \<noteq> []" "pin \<Longrightarrow> p = ''aws'' \<and> a' = a"
  shows "\<exists>s. operated life_reconciler pin (life_mg False False ''aws'' a) s \<and> w_hist s = life_hist a p a' \<and>
    w_owed s = (if p = ''aws'' then {(''lt'', a)} - {(''lt'', a')} else {(''lt'', a)})"
  by (rule exI, rule conjI [OF life_until_gone [OF life_until_ensured [OF assms(2)] _ _ assms(1,3)]])
    (use assms in \<open>simp_all add: life_hist_def\<close>)

text \<open>
  C32: Without the restriction the guarantee is lost. A group on AWS whose provider is edited to \<^verbatim>\<open>noop\<close> before
  it is deleted goes away while its resources stay, because the deletion goes to the provider without a
  cloud; so does a group whose resource names are edited, because the deletion uses the new names.
\<close>

theorem edits_leak_resources:
  "(\<exists>s. operated life_reconciler False (life_mg False False ''aws'' ''a'') s \<and>
      w_hist s = life_hist ''a'' ''noop'' ''a'' \<and> current s = None \<and> w_owed s = {(''lt'', ''a'')}) \<and>
   (\<exists>s. operated life_reconciler False (life_mg False False ''aws'' ''a'') s \<and>
      w_hist s = life_hist ''a'' ''aws'' ''b'' \<and> current s = None \<and> w_owed s = {(''lt'', ''a'')})"
proof -
  have "current s = None" if "w_hist s = life_hist a p a'" for s a p a'
    using that by (simp add: current_def life_hist_def)
  then show ?thesis
    using sample_life [of "''noop''" "''a''" "''a''" False] sample_life [of "''aws''" "''a''" "''b''" False] by auto
qed

theorem no_resources_left_witness:
  "\<exists>s. operated life_reconciler True (life_mg False False ''aws'' ''a'') s \<and>
     w_hist s = life_hist ''a'' ''aws'' ''a'' \<and> w_owed s = {}"
proof -
  obtain s where s: "operated life_reconciler True (life_mg False False ''aws'' ''a'') s"
    "w_hist s = life_hist ''a'' ''aws'' ''a''"
    using sample_life [of "''aws''" "''a''" "''a''" True] by auto
  then have "current s = None" by (simp add: current_def life_hist_def)
  with no_resources_left [OF s(1) _ this] s sample_finalizer_law show ?thesis by auto
qed

end
