(* ===== verification/Convergence.thy ===== *)
theory Convergence
  imports Controller_Properties
begin

text \<open>
  Does the controller come to rest? Every patch of a status is a change that makes it reconcile again, so it
  must be that a second \<^verbatim>\<open>Reconcile\<close> finds nothing to write. \<open>quiet_client\<close> is an API server that only the
  controller writes to; \<open>Reconcile_converges\<close> says that one \<^verbatim>\<open>Reconcile\<close> of an active group settles it.

  What it takes of the provider is the locale \<open>steady_provider\<close>: asked again, with objects that differ in
  their statuses only, it gives the same answer and leaves its cloud as it is. The provider without a cloud
  has this property; the AWS provider does not, because of its launch template versions.
\<close>

section \<open>The law of conditions\<close>

text \<open>
  The documentation of \<^verbatim>\<open>meta.SetStatusCondition\<close>: an existing condition is only changed where it differs,
  and its transition time only when the status does.
\<close>

definition keep_condition_law :: "kube_lib \<Rightarrow> bool" where
  "keep_condition_law L \<longleftrightarrow> (\<forall>cs c t. condition_of (cond_type c) cs = Some (c\<lparr>cond_transition := t\<rparr>) \<longrightarrow>
     lib_set_condition L cs c = cs)"

definition stable_conditions :: "kube_lib \<Rightarrow> bool" where
  "stable_conditions L \<longleftrightarrow> set_condition_law L \<and> keep_condition_law L"

text \<open>The condition of a type, up to its transition time.\<close>

definition reports :: "condition list \<Rightarrow> string \<Rightarrow> string \<Rightarrow> string \<Rightarrow> string \<Rightarrow> int \<Rightarrow> bool" where
  "reports cs type status reason message generation \<longleftrightarrow>
     (\<exists>t. condition_of type cs = Some (new_condition type status reason message generation t))"

lemma new_condition_transition [simp]:
  "(new_condition type s r m g now)\<lparr>cond_transition := t\<rparr> = new_condition type s r m g t"
  by (simp add: new_condition_def)

lemma reports_set:
  assumes "stable_conditions L"
  shows "reports (lib_set_condition L cs (new_condition type s r m g now)) type s r m g"
  using assms set_condition_same [of L "new_condition type s r m g now" cs]
  unfolding stable_conditions_def reports_def by fastforce

lemma reports_other:
  assumes "stable_conditions L" "reports cs type s r m g" "type \<noteq> type'"
  shows "reports (lib_set_condition L cs (new_condition type' s' r' m' g' now)) type s r m g"
  using assms set_condition_other [of L type "new_condition type' s' r' m' g' now" cs]
  unfolding stable_conditions_def reports_def by simp

lemma set_reported:
  assumes "stable_conditions L" "reports cs type s r m g"
  shows "lib_set_condition L cs (new_condition type s r m g now) = cs"
  using assms unfolding stable_conditions_def keep_condition_law_def reports_def
  by (metis new_condition_fields(1) new_condition_transition)

section \<open>Writing a status twice\<close>

text \<open>The exposure of a machine port: its phase, its cloud status and the condition \<^verbatim>\<open>Exposed\<close>.\<close>

definition exposure_verdict ::
  "lb_exposure_spec list \<Rightarrow> int option \<Rightarrow> (string, port_cloud_status) gomap \<Rightarrow> go_error option \<Rightarrow> string \<Rightarrow>
   string \<times> port_cloud_status \<times> string \<times> string \<times> string" where
  "exposure_verdict lbs assigned cloud err uid =
     (let entry = SetPrimaryLoadBalancerCompat_port
            (case map_of cloud uid of None \<Rightarrow> empty_port_cloud_status | Some c \<Rightarrow> c);
          ready = countReadyPortLoadBalancers lbs (pcs_LoadBalancers entry);
          required = countRequiredPortLoadBalancers lbs;
          ratio = show_int (int ready) @ ''/'' @ show_int (int required);
          phase = (if assigned = None then MachinePortPhasePending else MachinePortPhaseAllocated) in
      if assigned = None then (phase, empty_port_cloud_status, ConditionFalse, ''PortUnassigned'',
        ''listener is not reconciled before port assignment'')
      else if lbs = [] then (MachinePortPhaseReady, empty_port_cloud_status, ConditionTrue, ''ExposureDisabled'',
        ''machine group load balancer exposure is disabled'')
      else case err of
        Some e \<Rightarrow> (phase, empty_port_cloud_status, ConditionFalse, ''CloudEnsureFailed'', err_text e)
      | None \<Rightarrow>
          if required > 0 \<and> ready = required then (MachinePortPhaseReady, entry, ConditionTrue, ''Ready'',
            ratio @ '' load balancer listeners are ready'')
          else (phase, entry, ConditionFalse, ''Pending'',
            ''waiting for load balancer listeners ('' @ ratio @ '' ready)''))"

definition assignment_verdict :: "int option \<Rightarrow> string \<times> string \<times> string" where
  "assignment_verdict assigned = (case assigned of
       Some port \<Rightarrow> (ConditionTrue, ''Assigned'', ''assigned port '' @ show_int port)
     | None \<Rightarrow> (ConditionFalse, ''Unassigned'', ''waiting for port allocation''))"

definition report_port :: "kube_lib \<Rightarrow> time \<Rightarrow> int option \<Rightarrow> string \<times> string \<times> string \<Rightarrow>
   string \<times> port_cloud_status \<times> string \<times> string \<times> string \<Rightarrow> machine_port \<Rightarrow> machine_port" where
  "report_port L now assigned a v p = (case a of (s, r, m) \<Rightarrow> case v of (phase, cloud, s', r', m') \<Rightarrow>
     p\<lparr>mp_Status := \<lparr>mpt_ObservedGeneration = meta_generation (mp_meta p), mpt_AssignedPort = assigned,
       mpt_Phase = phase, mpt_Cloud = cloud,
       mpt_Conditions = lib_set_condition L (lib_set_condition L (mpt_Conditions (mp_Status p))
           (new_condition ConditionPortAssigned s r m (meta_generation (mp_meta p)) now))
         (new_condition ConditionExposed s' r' m' (meta_generation (mp_meta p)) now)\<rparr>\<rparr>)"

lemma port_assignment_report:
  "port_assignment L now assigned p = (case assignment_verdict assigned of (s, r, m) \<Rightarrow>
     p\<lparr>mp_Status := (mp_Status p)\<lparr>mpt_AssignedPort := assigned,
       mpt_Phase := (if assigned = None then MachinePortPhasePending else MachinePortPhaseAllocated),
       mpt_Conditions := lib_set_condition L (mpt_Conditions (mp_Status p))
         (new_condition ConditionPortAssigned s r m (meta_generation (mp_meta p)) now)\<rparr>\<rparr>)"
  by (cases assigned) (simp_all add: port_assignment_def assignment_verdict_def set_port_condition_def
      set_port_phase_def set_port_assigned_def)

lemma port_exposure_report:
  assumes "mpt_Phase (mp_Status p) = (if assigned = None then MachinePortPhasePending else MachinePortPhaseAllocated)"
  shows "port_exposure L now lbs assigned cloud err p = (case exposure_verdict lbs assigned cloud err (mp_uid p) of
     (phase, c, s, r, m) \<Rightarrow> p\<lparr>mp_Status := (mp_Status p)\<lparr>mpt_Phase := phase, mpt_Cloud := c,
       mpt_Conditions := lib_set_condition L (mpt_Conditions (mp_Status p))
         (new_condition ConditionExposed s r m (meta_generation (mp_meta p)) now)\<rparr>\<rparr>)"
proof -
  obtain meta spec gen asg ph cl cs where p: "p = \<lparr>mp_meta = meta, mp_Spec = spec, mp_Status =
      \<lparr>mpt_ObservedGeneration = gen, mpt_AssignedPort = asg, mpt_Phase = ph, mpt_Cloud = cl, mpt_Conditions = cs\<rparr>\<rparr>"
    by (cases p; cases "mp_Status p") simp
  have ph: "ph = (if assigned = None then MachinePortPhasePending else MachinePortPhaseAllocated)"
    using assms by (simp add: p)
  note defs = port_exposure_def exposure_verdict_def set_port_condition_def set_port_phase_def set_port_cloud_def
  consider "assigned = None" | port where "assigned = Some port" "lbs = []"
    | port e where "assigned = Some port" "lbs \<noteq> []" "err = Some e" | port where "assigned = Some port" "lbs \<noteq> []" "err = None"
    by fastforce
  then show ?thesis
  proof cases
    case 4
    define entry where "entry = SetPrimaryLoadBalancerCompat_port
      (case map_of cloud (meta_uid meta) of None \<Rightarrow> empty_port_cloud_status | Some c \<Rightarrow> c)"
    define ready where "ready = countReadyPortLoadBalancers lbs (pcs_LoadBalancers entry)"
    show ?thesis
      using 4 by (simp add: defs p ph Let_def entry_def [symmetric] ready_def [symmetric]
          del: append.simps append_assoc SetPrimary_port_balancers)
  qed (simp_all add: defs p ph Let_def)
qed

lemma updated_port_report:
  "updated_port L now lbs al cloud err p = report_port L now (map_of al (mp_uid p))
     (assignment_verdict (map_of al (mp_uid p))) (exposure_verdict lbs (map_of al (mp_uid p)) cloud err (mp_uid p)) p"
proof -
  let ?a = "map_of al (mp_uid p)"
  obtain s r m phase c s' r' m' where v: "assignment_verdict ?a = (s, r, m)"
    "exposure_verdict lbs ?a cloud err (mp_uid p) = (phase, c, s', r', m')"
    by (cases "assignment_verdict ?a"; cases "exposure_verdict lbs ?a cloud err (mp_uid p)")
  let ?q = "port_assignment L now ?a p"
  have q: "mp_meta ?q = mp_meta p" "mpt_Phase (mp_Status ?q) = (if ?a = None then MachinePortPhasePending else MachinePortPhaseAllocated)"
    by (simp_all add: status_simps)
  show ?thesis
    unfolding updated_port_def Let_def port_exposure_report [OF q(2)] q(1) v(2)
    by (simp add: port_assignment_report v report_port_def set_port_observed_def)
qed

lemma failed_port_report:
  "failed_port L now msg p = report_port L now None (ConditionFalse, ''PortAllocationFailed'', msg)
     (MachinePortPhaseError, empty_port_cloud_status, ConditionFalse, ''PortAllocationFailed'', msg) p"
  by (simp add: failed_port_def report_port_def set_port_condition_def set_port_phase_def set_port_cloud_def
      set_port_assigned_def set_port_observed_def)

lemma report_port_meta [simp]:
  "mp_meta (report_port L now assigned a v p) = mp_meta p" "mp_Spec (report_port L now assigned a v p) = mp_Spec p"
  by (simp_all add: report_port_def split: prod.split)

lemma condition_types: "ConditionPortAssigned \<noteq> ConditionExposed"
  by (simp add: ConditionPortAssigned_def ConditionExposed_def)

lemma report_port_twice:
  assumes "stable_conditions L"
  shows "report_port L now' assigned a v (report_port L now assigned a v p) = report_port L now assigned a v p"
proof -
  obtain s r m phase cloud s' r' m' where av: "a = (s, r, m)" "v = (phase, cloud, s', r', m')"
    by (cases a; cases v)
  let ?g = "meta_generation (mp_meta p)"
  let ?cs = "lib_set_condition L (lib_set_condition L (mpt_Conditions (mp_Status p))
     (new_condition ConditionPortAssigned s r m ?g now)) (new_condition ConditionExposed s' r' m' ?g now)"
  have "reports ?cs ConditionPortAssigned s r m ?g"
    by (rule reports_other [OF assms reports_set [OF assms] condition_types])
  moreover have "reports ?cs ConditionExposed s' r' m' ?g" by (rule reports_set [OF assms])
  ultimately show ?thesis by (simp add: report_port_def av set_reported [OF assms])
qed

text \<open>The same for links and for the group.\<close>

definition link_verdict ::
  "(string, int) gomap \<Rightarrow> (string, string) gomap \<Rightarrow> string \<Rightarrow> string \<Rightarrow> string \<times> string \<times> string \<times> string" where
  "link_verdict assigned errs d uid =
     (if map_of assigned uid \<noteq> None then (''Ready'', ConditionTrue, ''Resolved'', ''resolved to an allocated TiProxyMachinePort'')
      else (let msg = trim_space (case map_of errs uid of None \<Rightarrow> [] | Some m \<Rightarrow> m)
            in (''Error'', ConditionFalse, ''Unresolved'', if msg = [] then trim_space d else msg)))"

lemma updated_link_report:
  "updated_link L now assigned errs d l = (case link_verdict assigned errs d (lk_uid l) of (phase, s, r, m) \<Rightarrow>
     l\<lparr>lk_Status := \<lparr>lkt_ObservedGeneration = meta_generation (lk_meta l), lkt_Phase = phase,
       lkt_Conditions = lib_set_condition L (lkt_Conditions (lk_Status l))
         (new_condition ConditionReady s r m (meta_generation (lk_meta l)) now)\<rparr>\<rparr>)"
  by (simp add: updated_link_def link_verdict_def Let_def set_link_condition_def)

lemma updated_link_twice:
  assumes "stable_conditions L"
  shows "updated_link L now' assigned errs d (updated_link L now assigned errs d l) = updated_link L now assigned errs d l"
proof -
  obtain phase s r m where v: "link_verdict assigned errs d (lk_uid l) = (phase, s, r, m)" by (rule prod_cases4)
  then show ?thesis
    by (simp add: updated_link_report set_reported [OF assms reports_set [OF assms]])
qed

lemma set_group_condition_twice:
  assumes "stable_conditions L"
  shows "set_group_condition L s r m now' (set_group_condition L s r m now g) = set_group_condition L s r m now g"
  by (simp add: set_group_condition_def set_reported [OF assms reports_set [OF assms]])

text \<open>The verdict on a group after the provider has answered.\<close>

definition group_verdict ::
  "go_error option \<Rightarrow> (string, string) gomap \<Rightarrow> nat \<Rightarrow> nat \<Rightarrow> nat \<Rightarrow> string \<times> string \<times> string" where
  "group_verdict err linkErrors links ports pruned = (case err of
       Some e \<Rightarrow> (ConditionFalse, ''CloudEnsureFailed'', err_text e)
     | None \<Rightarrow> if length linkErrors > 0 then (ConditionFalse, ''InsufficientMachinePorts'',
           show_int (int (length linkErrors)) @ '' link(s) unresolved due to missing machine ports'')
         else (ConditionTrue, ''Ready'', ready_message links ports pruned))"

lemma group_status_report:
  "group_status L now al rls cs err errs n g = (case group_verdict err errs (length rls) (length al) n of (s, r, m) \<Rightarrow>
     g\<lparr>mg_Status := (mg_Status g)\<lparr>st_ObservedGeneration := meta_generation (mg_meta g), st_AllocatedPorts := al,
       st_ResolvedLinks := rls, st_Cloud := cs, st_Conditions := lib_set_condition L (st_Conditions (mg_Status g))
         (new_condition ConditionReady s r m (meta_generation (mg_meta g)) now)\<rparr>\<rparr>)"
  by (simp add: group_status_def group_verdict_def Let_def set_group_condition_def split: option.split)

lemma group_status_twice:
  assumes "stable_conditions L" "length al' = length al"
  shows "group_status L now' al' rls cs err errs n (group_status L now al rls cs err errs n g) =
    (let g' = group_status L now al rls cs err errs n g in g'\<lparr>mg_Status := (mg_Status g')\<lparr>st_AllocatedPorts := al'\<rparr>\<rparr>)"
proof -
  obtain s r m where v: "group_verdict err errs (length rls) (length al) n = (s, r, m)" by (rule prod_cases3)
  then show ?thesis
    by (simp add: group_status_report assms(2) set_reported [OF assms(1) reports_set [OF assms(1)]] Let_def)
qed

section \<open>Objects that differ in their statuses\<close>

definition link_key :: "pool_link \<Rightarrow> object_meta \<times> pool_link_spec" where
  "link_key l = (lk_meta l, lk_Spec l)"

definition port_key :: "machine_port \<Rightarrow> object_meta \<times> machine_port_spec" where
  "port_key p = (mp_meta p, mp_Spec p)"

lemma updated_keys [simp]:
  "link_key (updated_link L now as errs d l) = link_key l" "port_key (report_port L now a v w p) = port_key p"
  by (simp_all add: link_key_def port_key_def status_simps)

lemma sort_key_map:
  assumes "\<And>x. k (f x) = k x"
  shows "sort_key k (map f xs) = map f (sort_key k xs)"
proof -
  have "insort_key k (f x) (map f ys) = map f (insort_key k x ys)" for x ys
    by (induction ys) (simp_all add: assms)
  then show ?thesis by (induction xs) simp_all
qed

lemma managed_links_map:
  assumes "\<And>l. link_key (f l) = link_key l" "mg_meta g' = mg_meta g"
  shows "managed_links g' (map f links) = map f (managed_links g links)"
proof -
  have f: "lk_meta (f l) = lk_meta l" "lk_Spec (f l) = lk_Spec l" for l using assms(1) [of l] by (simp_all add: link_key_def)
  show ?thesis by (simp add: managed_links_def refers_to_def assms(2) f filter_map comp_def sort_key_map)
qed

lemma managed_ports_map:
  assumes "\<And>p. port_key (f p) = port_key p" "mg_meta g' = mg_meta g"
  shows "managed_ports g' (map f ports) = map f (managed_ports g ports)"
proof -
  have f: "mp_meta (f p) = mp_meta p" "mp_Spec (f p) = mp_Spec p" for p using assms(1) [of p] by (simp_all add: port_key_def)
  show ?thesis by (simp add: managed_ports_def refers_to_def assms(2) f filter_map comp_def sort_key_map)
qed

lemma port_requests_same: "map port_key ps' = map port_key ps \<Longrightarrow> port_requests ps' = port_requests ps"
  by (induction ps' ps rule: list_induct2') (simp_all add: port_requests_def port_key_def)

lemma ordered_available_same:
  "map port_key ps' = map port_key ps \<Longrightarrow> map_of al' = map_of al \<Longrightarrow> ordered_available ps' al' = ordered_available ps al"
  by (induction ps' ps rule: list_induct2') (simp_all add: port_key_def split: option.split)

lemma match_same_name_same:
  "map link_key ls' = map link_key ls \<Longrightarrow> match_same_name ls' assigned used byName = match_same_name ls assigned used byName"
  by (induction ls' ls arbitrary: assigned used byName rule: list_induct2')
    (simp_all add: link_key_def split: option.split)

lemma assign_rest_same:
  "map link_key ls' = map link_key ls \<Longrightarrow> assign_rest ls' remaining assigned = assign_rest ls remaining assigned"
  by (induction ls' ls arbitrary: remaining assigned rule: list_induct2') (simp_all add: link_key_def split: list.split)

lemma report_unassigned_same:
  "map link_key ls' = map link_key ls \<Longrightarrow> report_unassigned msg assigned ls' errs = report_unassigned msg assigned ls errs"
  by (induction ls' ls arbitrary: errs rule: list_induct2') (simp_all add: link_key_def)

lemma resolve_link_same: "link_key l = link_key k \<Longrightarrow> resolve_link l = resolve_link k"
  by (rule ext) (simp only: resolve_link_def link_key_def prod.inject)

lemma assignPortsToLinks_same:
  assumes "map link_key ls' = map link_key ls" "map port_key ps' = map port_key ps" "map_of al' = map_of al"
  shows "assignPortsToLinks ls' ps' al' = assignPortsToLinks ls ps al"
proof -
  have "length ls' = length ls" using assms(1) by (rule map_eq_imp_length_eq)
  moreover from this have "ls' = [] \<longleftrightarrow> ls = []" by auto
  ultimately show ?thesis
    by (simp only: assignPortsToLinks_def ordered_available_same [OF assms(2,3)] match_same_name_same [OF assms(1)]
        assign_rest_same [OF assms(1)] report_unassigned_same [OF assms(1)])
qed

lemma buildResolvedLinks_same:
  "map link_key ls' = map link_key ls \<Longrightarrow> buildResolvedLinks ls' lp = buildResolvedLinks ls lp"
proof (induction ls' ls rule: list_induct2')
  case (4 l ls' k ls)
  have key: "link_key l = link_key k" and rest: "map link_key ls' = map link_key ls" using 4(2) by simp_all
  have "lk_uid l = lk_uid k" using key by (simp add: link_key_def)
  with resolve_link_same [OF key] 4(1) [OF rest] show ?case
    by (simp add: buildResolvedLinks_def map_filter_simps split: option.split)
qed simp_all

section \<open>A quiet API server\<close>

text \<open>
  The objects of one group with nobody else writing, and the provider's cloud. A patch merges what changed
  between its base and its object into the stored object, field by field.
\<close>

record 'v quiet_store =
  qs_group :: machine_group
  qs_links :: "pool_link list"
  qs_ports :: "machine_port list"
  qs_now :: time
  qs_cloud :: 'v

definition merged :: "'a \<Rightarrow> 'a \<Rightarrow> 'a \<Rightarrow> 'a" where
  "merged base obj stored = (if obj = base then stored else obj)"

definition merge_status :: "machine_group_status \<Rightarrow> machine_group_status \<Rightarrow> machine_group_status \<Rightarrow> machine_group_status" where
  "merge_status b x st = \<lparr>
     st_ObservedGeneration = merged (st_ObservedGeneration b) (st_ObservedGeneration x) (st_ObservedGeneration st),
     st_AllocatedPorts = merged (st_AllocatedPorts b) (st_AllocatedPorts x) (st_AllocatedPorts st),
     st_ResolvedLinks = merged (st_ResolvedLinks b) (st_ResolvedLinks x) (st_ResolvedLinks st),
     st_Machines = merged (st_Machines b) (st_Machines x) (st_Machines st),
     st_Cloud = merged (st_Cloud b) (st_Cloud x) (st_Cloud st),
     st_Conditions = merged (st_Conditions b) (st_Conditions x) (st_Conditions st)\<rparr>"

definition replace_by :: "('a \<Rightarrow> string) \<Rightarrow> 'a \<Rightarrow> 'a list \<Rightarrow> 'a list" where
  "replace_by uid q xs = map (\<lambda>x. if uid x = uid q then q else x) xs"

definition quiet_client :: "'v quiet_store kube_client" where
  "quiet_client = \<lparr>
     k_get_group = (\<lambda>n s. (Inr (qs_group s), s)),
     k_list_links = (\<lambda>ns sel s. (Inr (qs_links s), s)),
     k_list_ports = (\<lambda>ns s. (Inr (qs_ports s), s)),
     k_patch_group = (\<lambda>base obj s. (None, s\<lparr>qs_group := (qs_group s)\<lparr>mg_meta := mg_meta obj\<rparr>\<rparr>)),
     k_patch_group_status = (\<lambda>base obj s. (None, s\<lparr>qs_group := (qs_group s)\<lparr>mg_Status :=
       merge_status (mg_Status base) (mg_Status obj) (mg_Status (qs_group s))\<rparr>\<rparr>)),
     k_patch_port_status = (\<lambda>base obj s. (None, s\<lparr>qs_ports := replace_by (\<lambda>p. mp_uid p) obj (qs_ports s)\<rparr>)),
     k_patch_link_status = (\<lambda>base obj s. (None, s\<lparr>qs_links := replace_by (\<lambda>l. lk_uid l) obj (qs_links s)\<rparr>)),
     k_now = qs_now\<rparr>"

lemma quiet_simps [simp]:
  "k_get_group quiet_client n s = (Inr (qs_group s), s)"
  "k_list_links quiet_client ns sel s = (Inr (qs_links s), s)"
  "k_list_ports quiet_client ns s = (Inr (qs_ports s), s)"
  "k_patch_group_status quiet_client b g s = (None, s\<lparr>qs_group := (qs_group s)\<lparr>mg_Status :=
     merge_status (mg_Status b) (mg_Status g) (mg_Status (qs_group s))\<rparr>\<rparr>)"
  "k_patch_port_status quiet_client p q s = (None, s\<lparr>qs_ports := replace_by (\<lambda>p. mp_uid p) q (qs_ports s)\<rparr>)"
  "k_patch_link_status quiet_client l m s = (None, s\<lparr>qs_links := replace_by (\<lambda>l. lk_uid l) m (qs_links s)\<rparr>)"
  "k_now quiet_client s = qs_now s"
  by (simp_all add: quiet_client_def)

text \<open>A provider that works on the cloud of the store.\<close>

definition on_cloud :: "'v cloud_manager \<Rightarrow> 'v quiet_store cloud_manager" where
  "on_cloud m = \<lparr>
     EnsureMachineGroup = (\<lambda>mg mps al s. case EnsureMachineGroup m mg mps al (qs_cloud s) of
       (res, v) \<Rightarrow> (res, s\<lparr>qs_cloud := v\<rparr>)),
     DeleteMachineGroup = (\<lambda>mg s. case DeleteMachineGroup m mg (qs_cloud s) of (e, v) \<Rightarrow> (e, s\<lparr>qs_cloud := v\<rparr>))\<rparr>"

locale steady_provider =
  fixes ensure :: "'v ensure_op"
  assumes steady: "ensure mg ps al v = (res, v') \<Longrightarrow> mg_meta mg' = mg_meta mg \<Longrightarrow> mg_Spec mg' = mg_Spec mg \<Longrightarrow>
    st_Cloud (mg_Status mg') = fst res \<Longrightarrow> map port_key ps' = map port_key ps \<Longrightarrow> map_of al' = map_of al \<Longrightarrow>
    ensure mg' ps' al' v' = (res, v')"

lemma noop_ports_same:
  "map port_key ps' = map port_key ps \<Longrightarrow> map_of al' = map_of al \<Longrightarrow> noop_ports lbs al' ps' acc = noop_ports lbs al ps acc"
  by (induction ps' ps arbitrary: acc rule: list_induct2') (simp_all add: port_key_def Let_def split: option.split)

interpretation noop_steady: steady_provider noop_Ensure
proof unfold_locales
  fix mg mg' :: machine_group and ps ps' :: "machine_port list" and al al' v v' res
  assume run: "noop_Ensure mg ps al v = (res, v')" and mg: "mg_meta mg' = mg_meta mg" "mg_Spec mg' = mg_Spec mg"
    and same: "map port_key ps' = map port_key ps" "map_of al' = map_of al"
  have "ResolveNames mg' = ResolveNames mg" "noop_load_balancer mg' = noop_load_balancer mg"
    using mg by (simp_all add: ResolveNames_def noop_load_balancer_def fun_eq_iff)
  then have "fst (noop_Ensure mg' ps' al' v') = fst (noop_Ensure mg ps al v)"
    by (simp add: noop_Ensure_def mg noop_ports_same [OF same] Let_def split: prod.split sum.split)
  moreover have "snd (noop_Ensure mg' ps' al' v') = v'"
    by (simp add: noop_Ensure_def Let_def split: prod.split sum.split)
  ultimately show "noop_Ensure mg' ps' al' v' = (res, v')" using run by (metis fst_conv prod.collapse)
qed

lemma noop_on_cloud: "(noop_manager :: 'v quiet_store cloud_manager) = on_cloud noop_manager"
  by (auto simp: noop_manager_def on_cloud_def noop_Ensure_def noop_Delete_def act_skip_def Let_def fun_eq_iff
      split: prod.split sum.split)

section \<open>Writing the statuses of a list of objects\<close>

lemma fold_replace:
  assumes "distinct (map uid ps)" "\<And>p. uid (f p) = uid p"
  shows "fold (\<lambda>p. replace_by uid (f p)) ps xs =
    map (\<lambda>x. case map_of (map (\<lambda>p. (uid p, f p)) ps) (uid x) of None \<Rightarrow> x | Some q \<Rightarrow> q) xs"
  using assms(1)
proof (induction ps arbitrary: xs)
  case (Cons p ps)
  then have "map_of (map (\<lambda>p. (uid p, f p)) ps) (uid p) = None"
    by (auto simp: map_of_eq_None_iff)
  with Cons show ?case by (simp add: replace_by_def assms(2))
qed simp

lemma fold_replace_members:
  assumes "distinct (map uid xs)" "distinct ps" "set ps \<subseteq> set xs" "\<And>p. uid (f p) = uid p"
  shows "fold (\<lambda>p. replace_by uid (f p)) ps xs = map (\<lambda>x. if x \<in> set ps then f x else x) xs"
proof -
  have inj: "x = y" if "uid x = uid y" "x \<in> set xs" "y \<in> set xs" for x y
    using assms(1) that by (auto simp: distinct_map inj_on_def)
  have "distinct (map uid ps)" using assms(1-3) by (auto simp: distinct_map inj_on_def)
  moreover have "(case map_of (map (\<lambda>p. (uid p, f p)) ps) (uid x) of None \<Rightarrow> x | Some q \<Rightarrow> q) =
      (if x \<in> set ps then f x else x)" if x: "x \<in> set xs" for x
  proof (cases "x \<in> set ps")
    case True
    then have "map_of (map (\<lambda>p. (uid p, f p)) ps) (uid x) = Some (f x)"
      using \<open>distinct (map uid ps)\<close> by (intro map_of_is_SomeI) (auto simp: comp_def)
    with True show ?thesis by simp
  next
    case False
    then have "map_of (map (\<lambda>p. (uid p, f p)) ps) (uid x) = None"
      using inj [OF _ x] assms(3) by (auto simp: map_of_eq_None_iff)
    with False show ?thesis by simp
  qed
  ultimately show ?thesis using fold_replace [of uid ps f xs] assms(4) by simp
qed

lemma set_managed: "set (managed_links g ls) \<subseteq> set ls" "set (managed_ports g ps) \<subseteq> set ps"
  by (auto simp: managed_links_def managed_ports_def)

lemma managed_distinct:
  "distinct (map uid ls) \<Longrightarrow> distinct (managed_links g ls)" "distinct (map uid' ps) \<Longrightarrow> distinct (managed_ports g ps)"
  by (simp_all add: managed_links_def managed_ports_def distinct_map)

text \<open>The patches of all machine ports and links, for any function of the object.\<close>

lemma sync_ports_quiet:
  "act_each (\<lambda>p w. k_patch_port_status quiet_client p (f (qs_now w) p) w) ps s =
     (None, s\<lparr>qs_ports := fold (\<lambda>p. replace_by (\<lambda>p. mp_uid p) (f (qs_now s) p)) ps (qs_ports s)\<rparr>)"
  by (induction ps arbitrary: s) simp_all

lemma sync_links_quiet:
  "act_each (\<lambda>l w. k_patch_link_status quiet_client l (f (qs_now w) l) w) ls s =
     (None, s\<lparr>qs_links := fold (\<lambda>l. replace_by (\<lambda>l. lk_uid l) (f (qs_now s) l)) ls (qs_links s)\<rparr>)"
  by (induction ls arbitrary: s) simp_all

text \<open>
  \<open>written\<close> are the objects after their statuses are written; writing the statuses that are there already
  changes nothing.
\<close>

definition written :: "('a \<Rightarrow> 'a) \<Rightarrow> 'a list \<Rightarrow> 'a list \<Rightarrow> 'a list" where
  "written f ps xs = map (\<lambda>x. if x \<in> set ps then f x else x) xs"

lemma written_same: "(\<And>p. p \<in> set ps \<Longrightarrow> f p = p) \<Longrightarrow> written f ps xs = xs"
  by (simp add: written_def map_idI)

lemma written_uids: "(\<And>p. uid (f p) = uid p) \<Longrightarrow> map uid (written f ps xs) = map uid xs"
  by (simp add: written_def)

lemma ports_written:
  assumes "\<And>p. port_key (f p) = port_key p" "mg_meta g' = mg_meta g"
  shows "managed_ports g' (written f (managed_ports g xs) xs) = map f (managed_ports g xs)"
proof -
  let ?h = "\<lambda>x. if x \<in> set (managed_ports g xs) then f x else x"
  have "managed_ports g' (map ?h xs) = map ?h (managed_ports g xs)"
    by (rule managed_ports_map [OF _ assms(2)]) (simp add: assms(1))
  then show ?thesis by (simp add: written_def)
qed

lemma links_written:
  assumes "\<And>l. link_key (f l) = link_key l" "mg_meta g' = mg_meta g"
  shows "managed_links g' (written f (managed_links g xs) xs) = map f (managed_links g xs)"
proof -
  let ?h = "\<lambda>x. if x \<in> set (managed_links g xs) then f x else x"
  have "managed_links g' (map ?h xs) = map ?h (managed_links g xs)"
    by (rule managed_links_map [OF _ assms(2)]) (simp add: assms(1))
  then show ?thesis by (simp add: written_def)
qed

section \<open>One reconciliation\<close>

text \<open>A store whose lists have one object per UID.\<close>

definition proper_store :: "'v quiet_store \<Rightarrow> bool" where
  "proper_store s \<longleftrightarrow> distinct (map (\<lambda>l. lk_uid l) (qs_links s)) \<and> distinct (map (\<lambda>p. mp_uid p) (qs_ports s))"

lemma uid_of_key: "link_key l = link_key l' \<Longrightarrow> lk_uid l = lk_uid l'" "port_key p = port_key p' \<Longrightarrow> mp_uid p = mp_uid p'"
  by (simp_all add: link_key_def port_key_def)

lemma ports_patched:
  assumes "proper_store s" "ps = managed_ports g (qs_ports s)" "\<And>now p. port_key (f now p) = port_key p"
  shows "act_each (\<lambda>p w. k_patch_port_status quiet_client p (f (qs_now w) p) w) ps s =
    (None, s\<lparr>qs_ports := written (f (qs_now s)) ps (qs_ports s)\<rparr>)"
proof -
  have "distinct (map (\<lambda>p. mp_uid p) (qs_ports s))" using assms(1) by (simp add: proper_store_def)
  moreover from managed_distinct(2) [OF this] have "distinct ps" by (simp add: assms(2))
  ultimately show ?thesis
    using fold_replace_members [of "\<lambda>p. mp_uid p" "qs_ports s" ps "f (qs_now s)"] set_managed(2) [of g "qs_ports s"]
      uid_of_key(2) [OF assms(3)]
    by (simp only: sync_ports_quiet written_def assms(2))
qed

lemma links_patched:
  assumes "proper_store s" "ls = managed_links g (qs_links s)" "\<And>now l. link_key (f now l) = link_key l"
  shows "act_each (\<lambda>l w. k_patch_link_status quiet_client l (f (qs_now w) l) w) ls s =
    (None, s\<lparr>qs_links := written (f (qs_now s)) ls (qs_links s)\<rparr>)"
proof -
  have "distinct (map (\<lambda>l. lk_uid l) (qs_links s))" using assms(1) by (simp add: proper_store_def)
  moreover from managed_distinct(1) [OF this] have "distinct ls" by (simp add: assms(2))
  ultimately show ?thesis
    using fold_replace_members [of "\<lambda>l. lk_uid l" "qs_links s" ls "f (qs_now s)"] set_managed(1) [of g "qs_links s"]
      uid_of_key(1) [OF assms(3)]
    by (simp only: sync_links_quiet written_def assms(2))
qed

lemma merged_simps [simp]: "merged b x b = x" "merged b b st = st"
  by (simp_all add: merged_def)

lemma group_patched:
  assumes "pruned_group g base"
  shows "g\<lparr>mg_Status := merge_status (mg_Status base) (mg_Status (group_status L now al rls cs err errs n base)) (mg_Status g)\<rparr> =
    group_status L now al rls cs err errs n g"
proof -
  obtain s r m where v: "group_verdict err errs (length rls) (length al) n = (s, r, m)" by (rule prod_cases3)
  obtain ms where "base = g\<lparr>mg_Status := (mg_Status g)\<lparr>st_Machines := ms\<rparr>\<rparr>" using assms unfolding pruned_group_def by blast
  then show ?thesis by (simp add: group_status_report v merge_status_def)
qed

lemma group_condition_patched:
  "g\<lparr>mg_Status := merge_status (mg_Status g) (mg_Status (set_group_condition L st reason msg now g)) (mg_Status g)\<rparr> =
    set_group_condition L st reason msg now g"
  by (simp add: set_group_condition_def merge_status_def)

text \<open>The store after the provider has answered \<open>res\<close>, and after a refusal.\<close>

definition settle ::
  "'v quiet_store reconciler \<Rightarrow> machine_group \<Rightarrow> lb_exposure_spec list \<Rightarrow> pool_link list \<Rightarrow> machine_port list \<Rightarrow>
   (string, int) gomap \<Rightarrow> ensure_result \<Rightarrow> 'v \<Rightarrow> 'v quiet_store \<Rightarrow> 'v quiet_store" where
  "settle r g lbs links ps al res v s =
     (let a = assignPortsToLinks links ps al in s\<lparr>
        qs_group := group_status (r_Lib r) (qs_now s) al (buildResolvedLinks links (fst a)) (fst res) (snd (snd res))
          (snd a) (fst (pruneStaleMachineStatuses r g (qs_now s))) g,
        qs_links := written (updated_link (r_Lib r) (qs_now s) (fst a) (snd a)
          ''no allocated TiProxyMachinePort is available for this link'') links (qs_links s),
        qs_ports := written (updated_port (r_Lib r) (qs_now s) lbs al (fst (snd res)) (snd (snd res))) ps (qs_ports s),
        qs_cloud := v\<rparr>)"

definition settle_outcome :: "ensure_result \<Rightarrow> (string, string) gomap \<Rightarrow> outcome" where
  "settle_outcome res errs = (if snd (snd res) \<noteq> None \<or> length errs > 0 then (requeue_after (seconds 20), None) else (no_requeue, None))"

lemma reconcile_allocated_quiet:
  assumes "r_Client r = quiet_client" "cloudManagerFor r (qs_group s) = Inr (on_cloud m)" "proper_store s"
    and "links = managed_links (qs_group s) (qs_links s)" "ps = managed_ports (qs_group s) (qs_ports s)"
    and "EnsureMachineGroup m (qs_group s) ps al (qs_cloud s) = (res, v)"
  shows "reconcile_allocated r (qs_group s) lbs links ps al s =
    (settle_outcome res (snd (assignPortsToLinks links ps al)), settle r (qs_group s) lbs links ps al res v s)"
proof -
  let ?a = "assignPortsToLinks links ps al" and ?g = "qs_group s"
  let ?s1 = "s\<lparr>qs_cloud := v, qs_group := group_status (r_Lib r) (qs_now s) al (buildResolvedLinks links (fst ?a)) (fst res)
     (snd (snd res)) (snd ?a) (fst (pruneStaleMachineStatuses r ?g (qs_now s))) ?g\<rparr>"
  have ports: "syncMachinePortStatuses r lbs ps al cloud err ?s1 =
      (None, ?s1\<lparr>qs_ports := written (updated_port (r_Lib r) (qs_now s) lbs al cloud err) ps (qs_ports s)\<rparr>)" for cloud err
    using ports_patched [of ?s1 ps ?g "\<lambda>now. updated_port (r_Lib r) now lbs al cloud err"] assms(3,5)
    by (simp add: syncMachinePortStatuses_def assms(1) proper_store_def updated_port_report)
  have links: "syncLinkStatuses r links assigned errs d (?s1\<lparr>qs_ports := xs\<rparr>) =
      (None, ?s1\<lparr>qs_ports := xs, qs_links := written (updated_link (r_Lib r) (qs_now s) assigned errs d) links (qs_links s)\<rparr>)"
    if "distinct (map (\<lambda>p. mp_uid p) xs)" for assigned errs d xs
    using links_patched [of "?s1\<lparr>qs_ports := xs\<rparr>" links ?g "\<lambda>now. updated_link (r_Lib r) now assigned errs d"] assms(3,4) that
    by (simp add: syncLinkStatuses_def assms(1) proper_store_def)
  have uids: "distinct (map (\<lambda>p. mp_uid p) (written (updated_port (r_Lib r) (qs_now s) lbs al cloud err) ps (qs_ports s)))" for cloud err
    using assms(3) written_uids [of "\<lambda>p. mp_uid p" "updated_port (r_Lib r) (qs_now s) lbs al cloud err"]
    by (simp add: proper_store_def updated_port_report)
  show ?thesis
    by (simp add: reconcile_allocated_eq assms(2) on_cloud_def assms(6) after_ensure_def assms(1)
        group_patched [OF prune_pruned_group] ports links [OF uids] settle_def settle_outcome_def Let_def)
qed

definition refused ::
  "'v quiet_store reconciler \<Rightarrow> machine_group \<Rightarrow> pool_link list \<Rightarrow> machine_port list \<Rightarrow> string \<Rightarrow> string \<Rightarrow> string \<Rightarrow>
   'v quiet_store \<Rightarrow> 'v quiet_store" where
  "refused r g links ps reason msg linkMsg s = s\<lparr>
     qs_group := set_group_condition (r_Lib r) ConditionFalse reason msg (qs_now s) g,
     qs_links := written (updated_link (r_Lib r) (qs_now s) [] [] linkMsg) links (qs_links s),
     qs_ports := written (failed_port (r_Lib r) (qs_now s) msg) ps (qs_ports s)\<rparr>"

lemma report_failure_quiet:
  assumes "r_Client r = quiet_client" "proper_store s"
    and "links = managed_links (qs_group s) (qs_links s)" "ps = managed_ports (qs_group s) (qs_ports s)"
  shows "report_failure r (qs_group s) ps links reason msg linkMsg after s =
    ((requeue_after after, None), refused r (qs_group s) links ps reason msg linkMsg s)"
proof -
  let ?s1 = "s\<lparr>qs_ports := written (failed_port (r_Lib r) (qs_now s) msg) ps (qs_ports s)\<rparr>"
  have "syncMachinePortAllocationFailure r ps msg s = (None, ?s1)"
    using ports_patched [of s ps "qs_group s" "\<lambda>now. failed_port (r_Lib r) now msg"] assms
    by (simp add: syncMachinePortAllocationFailure_def failed_port_report)
  moreover have "proper_store ?s1"
    using assms(2) written_uids [of "\<lambda>p. mp_uid p" "failed_port (r_Lib r) (qs_now s) msg"]
    by (simp add: proper_store_def failed_port_report)
  then have "syncLinkStatuses r links [] [] linkMsg ?s1 =
      (None, ?s1\<lparr>qs_links := written (updated_link (r_Lib r) (qs_now s) [] [] linkMsg) links (qs_links s)\<rparr>)"
    using links_patched [of ?s1 links "qs_group s" "\<lambda>now. updated_link (r_Lib r) now [] [] linkMsg"] assms
    by (simp add: syncLinkStatuses_def)
  ultimately show ?thesis
    by (simp add: report_failure_def markMachineGroupError_def assms(1) group_condition_patched refused_def)
qed

section \<open>The second reconciliation\<close>

text \<open>The same objects, except that the map of the allocated ports may be built in another order.\<close>

definition same_objects :: "'v quiet_store \<Rightarrow> 'v quiet_store \<Rightarrow> bool" where
  "same_objects s s' \<longleftrightarrow> (\<exists>al. map_of al = map_of (st_AllocatedPorts (mg_Status (qs_group s))) \<and>
     s' = s\<lparr>qs_group := (qs_group s)\<lparr>mg_Status := (mg_Status (qs_group s))\<lparr>st_AllocatedPorts := al\<rparr>\<rparr>\<rparr>)"

lemma same_objects_refl: "same_objects s s"
  unfolding same_objects_def by (rule exI [of _ "st_AllocatedPorts (mg_Status (qs_group s))"]) simp

lemma written_again:
  assumes "\<And>p. f' (f p) = f p"
  shows "written f' (map f ps) xs = xs"
  by (rule written_same) (auto simp: assms)

lemma settle_again:
  assumes "stable_conditions (r_Lib r)" "s' = (settle r g lbs links ps al res v s)\<lparr>qs_now := t\<rparr>"
    and "links = managed_links g (qs_links s)" "ps = managed_ports g (qs_ports s)"
    and "map_of al' = map_of al" "length al' = length al"
    and "fst (pruneStaleMachineStatuses r (qs_group s') t) = fst (pruneStaleMachineStatuses r g (qs_now s))"
  shows "same_objects s' (settle r (qs_group s') lbs (managed_links (qs_group s') (qs_links s'))
    (managed_ports (qs_group s') (qs_ports s')) al' res v s')"
proof -
  let ?L = "r_Lib r" and ?a = "assignPortsToLinks links ps al" and ?n = "fst (pruneStaleMachineStatuses r g (qs_now s))"
  let ?fl = "updated_link ?L (qs_now s) (fst ?a) (snd ?a) ''no allocated TiProxyMachinePort is available for this link''"
  let ?fp = "updated_port ?L (qs_now s) lbs al (fst (snd res)) (snd (snd res))"
  have g': "qs_group s' = group_status ?L (qs_now s) al (buildResolvedLinks links (fst ?a)) (fst res) (snd (snd res)) (snd ?a) ?n g"
    and stored: "qs_links s' = written ?fl links (qs_links s)" "qs_ports s' = written ?fp ps (qs_ports s)" "qs_now s' = t" "qs_cloud s' = v"
    by (simp_all add: assms(2) settle_def Let_def)
  have meta: "mg_meta (qs_group s') = mg_meta g" by (simp add: g' group_status_fields)
  have ls: "managed_links (qs_group s') (qs_links s') = map ?fl links"
    unfolding stored assms(3) by (rule links_written [OF _ meta]) simp
  have ps: "managed_ports (qs_group s') (qs_ports s') = map ?fp ps"
    unfolding stored assms(4) by (rule ports_written [OF _ meta]) (simp add: updated_port_report)
  have lkeys: "map link_key (map ?fl links) = map link_key links" by (simp add: comp_def)
  have pkeys: "map port_key (map ?fp ps) = map port_key ps" by (simp add: comp_def updated_port_report)
  have a': "assignPortsToLinks (map ?fl links) (map ?fp ps) al' = ?a"
    by (rule assignPortsToLinks_same [OF lkeys pkeys assms(5)])
  have "updated_port ?L t lbs al' (fst (snd res)) (snd (snd res)) (?fp p) = ?fp p" for p
    by (simp add: updated_port_report assms(5) report_port_twice [OF assms(1)])
  note ports = written_again [of "updated_port ?L t lbs al' (fst (snd res)) (snd (snd res))" ?fp, OF this]
  note links = written_again [of "updated_link ?L t (fst ?a) (snd ?a)
    ''no allocated TiProxyMachinePort is available for this link''" ?fl, OF updated_link_twice [OF assms(1)]]
  show ?thesis
    unfolding settle_def Let_def ls ps a' buildResolvedLinks_same [OF lkeys] stored(3) ports links assms(7)
    unfolding g' group_status_twice [OF assms(1,6)] same_objects_def Let_def
    by (rule exI [of _ al'], rule conjI)
      (simp add: assms(5) group_status_fields, use stored(4) in \<open>simp add: g' [symmetric]\<close>)
qed

lemma refused_again:
  assumes "stable_conditions (r_Lib r)" "s' = (refused r g links ps reason msg linkMsg s)\<lparr>qs_now := t\<rparr>"
    and "links = managed_links g (qs_links s)" "ps = managed_ports g (qs_ports s)"
  shows "refused r (qs_group s') (managed_links (qs_group s') (qs_links s')) (managed_ports (qs_group s') (qs_ports s'))
    reason msg linkMsg s' = s'"
proof -
  let ?L = "r_Lib r"
  let ?fl = "updated_link ?L (qs_now s) [] [] linkMsg" and ?fp = "failed_port ?L (qs_now s) msg"
  have g': "qs_group s' = set_group_condition ?L ConditionFalse reason msg (qs_now s) g"
    and stored: "qs_links s' = written ?fl links (qs_links s)" "qs_ports s' = written ?fp ps (qs_ports s)" "qs_now s' = t"
    by (simp_all add: assms(2) refused_def)
  have meta: "mg_meta (qs_group s') = mg_meta g" by (simp add: g' set_group_condition_def)
  have ls: "managed_links (qs_group s') (qs_links s') = map ?fl links"
    unfolding stored assms(3) by (rule links_written [OF _ meta]) simp
  have ps: "managed_ports (qs_group s') (qs_ports s') = map ?fp ps"
    unfolding stored assms(4) by (rule ports_written [OF _ meta]) (simp add: failed_port_report)
  have "failed_port ?L t msg (?fp p) = ?fp p" for p
    by (simp add: failed_port_report report_port_twice [OF assms(1)])
  note ports = written_again [of "failed_port ?L t msg" ?fp, OF this]
  note links = written_again [of "updated_link ?L t [] [] linkMsg" ?fl, OF updated_link_twice [OF assms(1)]]
  show ?thesis
    unfolding refused_def ls ps stored(3) ports links
    unfolding g' set_group_condition_twice [OF assms(1)] by (simp add: g' [symmetric])
qed

section \<open>Convergence\<close>

lemma length_same_map:
  fixes a b :: "('k, 'v) gomap"
  assumes "wf_map a" "wf_map b" "map_of a = map_of b"
  shows "length a = length b"
proof -
  have "length m = card (dom (map_of m))" if "wf_map m" for m :: "('k, 'v) gomap"
    using that distinct_card [of "map fst m"] by (simp add: dom_map_of_conv_image_fst)
  with assms show ?thesis by metis
qed

lemma Reconcile_quiet:
  assumes "r_Client r = quiet_client" "active (r_Lib r) (qs_group s)"
  shows "Reconcile r n s = reconcile_ports r (qs_group s) (exposure_of (qs_group s)) s"
  using assms by (auto simp: Reconcile_def reconcile_group_def active_def deleted_def finalized_def valid_spec_def
      exposure_of_def is_ok_iff split: sum.split)

lemma reconcile_ports_quiet:
  assumes "r_Client r = quiet_client" "links = managed_links g (qs_links s)" "ps = managed_ports g (qs_ports s)"
  shows "reconcile_ports r g lbs s =
    (case (case sp_LinkSelector (mg_Spec g) of None \<Rightarrow> None | Some sel \<Rightarrow> lib_selector_error (r_Lib r) sel) of
       Some e \<Rightarrow> Some ((no_requeue, Some (wrap_error ''invalid spec.linkSelector'' e)), s)
     | None \<Rightarrow> if length ps > maxMachinePortsPerGroup then
           (let msg = ''too many TiProxyMachinePort resources: '' @ show_int (int (length ps)) @ '' (max '' @
                show_int (int maxMachinePortsPerGroup) @ '')''
            in Some (report_failure r g ps links ''TooManyMachinePorts'' msg msg (seconds 20) s))
         else case ReconcilePorts (st_AllocatedPorts (mg_Status g)) (port_requests ps)
             (range_start (sp_PortRange (mg_Spec g))) (range_end (sp_PortRange (mg_Spec g))) of
           None \<Rightarrow> None
         | Some (Inl e) \<Rightarrow> Some (report_failure r g ps links ''PortAllocationFailed'' (err_text e)
             (''port allocation failed: '' @ err_text e) (seconds 10) s)
         | Some (Inr al) \<Rightarrow> Some (reconcile_allocated r g lbs links ps al s))"
  by (simp add: reconcile_ports_def listManagedLinks_def listManagedMachinePorts_def assms(1) assms(2,3) [symmetric]
      Let_def split: option.split sum.split)

lemma same_group_facts:
  assumes "mg_meta g' = mg_meta g" "mg_Spec g' = mg_Spec g"
  shows "active L g' = active L g" "exposure_of g' = exposure_of g" "cloudManagerFor r g' = cloudManagerFor r g"
  using assms by (simp_all add: active_def deleted_def finalized_def valid_spec_def exposure_of_def cloudManagerFor_def)

lemma updated_groups:
  "mg_meta (group_status L now al rls cs err errs n g) = mg_meta g" "mg_Spec (group_status L now al rls cs err errs n g) = mg_Spec g"
  "mg_meta (set_group_condition L st reason msg now g) = mg_meta g" "mg_Spec (set_group_condition L st reason msg now g) = mg_Spec g"
  by (simp_all add: group_status_fields) (simp_all add: set_group_condition_def)

text \<open>The second run when the first has called the provider.\<close>

lemma allocated_again:
  assumes "r_Client r = quiet_client" "stable_conditions (r_Lib r)" "proper_store s"
    and "cloudManagerFor r g = Inr (on_cloud m)" "steady_provider (EnsureMachineGroup m)"
    and "g = qs_group s" "links = managed_links g (qs_links s)" "ps = managed_ports g (qs_ports s)"
    and "EnsureMachineGroup m g ps al (qs_cloud s) = (res, v)"
    and "s' = (settle r g lbs links ps al res v s)\<lparr>qs_now := t\<rparr>" "map_of al' = map_of al" "length al' = length al"
    and "fst (pruneStaleMachineStatuses r (qs_group s') t) = fst (pruneStaleMachineStatuses r g (qs_now s))"
  shows "\<exists>s''. reconcile_allocated r (qs_group s') lbs (managed_links (qs_group s') (qs_links s'))
      (managed_ports (qs_group s') (qs_ports s')) al' s' =
      (settle_outcome res (snd (assignPortsToLinks links ps al)), s'') \<and> same_objects s' s''"
proof -
  let ?a = "assignPortsToLinks links ps al"
  let ?fl = "updated_link (r_Lib r) (qs_now s) (fst ?a) (snd ?a) ''no allocated TiProxyMachinePort is available for this link''"
  let ?fp = "updated_port (r_Lib r) (qs_now s) lbs al (fst (snd res)) (snd (snd res))"
  let ?ls' = "managed_links (qs_group s') (qs_links s')" and ?ps' = "managed_ports (qs_group s') (qs_ports s')"
  have stored: "qs_links s' = written ?fl links (qs_links s)" "qs_ports s' = written ?fp ps (qs_ports s)" "qs_cloud s' = v"
    by (simp_all add: assms(10) settle_def Let_def)
  have g': "mg_meta (qs_group s') = mg_meta g" "mg_Spec (qs_group s') = mg_Spec g" "st_Cloud (mg_Status (qs_group s')) = fst res"
    by (simp_all add: assms(10) settle_def Let_def group_status_fields)
  have "?ls' = map ?fl links" unfolding stored assms(7) by (rule links_written [OF _ g'(1)]) simp
  then have lkeys: "map link_key ?ls' = map link_key links" by (simp add: comp_def)
  have "?ps' = map ?fp ps" unfolding stored assms(8) by (rule ports_written [OF _ g'(1)]) (simp add: updated_port_report)
  then have pkeys: "map port_key ?ps' = map port_key ps" by (simp add: comp_def updated_port_report)
  have proper: "proper_store s'"
    using assms(3) written_uids [of "\<lambda>p. mp_uid p" ?fp] written_uids [of "\<lambda>l. lk_uid l" ?fl]
    by (simp add: proper_store_def stored updated_port_report status_simps)
  have ensure: "EnsureMachineGroup m (qs_group s') ?ps' al' (qs_cloud s') = (res, v)"
    unfolding stored(3) by (rule steady_provider.steady [OF assms(5,9) g' pkeys assms(11)])
  have manager: "cloudManagerFor r (qs_group s') = Inr (on_cloud m)"
    using same_group_facts(3) [OF g'(1,2), of r] assms(4) by simp
  from reconcile_allocated_quiet [OF assms(1) manager proper refl refl ensure, of lbs]
    settle_again [OF assms(2,10) assms(7,8,11,12,13)]
  show ?thesis by (simp add: assignPortsToLinks_same [OF lkeys pkeys assms(11)])
qed

text \<open>The second run when the first has refused to allocate.\<close>

lemma refused_run_again:
  assumes "r_Client r = quiet_client" "stable_conditions (r_Lib r)" "proper_store s"
    and "s' = (refused r g links ps reason msg linkMsg s)\<lparr>qs_now := t\<rparr>"
    and "links = managed_links g (qs_links s)" "ps = managed_ports g (qs_ports s)"
  shows "report_failure r (qs_group s') (managed_ports (qs_group s') (qs_ports s'))
      (managed_links (qs_group s') (qs_links s')) reason msg linkMsg after s' = ((requeue_after after, None), s')"
    and "map port_key (managed_ports (qs_group s') (qs_ports s')) = map port_key ps"
proof -
  let ?fp = "failed_port (r_Lib r) (qs_now s) msg" and ?fl = "updated_link (r_Lib r) (qs_now s) [] [] linkMsg"
  have stored: "qs_links s' = written ?fl links (qs_links s)" "qs_ports s' = written ?fp ps (qs_ports s)"
    and meta: "mg_meta (qs_group s') = mg_meta g"
    by (simp_all add: assms(4) refused_def updated_groups)
  have "proper_store s'"
    using assms(3) written_uids [of "\<lambda>p. mp_uid p" ?fp] written_uids [of "\<lambda>l. lk_uid l" ?fl]
    by (simp add: proper_store_def stored failed_port_report status_simps)
  from report_failure_quiet [OF assms(1) this refl refl, of reason msg linkMsg after]
  show "report_failure r (qs_group s') (managed_ports (qs_group s') (qs_ports s'))
      (managed_links (qs_group s') (qs_links s')) reason msg linkMsg after s' = ((requeue_after after, None), s')"
    unfolding refused_again [OF assms(2,4,5,6)] .
  have "managed_ports (qs_group s') (qs_ports s') = map ?fp ps"
    unfolding stored assms(6) by (rule ports_written [OF _ meta]) (simp add: failed_port_report)
  then show "map port_key (managed_ports (qs_group s') (qs_ports s')) = map port_key ps"
    by (simp add: comp_def failed_port_report)
qed

text \<open>The outcomes of the listing and allocation, one by one.\<close>

definition selector_error :: "kube_lib \<Rightarrow> machine_group \<Rightarrow> go_error option" where
  "selector_error L g = (case sp_LinkSelector (mg_Spec g) of None \<Rightarrow> None | Some sel \<Rightarrow> lib_selector_error L sel)"

definition too_many :: "nat \<Rightarrow> string" where
  "too_many n = ''too many TiProxyMachinePort resources: '' @ show_int (int n) @ '' (max '' @
     show_int (int maxMachinePortsPerGroup) @ '')''"

definition allocation :: "machine_group \<Rightarrow> machine_port list \<Rightarrow> (string, int) gomap result option" where
  "allocation g ps = ReconcilePorts (st_AllocatedPorts (mg_Status g)) (port_requests ps)
     (range_start (sp_PortRange (mg_Spec g))) (range_end (sp_PortRange (mg_Spec g)))"

lemma reconcile_ports_cases:
  assumes "r_Client r = quiet_client" "links = managed_links g (qs_links s)" "ps = managed_ports g (qs_ports s)"
  shows "selector_error (r_Lib r) g = Some e \<Longrightarrow>
      reconcile_ports r g lbs s = Some ((no_requeue, Some (wrap_error ''invalid spec.linkSelector'' e)), s)"
    and "selector_error (r_Lib r) g = None \<Longrightarrow> length ps > maxMachinePortsPerGroup \<Longrightarrow> reconcile_ports r g lbs s =
      Some (report_failure r g ps links ''TooManyMachinePorts'' (too_many (length ps)) (too_many (length ps)) (seconds 20) s)"
    and "selector_error (r_Lib r) g = None \<Longrightarrow> \<not> length ps > maxMachinePortsPerGroup \<Longrightarrow> allocation g ps = Some (Inl e) \<Longrightarrow>
      reconcile_ports r g lbs s = Some (report_failure r g ps links ''PortAllocationFailed'' (err_text e)
        (''port allocation failed: '' @ err_text e) (seconds 10) s)"
    and "selector_error (r_Lib r) g = None \<Longrightarrow> \<not> length ps > maxMachinePortsPerGroup \<Longrightarrow> allocation g ps = Some (Inr al) \<Longrightarrow>
      reconcile_ports r g lbs s = Some (reconcile_allocated r g lbs links ps al s)"
    and "selector_error (r_Lib r) g = None \<Longrightarrow> \<not> length ps > maxMachinePortsPerGroup \<Longrightarrow> allocation g ps = None \<Longrightarrow>
      reconcile_ports r g lbs s = None"
  unfolding reconcile_ports_quiet [OF assms] selector_error_def [symmetric] too_many_def [symmetric]
    allocation_def [symmetric] Let_def by simp_all

text \<open>A run on a quiet server, by its outcome.\<close>

lemma quiet_run_cases:
  assumes "r_Client r = quiet_client" "proper_store s" "cloudManagerFor r g = Inr (on_cloud m)" "g = qs_group s"
    and "links = managed_links g (qs_links s)" "ps = managed_ports g (qs_ports s)"
    and "reconcile_ports r g lbs s = Some (out, s')"
  obtains (selector) e where "selector_error (r_Lib r) g = Some e" "s' = s"
      "out = (no_requeue, Some (wrap_error ''invalid spec.linkSelector'' e))"
  | (many) "selector_error (r_Lib r) g = None" "length ps > maxMachinePortsPerGroup" "out = (requeue_after (seconds 20), None)"
      "s' = refused r g links ps ''TooManyMachinePorts'' (too_many (length ps)) (too_many (length ps)) s"
  | (fails) e where "selector_error (r_Lib r) g = None" "\<not> length ps > maxMachinePortsPerGroup"
      "allocation g ps = Some (Inl e)" "out = (requeue_after (seconds 10), None)"
      "s' = refused r g links ps ''PortAllocationFailed'' (err_text e) (''port allocation failed: '' @ err_text e) s"
  | (allocated) al res v where "selector_error (r_Lib r) g = None" "\<not> length ps > maxMachinePortsPerGroup"
      "allocation g ps = Some (Inr al)" "EnsureMachineGroup m g ps al (qs_cloud s) = (res, v)"
      "out = settle_outcome res (snd (assignPortsToLinks links ps al))" "s' = settle r g lbs links ps al res v s"
proof (cases "selector_error (r_Lib r) g")
  case (Some e)
  then show thesis using reconcile_ports_cases(1) [OF assms(1,5,6) Some, of lbs] assms(7) by (intro selector) simp_all
next
  case None
  note failure = report_failure_quiet [OF assms(1,2) assms(5,6) [unfolded assms(4)], folded assms(4)]
  show thesis
  proof (cases "length ps > maxMachinePortsPerGroup")
    case True
    then show thesis
      using reconcile_ports_cases(2) [OF assms(1,5,6) None True, of lbs] assms(7) None by (intro many) (simp_all add: failure)
  next
    case few: False
    show thesis
    proof (cases "allocation g ps")
      case None
      then show thesis using reconcile_ports_cases(5) [OF assms(1,5,6) \<open>selector_error _ _ = None\<close> few None, of lbs] assms(7) by simp
    next
      case (Some x)
      show thesis
      proof (cases x)
        case (Inl e)
        with reconcile_ports_cases(3) [OF assms(1,5,6) None few, of e lbs] assms(7) None few Some show thesis
          by (intro fails) (simp_all add: failure)
      next
        case (Inr al)
        obtain res v where ensure: "EnsureMachineGroup m g ps al (qs_cloud s) = (res, v)" by (rule prod.exhaust)
        note run = reconcile_allocated_quiet [OF assms(1) assms(3) [unfolded assms(4)] assms(2) assms(5,6) [unfolded assms(4)]
            ensure [unfolded assms(4)], of lbs, folded assms(4)]
        with reconcile_ports_cases(4) [OF assms(1,5,6) None few, of al lbs] assms(7) None few Some Inr ensure show thesis
          by (intro allocated) simp_all
      qed
    qed
  qed
qed

lemma allocation_idempotent:
  assumes "allocation g ps = Some (Inr al)" "range_end (sp_PortRange (mg_Spec g)) < max_int32" "\<not> length ps > maxMachinePortsPerGroup"
    and "mg_Spec g' = mg_Spec g" "st_AllocatedPorts (mg_Status g') = al" "map port_key ps' = map port_key ps"
  obtains al' where "allocation g' ps' = Some (Inr al')" "map_of al' = map_of al" "length al' = length al"
proof -
  have reqs: "port_requests ps' = port_requests ps" by (rule port_requests_same [OF assms(6)])
  obtain al' where al': "allocation g' ps' = Some (Inr al')" "map_of al' = map_of al"
    using allocator.idempotent [OF assms(1) [unfolded allocation_def] assms(2)] by (auto simp: allocation_def assms(4,5) reqs)
  have "length ps' = length ps" using assms(6) by (rule map_eq_imp_length_eq)
  then have "allocates g ps al" "allocates g' ps' al'"
    using assms(1,3) al'(1) by (simp_all add: allocates_def allocation_def)
  then have "wf_map al" "wf_map al'"
    using allocates_valid assms(2,4) by (auto simp: valid_allocation_def)
  from length_same_map [OF this] al'(2) have "length al' = length al" by simp
  with al' show thesis by (rule that)
qed

text \<open>What the second run does with the objects that the first has left, for each outcome.\<close>

lemma refusal_again:
  assumes "r_Client r = quiet_client" "stable_conditions (r_Lib r)" "proper_store s"
    and "links = managed_links g (qs_links s)" "ps = managed_ports g (qs_ports s)" "selector_error (r_Lib r) g = None"
    and "s' = (refused r g links ps reason msg linkMsg s)\<lparr>qs_now := t\<rparr>"
    and "length ps > maxMachinePortsPerGroup \<and> reason = ''TooManyMachinePorts'' \<and> msg = too_many (length ps) \<and>
        linkMsg = msg \<and> after = seconds 20 \<or>
      \<not> length ps > maxMachinePortsPerGroup \<and> reason = ''PortAllocationFailed'' \<and> allocation g ps = Some (Inl e) \<and>
        msg = err_text e \<and> linkMsg = ''port allocation failed: '' @ msg \<and> after = seconds 10"
  shows "reconcile_ports r (qs_group s') lbs s' = Some ((requeue_after after, None), s')"
proof -
  let ?g = "qs_group s'" and ?ps = "managed_ports (qs_group s') (qs_ports s')"
  have same: "mg_meta ?g = mg_meta g" "mg_Spec ?g = mg_Spec g" "st_AllocatedPorts (mg_Status ?g) = st_AllocatedPorts (mg_Status g)"
    by (simp_all add: assms(7) refused_def set_group_condition_def)
  note rerun = refused_run_again [OF assms(1,2,3,7,4,5)]
  have len: "length ?ps = length ps" using rerun(2) by (rule map_eq_imp_length_eq)
  have alloc: "allocation ?g ?ps = allocation g ps"
    by (simp add: allocation_def same port_requests_same [OF rerun(2)])
  have sel: "selector_error (r_Lib r) ?g = None" using assms(6) by (simp add: selector_error_def same)
  note second = reconcile_ports_cases(2,3) [where g = ?g and s = s' and lbs = lbs, OF assms(1) refl refl sel]
  from assms(8) show ?thesis
    using second(1,2) rerun(1) by (elim disjE conjE) (simp_all add: len alloc)
qed

lemma allocation_again:
  assumes "r_Client r = quiet_client" "stable_conditions (r_Lib r)" "proper_store s"
    and "cloudManagerFor r g = Inr (on_cloud m)" "steady_provider (EnsureMachineGroup m)"
    and "g = qs_group s" "links = managed_links g (qs_links s)" "ps = managed_ports g (qs_ports s)"
    and "selector_error (r_Lib r) g = None" "\<not> length ps > maxMachinePortsPerGroup" "allocation g ps = Some (Inr al)"
    and "EnsureMachineGroup m g ps al (qs_cloud s) = (res, v)" "s' = (settle r g lbs links ps al res v s)\<lparr>qs_now := t\<rparr>"
    and "range_end (sp_PortRange (mg_Spec g)) < max_int32"
    and "fst (pruneStaleMachineStatuses r (qs_group s') t) = fst (pruneStaleMachineStatuses r g (qs_now s))"
  shows "\<exists>s''. reconcile_ports r (qs_group s') lbs s' =
    Some (settle_outcome res (snd (assignPortsToLinks links ps al)), s'') \<and> same_objects s' s''"
proof -
  let ?g = "qs_group s'" and ?ps = "managed_ports (qs_group s') (qs_ports s')"
  let ?links = "managed_links (qs_group s') (qs_links s')"
  have same: "mg_meta ?g = mg_meta g" "mg_Spec ?g = mg_Spec g" "st_AllocatedPorts (mg_Status ?g) = al"
    by (simp_all add: assms(13) settle_def Let_def group_status_fields)
  have keys: "map port_key ?ps = map port_key ps"
    using ports_written [OF _ same(1), of "updated_port (r_Lib r) (qs_now s) lbs al (fst (snd res)) (snd (snd res))" "qs_ports s"]
    by (simp add: assms(13) settle_def Let_def assms(8) [symmetric] updated_port_report comp_def)
  obtain al' where al': "allocation ?g ?ps = Some (Inr al')" "map_of al' = map_of al" "length al' = length al"
    using allocation_idempotent [OF assms(11,14,10) same(2,3) keys] .
  have "length ?ps = length ps" using keys by (rule map_eq_imp_length_eq)
  moreover have "selector_error (r_Lib r) ?g = None" using assms(9) by (simp add: selector_error_def same)
  ultimately have "reconcile_ports r ?g lbs s' = Some (reconcile_allocated r ?g lbs ?links ?ps al' s')"
    using reconcile_ports_cases(4) [OF assms(1) refl refl _ _ al'(1)] assms(10) by simp
  with allocated_again [OF assms(1,2,3,4,5,6,7,8,12,13) al'(2,3) assms(15)] show ?thesis by simp
qed

text \<open>
  C7: The controller converges. When a \<^verbatim>\<open>Reconcile\<close> of an active group has run on a quiet API server, another one,
  at any later time, has the same outcome and leaves every object as it is: the same allocation, the same
  statuses, the same transition times. So the updates a \<^verbatim>\<open>Reconcile\<close> causes do not keep the controller
  busy. This holds for every provider that is steady, when no machine becomes stale in between.
\<close>

theorem Reconcile_converges:
  assumes "r_Client r = quiet_client" "stable_conditions (r_Lib r)" "proper_store s" "active (r_Lib r) (qs_group s)"
    and "cloudManagerFor r (qs_group s) = Inr (on_cloud m)" "steady_provider (EnsureMachineGroup m)"
    and "range_end (sp_PortRange (mg_Spec (qs_group s))) < max_int32"
    and "Reconcile r n s = Some (out, s')"
    and "fst (pruneStaleMachineStatuses r (qs_group s') t) = fst (pruneStaleMachineStatuses r (qs_group s) (qs_now s))"
  shows "\<exists>s''. Reconcile r n (s'\<lparr>qs_now := t\<rparr>) = Some (out, s'') \<and> same_objects (s'\<lparr>qs_now := t\<rparr>) s''"
proof -
  define g links ps lbs where defs: "g = qs_group s" "links = managed_links g (qs_links s)"
    "ps = managed_ports g (qs_ports s)" "lbs = exposure_of g"
  define s2 where s2: "s2 = s'\<lparr>qs_now := t\<rparr>"
  have manager: "cloudManagerFor r g = Inr (on_cloud m)" using assms(5) by (simp add: defs)
  have first: "reconcile_ports r g lbs s = Some (out, s')"
    using assms(8) Reconcile_quiet [OF assms(1,4)] by (simp add: defs)
  have again: "mg_meta (qs_group s2) = mg_meta g \<Longrightarrow> mg_Spec (qs_group s2) = mg_Spec g \<Longrightarrow>
      Reconcile r n s2 = reconcile_ports r (qs_group s2) lbs s2"
    using Reconcile_quiet [OF assms(1), of s2 n] same_group_facts [of "qs_group s2" g] assms(4) by (simp add: defs)
  have "\<exists>s''. reconcile_ports r (qs_group s2) lbs s2 = Some (out, s'') \<and> same_objects s2 s'' \<and>
      mg_meta (qs_group s2) = mg_meta g \<and> mg_Spec (qs_group s2) = mg_Spec g" (is ?settled)
    using assms(1,3) manager defs(1-3) first
  proof (cases rule: quiet_run_cases)
    case (selector e)
    then have "qs_group s2 = g" by (simp add: s2 defs)
    with reconcile_ports_cases(1) [OF assms(1) refl refl selector(1)] selector(3) same_objects_refl show ?settled by auto
  next
    case many
    have s2': "s2 = (refused r g links ps ''TooManyMachinePorts'' (too_many (length ps)) (too_many (length ps)) s)\<lparr>qs_now := t\<rparr>"
      by (simp add: s2 many(4))
    have "reconcile_ports r (qs_group s2) lbs s2 = Some (out, s2)"
      unfolding many(3) by (rule refusal_again [OF assms(1-3) defs(2,3) many(1) s2']) (simp add: many(2))
    then show ?settled using same_objects_refl by (auto simp: s2' refused_def updated_groups)
  next
    case (fails e)
    have s2': "s2 = (refused r g links ps ''PortAllocationFailed'' (err_text e) (''port allocation failed: '' @ err_text e) s)\<lparr>qs_now := t\<rparr>"
      by (simp add: s2 fails(5))
    have "reconcile_ports r (qs_group s2) lbs s2 = Some (out, s2)"
      unfolding fails(4) by (rule refusal_again [OF assms(1-3) defs(2,3) fails(1) s2', of _ e]) (use fails(2,3) in simp)
    then show ?settled using same_objects_refl by (auto simp: s2' refused_def updated_groups)
  next
    case (allocated al res v)
    have s2': "s2 = (settle r g lbs links ps al res v s)\<lparr>qs_now := t\<rparr>" by (simp add: s2 allocated(6))
    from allocation_again [OF assms(1-3) manager assms(6) defs(1-3) allocated(1-4) s2'] assms(7,9) show ?settled
      by (auto simp: s2' settle_def Let_def updated_groups allocated(5,6) defs(1))
  qed
  with again show ?thesis by (auto simp: s2)
qed

section \<open>A sample server\<close>

text \<open>\<^verbatim>\<open>SetStatusCondition\<close>, which keeps a condition that is already there.\<close>

definition keeping_lib :: kube_lib where
  "keeping_lib = sample_lib\<lparr>lib_set_condition := (\<lambda>cs c.
     case condition_of (cond_type c) cs of
       Some old \<Rightarrow> if c\<lparr>cond_transition := cond_transition old\<rparr> = old then cs else sample_set_condition cs c
     | None \<Rightarrow> sample_set_condition cs c)\<rparr>"

lemma keeping_lib_law: "stable_conditions keeping_lib"
proof -
  have sample: "(\<exists>t. condition_of (cond_type c) (sample_set_condition cs c) = Some (c\<lparr>cond_transition := t\<rparr>)) \<and>
      (\<forall>t. t \<noteq> cond_type c \<longrightarrow> condition_of t (sample_set_condition cs c) = condition_of t cs)" for cs c
    using sample_set_condition_law by (simp add: set_condition_law_def sample_lib_def)
  have "set_condition_law keeping_lib"
    unfolding set_condition_law_def
  proof (intro allI)
    fix cs c
    let ?set = "lib_set_condition keeping_lib cs c"
    consider "?set = sample_set_condition cs c" | old where "condition_of (cond_type c) cs = Some old"
      "c\<lparr>cond_transition := cond_transition old\<rparr> = old" "?set = cs"
      by (cases "\<exists>old. condition_of (cond_type c) cs = Some old \<and> c\<lparr>cond_transition := cond_transition old\<rparr> = old")
        (auto simp: keeping_lib_def split: option.split)
    then show "(\<exists>t. condition_of (cond_type c) ?set = Some (c\<lparr>cond_transition := t\<rparr>)) \<and>
        (\<forall>t. t \<noteq> cond_type c \<longrightarrow> condition_of t ?set = condition_of t cs)"
    proof cases
      case (2 old)
      then show ?thesis by (intro conjI exI [of _ "cond_transition old"]) simp_all
    qed (use sample [of c cs] in simp)
  qed
  moreover have "keep_condition_law keeping_lib"
    by (auto simp: keep_condition_law_def keeping_lib_def)
  ultimately show ?thesis by (simp add: stable_conditions_def)
qed

definition quiet_reconciler :: "unit quiet_store reconciler" where
  "quiet_reconciler = \<lparr>r_Client = quiet_client, r_Lib = keeping_lib, r_CloudManager = None, r_Provider = [],
     r_MachineStatusStaleAfter = 0\<rparr>"

definition quiet_sample :: "unit quiet_store" where
  "quiet_sample = \<lparr>qs_group = run_mg\<lparr>mg_Spec := (mg_Spec run_mg)\<lparr>sp_Provider := ''noop''\<rparr>\<rparr>,
     qs_links = [run_link], qs_ports = [run_port], qs_now = 1000, qs_cloud = ()\<rparr>"

theorem Reconcile_converges_witness:
  "\<exists>out s' s''. Reconcile quiet_reconciler run_name quiet_sample = Some (out, s') \<and>
     Reconcile quiet_reconciler run_name (s'\<lparr>qs_now := 2000\<rparr>) = Some (out, s'') \<and> same_objects (s'\<lparr>qs_now := 2000\<rparr>) s''"
proof -
  let ?r = quiet_reconciler and ?s = quiet_sample
  have client: "r_Client ?r = quiet_client" "stable_conditions (r_Lib ?r)"
    by (simp_all add: quiet_reconciler_def keeping_lib_law)
  have proper: "proper_store ?s" by (simp add: proper_store_def quiet_sample_def)
  have meta: "mg_meta (qs_group ?s) = mg_meta run_mg" by (simp add: quiet_sample_def)
  have spec: "mg_Spec (qs_group ?s) = (mg_Spec run_mg)\<lparr>sp_Provider := ''noop''\<rparr>" by (simp add: quiet_sample_def)
  have "valid_spec run_mg" "finalized sample_lib run_mg" "\<not> deleted run_mg" by code_simp+
  then have active: "active (r_Lib ?r) (qs_group ?s)"
    by (simp add: active_def valid_spec_def finalized_def deleted_def meta spec quiet_reconciler_def keeping_lib_def)
  have "to_lower (trim_space ''noop'') = ''noop''" by code_simp
  then have manager: "cloudManagerFor ?r (qs_group ?s) = Inr (on_cloud noop_manager)"
    by (simp add: cloudManagerFor_def spec noop_on_cloud Let_def)
  have steady: "steady_provider (EnsureMachineGroup (noop_manager :: unit cloud_manager))"
    by (simp add: noop_manager_def noop_steady.steady_provider_axioms)
  have range: "sp_PortRange (mg_Spec (qs_group ?s)) = \<lparr>range_start = 10000, range_end = 10010\<rparr>"
    by (simp add: spec run_mg_def sample_group)
  have "Reconcile ?r run_name ?s \<noteq> None"
  proof -
    have "selector_error (r_Lib ?r) (qs_group ?s) = None" by (simp add: selector_error_def spec run_mg_def sample_group)
    moreover have "managed_ports (qs_group ?s) (qs_ports ?s) = [run_port]"
      using run_lists by (simp add: quiet_sample_def managed_ports_def refers_to_def)
    moreover have "allocation (qs_group ?s) [run_port] = Some (Inr [(''p2'', 10000)])"
      using run_allocation by (simp add: allocation_def range) (simp add: quiet_sample_def run_mg_def sample_group)
    ultimately show ?thesis
      using reconcile_ports_cases(4) [OF client(1) refl refl, of "qs_group ?s" ?s] Reconcile_quiet [OF client(1) active]
      by (simp add: maxMachinePortsPerGroup_def)
  qed
  then obtain out s' where run: "Reconcile ?r run_name ?s = Some (out, s')" by auto
  have "fst (pruneStaleMachineStatuses ?r g t) = 0" for g t
    by (simp add: pruneStaleMachineStatuses_def quiet_reconciler_def split: option.split)
  with Reconcile_converges [OF client proper active manager steady _ run, of 2000] run range show ?thesis
    by (auto simp: max_int32_def)
qed

end
