(* ===== verification/Machine_Pruning.thy ===== *)
theory Machine_Pruning
  imports Convergence
begin

text \<open>
  What becomes of the machines that \<^verbatim>\<open>pruneStaleMachineStatuses\<close> drops. \<^verbatim>\<open>Reconcile\<close> prunes the group before it
  copies it as the base of the status patch, so the patch is the difference of two groups that both lack the
  stale machines. Run on the quiet API server of \<open>Convergence\<close>, the stored status keeps every one of them,
  while the message of the condition \<^verbatim>\<open>Ready\<close> counts them as pruned.
\<close>

section \<open>How many machines are pruned\<close>

definition stale_machines :: "int \<Rightarrow> time \<Rightarrow> (string, machine_status) gomap \<Rightarrow> (string, machine_status) gomap" where
  "stale_machines staleAfter now machines = filter (\<lambda>(machineID, status). is_stale staleAfter now status) machines"

lemma pruned_count:
  assumes "st_Machines (mg_Status g) = Some machines" "0 < r_MachineStatusStaleAfter r"
  shows "fst (pruneStaleMachineStatuses r g now) = length (stale_machines (r_MachineStatusStaleAfter r) now machines)"
proof -
  let ?P = "\<lambda>(machineID :: string, status). is_stale (r_MachineStatusStaleAfter r) now status"
  have "length (filter ?P machines) + length (filter (\<lambda>x. \<not> ?P x) machines) = length machines"
    by (rule sum_length_filter_compl)
  moreover have "(\<lambda>x. \<not> ?P x) = (\<lambda>(machineID, status). \<not> is_stale (r_MachineStatusStaleAfter r) now status)"
    by (auto simp: fun_eq_iff)
  ultimately have "length machines - length (filter
      (\<lambda>(machineID, status). \<not> is_stale (r_MachineStatusStaleAfter r) now status) machines) = length (filter ?P machines)"
    by simp
  then show ?thesis using assms by (simp add: pruneStaleMachineStatuses_def stale_machines_def Let_def)
qed

lemma ready_reported:
  assumes "set_condition_law L"
  shows "\<exists>t. condition_of ConditionReady (st_Conditions (mg_Status (group_status L now al rls cs None [] n g))) =
    Some (new_condition ConditionReady ConditionTrue ''Ready'' (ready_message (length rls) (length al) n)
      (meta_generation (mg_meta g)) t)"
  using set_condition_same [OF assms, of "new_condition ConditionReady ConditionTrue ''Ready''
      (ready_message (length rls) (length al) n) (meta_generation (mg_meta g)) now" "st_Conditions (mg_Status g)"]
  by (simp add: group_status_report group_verdict_def) blast

section \<open>The stored machines\<close>

text \<open>
  C40: Pruned machines are never removed from the stored status. After a successful \<^verbatim>\<open>Reconcile\<close> of an active
  group on a quiet API server the stored machines are exactly what they were, the stale ones included,
  although the condition \<^verbatim>\<open>Ready\<close> reports that as many entries as there are stale machines were pruned.
\<close>

theorem pruned_machines_stay_stored:
  assumes "r_Client r = quiet_client" "set_condition_law (r_Lib r)" "proper_store s" "active (r_Lib r) (qs_group s)"
    and "cloudManagerFor r (qs_group s) = Inr (on_cloud m)"
    and "0 < r_MachineStatusStaleAfter r" "st_Machines (mg_Status (qs_group s)) = Some machines"
    and "Reconcile r n s = Some ((no_requeue, None), s')"
  shows "st_Machines (mg_Status (qs_group s')) = Some machines \<and>
    (\<exists>links ports t. condition_of ConditionReady (st_Conditions (mg_Status (qs_group s'))) =
       Some (new_condition ConditionReady ConditionTrue ''Ready''
         (ready_message links ports (length (stale_machines (r_MachineStatusStaleAfter r) (qs_now s) machines)))
         (meta_generation (mg_meta (qs_group s))) t))"
proof -
  let ?g = "qs_group s"
  have run: "reconcile_ports r ?g (exposure_of ?g) s = Some ((no_requeue, None), s')"
    using assms(8) Reconcile_quiet [OF assms(1,4)] by simp
  from assms(1,3,5) refl refl refl run show ?thesis
  proof (cases rule: quiet_run_cases)
    case (allocated al res v)
    let ?a = "assignPortsToLinks (managed_links ?g (qs_links s)) (managed_ports ?g (qs_ports s)) al"
    from allocated(5) have ok: "snd (snd res) = None" "snd ?a = []"
      by (auto simp: settle_outcome_def no_requeue_def requeue_after_def seconds_def split: if_splits)
    have group: "qs_group s' = group_status (r_Lib r) (qs_now s) al (buildResolvedLinks (managed_links ?g (qs_links s)) (fst ?a))
        (fst res) None [] (length (stale_machines (r_MachineStatusStaleAfter r) (qs_now s) machines)) ?g"
      using ok by (simp add: allocated(6) settle_def Let_def pruned_count [OF assms(7,6)])
    show ?thesis
      unfolding group using assms(7)
      by (simp add: group_status_fields) (rule exI, rule exI, rule ready_reported [OF assms(2)])
  qed (simp_all add: no_requeue_def requeue_after_def seconds_def)
qed

text \<open>
  The sample server of \<open>Convergence\<close> with two machines: the last heartbeat of the first is forty minutes old,
  that of the second one second, and the controller prunes after ten minutes.
\<close>

definition pruning_machine :: "time \<Rightarrow> machine_status" where
  "pruning_machine heartbeat = \<lparr>mst_ObservedGeneration = 1, mst_LastHeartbeatTime = heartbeat, mst_Phase = ''Ready'',
     mst_ConfigHash = [], mst_TiProxyImage = [], mst_Message = []\<rparr>"

definition pruning_machines :: "(string, machine_status) gomap" where
  "pruning_machines = [(''i-1'', pruning_machine (seconds 600)), (''i-2'', pruning_machine (seconds 2999))]"

definition pruning_reconciler :: "unit quiet_store reconciler" where
  "pruning_reconciler = quiet_reconciler\<lparr>r_MachineStatusStaleAfter := seconds 600\<rparr>"

definition pruning_store :: "unit quiet_store" where
  "pruning_store = quiet_sample\<lparr>qs_group := (qs_group quiet_sample)\<lparr>mg_Status :=
     sample_status\<lparr>st_Machines := Some pruning_machines\<rparr>\<rparr>, qs_now := seconds 3000\<rparr>"

lemma pruning_sample:
  "r_Client pruning_reconciler = quiet_client" "r_Lib pruning_reconciler = keeping_lib"
  "r_MachineStatusStaleAfter pruning_reconciler = seconds 600"
  "mg_meta (qs_group pruning_store) = mg_meta run_mg" "qs_now pruning_store = seconds 3000"
  "mg_Spec (qs_group pruning_store) = (mg_Spec run_mg)\<lparr>sp_Provider := ''noop''\<rparr>"
  "st_Machines (mg_Status (qs_group pruning_store)) = Some pruning_machines"
  "st_AllocatedPorts (mg_Status (qs_group pruning_store)) = []" "qs_links pruning_store = [run_link]"
  "qs_ports pruning_store = [run_port]" "proper_store pruning_store"
  by (simp_all add: pruning_reconciler_def quiet_reconciler_def pruning_store_def quiet_sample_def sample_status_def
      proper_store_def)

lemma pruning_active: "active (r_Lib pruning_reconciler) (qs_group pruning_store)"
proof -
  have "valid_spec run_mg" "finalized sample_lib run_mg" "\<not> deleted run_mg" by code_simp+
  then show ?thesis
    by (simp add: active_def valid_spec_def finalized_def deleted_def pruning_sample keeping_lib_def)
qed

lemma pruning_manager: "cloudManagerFor pruning_reconciler (qs_group pruning_store) = Inr (on_cloud noop_manager)"
proof -
  have "to_lower (trim_space ''noop'') = ''noop''" by code_simp
  then show ?thesis by (simp add: cloudManagerFor_def pruning_sample noop_on_cloud Let_def)
qed

lemma pruning_run: "\<exists>s'. Reconcile pruning_reconciler run_name pruning_store = Some ((no_requeue, None), s')"
proof -
  let ?g = "qs_group pruning_store"
  have managed: "[run_link] = managed_links ?g (qs_links pruning_store)" "[run_port] = managed_ports ?g (qs_ports pruning_store)"
    using run_lists by (simp_all add: pruning_sample managed_links_def managed_ports_def refers_to_def)
  have sel: "selector_error (r_Lib pruning_reconciler) ?g = None"
    by (simp add: selector_error_def pruning_sample run_mg_def sample_group)
  have alloc: "allocation ?g [run_port] = Some (Inr [(''p2'', 10000)])"
    using run_allocation by (simp add: allocation_def pruning_sample) (simp add: run_mg_def sample_group)
  obtain cs cloud where ensure: "EnsureMachineGroup noop_manager ?g [run_port] [(''p2'', 10000)] (qs_cloud pruning_store) =
      ((cs, cloud, None), ())"
  proof -
    have "NormalizeLoadBalancers (sp_Exposure (mg_Spec ?g)) = Inr []"
      by (simp add: pruning_sample run_mg_def sample_group NormalizeLoadBalancers_def)
    moreover obtain a b where "ResolveNames ?g = (a, b)" by (rule prod.exhaust)
    ultimately show thesis by (intro that) (simp add: noop_manager_def noop_Ensure_def Let_def)
  qed
  show ?thesis
    using reconcile_ports_cases(4) [OF pruning_sample(1) managed sel _ alloc, of "exposure_of ?g"]
      reconcile_allocated_quiet [OF pruning_sample(1) pruning_manager pruning_sample(11) managed ensure, of "exposure_of ?g"]
      Reconcile_quiet [OF pruning_sample(1) pruning_active, of run_name]
    by (simp add: maxMachinePortsPerGroup_def settle_outcome_def run_assignment)
qed

theorem pruned_machines_stay_stored_witness:
  "\<exists>s' links ports c. Reconcile pruning_reconciler run_name pruning_store = Some ((no_requeue, None), s') \<and>
     st_Machines (mg_Status (qs_group s')) = Some pruning_machines \<and>
     condition_of ConditionReady (st_Conditions (mg_Status (qs_group s'))) = Some c \<and>
     cond_message c = ready_message links ports 1"
proof -
  obtain s' where run: "Reconcile pruning_reconciler run_name pruning_store = Some ((no_requeue, None), s')"
    using pruning_run by blast
  have "set_condition_law (r_Lib pruning_reconciler)" using keeping_lib_law by (simp add: pruning_sample stable_conditions_def)
  moreover have "0 < r_MachineStatusStaleAfter pruning_reconciler" by (simp add: pruning_sample seconds_def)
  moreover have "length (stale_machines (seconds 600) (seconds 3000) pruning_machines) = 1"
    by (simp add: stale_machines_def pruning_machines_def pruning_machine_def is_stale_def time_sub_def seconds_def)
  ultimately show ?thesis
    using pruned_machines_stay_stored [OF pruning_sample(1) _ pruning_sample(11) pruning_active pruning_manager _
        pruning_sample(7) run] run
    by (auto simp: pruning_sample new_condition_def) blast
qed

end
