(* ===== verification/Machine_Integers.thy ===== *)
theory Machine_Integers
  imports Controller_Properties
begin

text \<open>
  The widths of the integers. The model keeps \<^verbatim>\<open>int32\<close> and \<^verbatim>\<open>int64\<close> fields as \<open>int\<close>; this theory types the
  API objects, every \<^verbatim>\<open>int32\<close> and \<^verbatim>\<open>int64\<close> field in its range and every map with distinct keys, and shows
  that a \<^verbatim>\<open>Reconcile\<close> that is answered with typed objects only passes typed objects on. The only place
  where a computed value could leave its type is the counter of the port allocator, which wraps.
\<close>

section \<open>Typed objects\<close>

definition is_int64 :: "int \<Rightarrow> bool" where
  "is_int64 x \<longleftrightarrow> -9223372036854775808 \<le> x \<and> x \<le> 9223372036854775807"

definition typed_option :: "('a \<Rightarrow> bool) \<Rightarrow> 'a option \<Rightarrow> bool" where
  "typed_option P x = (case x of None \<Rightarrow> True | Some y \<Rightarrow> P y)"

definition typed_map :: "('v \<Rightarrow> bool) \<Rightarrow> (string, 'v) gomap \<Rightarrow> bool" where
  "typed_map P m \<longleftrightarrow> wf_map m \<and> (\<forall>k v. map_of m k = Some v \<longrightarrow> P v)"

definition typed_spec :: "machine_group_spec \<Rightarrow> bool" where
  "typed_spec sp \<longleftrightarrow> typed_option is_int32 (sp_Replicas sp) \<and>
     typed_option is_int32 (sc_MinReplicas (sp_Scaling sp)) \<and>
     typed_option is_int32 (sc_MaxReplicas (sp_Scaling sp)) \<and>
     is_int32 (range_start (sp_PortRange sp)) \<and> is_int32 (range_end (sp_PortRange sp)) \<and>
     is_int32 (rt_APIPort (sp_TiProxy sp)) \<and> wf_map (sp_Tags sp)"

definition typed_status :: "machine_group_status \<Rightarrow> bool" where
  "typed_status st \<longleftrightarrow> is_int64 (st_ObservedGeneration st) \<and> typed_map is_int32 (st_AllocatedPorts st) \<and>
     (\<forall>l \<in> set (st_ResolvedLinks st). is_int32 (rl_Port l)) \<and>
     typed_option (typed_map (\<lambda>m. is_int64 (mst_ObservedGeneration m))) (st_Machines st)"

definition typed_group :: "machine_group \<Rightarrow> bool" where
  "typed_group mg \<longleftrightarrow> typed_spec (mg_Spec mg) \<and> typed_status (mg_Status mg)"

definition typed_port :: "machine_port \<Rightarrow> bool" where
  "typed_port p \<longleftrightarrow> typed_option is_int32 (mps_RequestedPort (mp_Spec p)) \<and>
     typed_option is_int32 (mpt_AssignedPort (mp_Status p)) \<and> is_int64 (mpt_ObservedGeneration (mp_Status p))"

definition typed_link :: "pool_link \<Rightarrow> bool" where
  "typed_link l \<longleftrightarrow> is_int64 (lkt_ObservedGeneration (lk_Status l))"

definition typed_meta :: "object_meta \<Rightarrow> bool" where
  "typed_meta m \<longleftrightarrow> is_int64 (meta_generation m)"

lemmas typed_defs = typed_group_def typed_port_def typed_link_def typed_meta_def

text \<open>What a call is answered with, and what it is given.\<close>

fun typed_answer :: "event \<Rightarrow> bool" where
  "typed_answer (GetGroup n (Inr mg)) = (typed_group mg \<and> typed_meta (mg_meta mg))"
| "typed_answer (ListLinks ns sel (Inr items)) = (\<forall>l \<in> set items. typed_link l \<and> typed_meta (lk_meta l))"
| "typed_answer (ListPorts ns (Inr items)) = (\<forall>p \<in> set items. typed_port p \<and> typed_meta (mp_meta p))"
| "typed_answer ev = True"

fun typed_call :: "event \<Rightarrow> bool" where
  "typed_call (PatchGroup base obj answer) = (typed_group base \<and> typed_group obj)"
| "typed_call (PatchGroupStatus base obj answer) = (typed_group base \<and> typed_group obj)"
| "typed_call (PatchPortStatus base obj answer) = (typed_port base \<and> typed_port obj)"
| "typed_call (PatchLinkStatus base obj answer) = (typed_link base \<and> typed_link obj)"
| "typed_call (CloudEnsure mg mps al res) = (typed_group mg \<and> (\<forall>p \<in> set mps. typed_port p) \<and> typed_map is_int32 al)"
| "typed_call (CloudDelete mg e) = typed_group mg"
| "typed_call ev = True"

section \<open>The allocation\<close>

lemma typed_map_Nil [simp]: "typed_map P []"
  by (simp add: typed_map_def)

lemma typed_map_update: "typed_map P m \<Longrightarrow> P v \<Longrightarrow> typed_map P (AList.update k v m)"
  by (auto simp: typed_map_def map_of_update wf_map_update split: if_splits)

lemma typed_map_filter: "typed_map P m \<Longrightarrow> typed_map P (filter Q m)"
  unfolding typed_map_def
  by (meson filter_is_subset map_of_SomeD map_of_is_SomeI subsetD wf_map_filter)

lemma typed_map_lookup: "typed_map P m \<Longrightarrow> map_of m k = Some v \<Longrightarrow> P v"
  by (simp add: typed_map_def)

lemma find_next_typed:
  assumes "find_next end used next = Some r" "is_int32 next"
  shows "typed_option is_int32 (fst r) \<and> is_int32 (snd r)"
proof -
  have "is_int32 next \<longrightarrow> typed_option is_int32 (fst r) \<and> is_int32 (snd r)"
  proof (rule find_next.raw_induct
      [where P = "\<lambda>e u n r. is_int32 n \<longrightarrow> typed_option is_int32 (fst r) \<and> is_int32 (snd r)", OF _ assms(1)])
    fix f e u n r
    assume IH: "\<And>e u n r. f e u n = Some r \<Longrightarrow> is_int32 n \<longrightarrow> typed_option is_int32 (fst r) \<and> is_int32 (snd r)"
      and eq: "(if n \<le> e then if n \<notin> set u then Some (Some n, wrap32 (n + 1))
                else f e u (wrap32 (n + 1)) else Some (None, n)) = Some r"
    show "is_int32 n \<longrightarrow> typed_option is_int32 (fst r) \<and> is_int32 (snd r)"
      using eq IH wrap32_range by (auto simp: typed_option_def split: if_splits)
  qed
  with assms(2) show ?thesis by blast
qed

lemma allocate_new_typed:
  assumes "allocate_new start end n result used next reqs = Some (Inr m)"
    and "typed_map is_int32 result" "is_int32 next"
  shows "typed_map is_int32 m"
  using assms
proof (induction reqs arbitrary: result used "next")
  case (Cons r rs)
  show ?case
  proof (cases "map_of result (req_UID r)")
    case None
    with Cons.prems(1) obtain port next' where f: "find_next end used next = Some (Some port, next')"
      and go: "allocate_new start end n (AList.update (req_UID r) port result) (port # used) next' rs = Some (Inr m)"
      by (auto split: option.splits)
    from find_next_typed [OF f Cons.prems(3)] have "is_int32 port" "is_int32 next'"
      by (simp_all add: typed_option_def)
    with Cons.IH [OF go] Cons.prems(2) show ?thesis by (simp add: typed_map_update)
  qed (use Cons in simp)
qed simp

lemma alloc_inv_typed: "alloc_inv start end m used \<Longrightarrow> is_int32 start \<Longrightarrow> is_int32 end \<Longrightarrow> typed_map is_int32 m"
  by (force simp: alloc_inv_def typed_map_def in_range_def is_int32_def dest: map_of_SomeD)

lemma ReconcilePorts_typed:
  assumes "ReconcilePorts existing reqs start end = Some (Inr m)" "is_int32 start" "is_int32 end"
  shows "typed_map is_int32 m"
proof -
  let ?rs = "prepare_requests reqs"
  from assms(1) obtain res1 used1 where pin: "pin_ports start end [] [] [] ?rs = Inr (res1, used1)"
    by (auto simp: ReconcilePorts_def Let_def split: if_splits sum.splits)
  obtain res2 used2 where keep: "keep_existing start end existing res1 used1 ?rs = (res2, used2)" by (rule prod.exhaust)
  have new: "allocate_new start end (length ?rs) res2 used2 start ?rs = Some (Inr m)"
    using assms(1) pin keep by (simp add: ReconcilePorts_def Let_def split: if_splits)
  have "alloc_inv start end res2 used2"
    using keep_existing_inv [OF keep] passes_pin [OF pin] by blast
  with allocate_new_typed [OF new] assms(2,3) show ?thesis by (simp add: alloc_inv_typed)
qed

lemma allocates_typed: "allocates mg mps al \<Longrightarrow> typed_group mg \<Longrightarrow> typed_map is_int32 al"
  by (auto simp: allocates_def typed_group_def typed_spec_def intro: ReconcilePorts_typed)

section \<open>The links\<close>

text \<open>Every port a link is assigned is an allocated one.\<close>

definition ports_in :: "int set \<Rightarrow> (string, int) gomap \<Rightarrow> bool" where
  "ports_in ps m \<longleftrightarrow> (\<forall>k p. map_of m k = Some p \<longrightarrow> p \<in> ps)"

lemma ports_in_Nil [simp]: "ports_in ps []"
  by (simp add: ports_in_def)

lemma ports_in_update: "ports_in ps m \<Longrightarrow> p \<in> ps \<Longrightarrow> ports_in ps (AList.update k p m)"
  by (auto simp: ports_in_def map_of_update)

lemma ports_in_delete: "ports_in ps m \<Longrightarrow> ports_in ps (AList.delete k m)"
  by (auto simp: ports_in_def map_of_delete)

lemma index_by_name_ports:
  "ports_in ps m \<Longrightarrow> alloc_Port ` set as \<subseteq> ps \<Longrightarrow> ports_in ps (index_by_name used as m)"
  by (induction as arbitrary: m) (auto simp: ports_in_update)

lemma match_same_name_ports:
  "ports_in ps assigned \<Longrightarrow> ports_in ps byName \<Longrightarrow> ports_in ps (fst (match_same_name ls assigned used byName))"
proof (induction ls arbitrary: assigned used byName)
  case (Cons l ls)
  let ?k = "meta_key (lk_meta l)"
  show ?case
  proof (cases "map_of assigned (lk_uid l) \<noteq> None \<or> map_of byName ?k = None")
    case True
    then show ?thesis using Cons by auto
  next
    case False
    then obtain port where port: "map_of assigned (lk_uid l) = None" "map_of byName ?k = Some port" by auto
    then have "port \<in> ps" using Cons.prems(2) unfolding ports_in_def by blast
    then have "ports_in ps (fst (match_same_name ls (AList.update (lk_uid l) port assigned) (port # used)
        (AList.delete ?k byName)))"
      by (intro Cons.IH ports_in_update ports_in_delete Cons.prems)
    then show ?thesis using port by simp
  qed
qed simp

lemma assign_rest_ports:
  "ports_in ps assigned \<Longrightarrow> set rest \<subseteq> ps \<Longrightarrow> ports_in ps (assign_rest ls rest assigned)"
proof (induction ls arbitrary: rest assigned)
  case (Cons l ls)
  then show ?case by (cases rest) (auto intro!: Cons.IH ports_in_update)
qed simp

lemma assignPortsToLinks_ports: "ports_in (set (available_ports mps al)) (fst (assignPortsToLinks links mps al))"
proof -
  let ?as = "ordered_available mps al" and ?ps = "set (available_ports mps al)"
  obtain assigned used where m: "match_same_name links [] [] (index_by_name [] ?as []) = (assigned, used)"
    by (rule prod.exhaust)
  have "ports_in ?ps (index_by_name [] ?as [])"
    by (rule index_by_name_ports) (simp_all add: available_ports_def)
  from match_same_name_ports [OF ports_in_Nil this, of links "[]"] have "ports_in ?ps assigned"
    by (simp add: m)
  moreover have "set (sort (map alloc_Port (filter (\<lambda>a. alloc_Port a \<notin> set used) ?as))) \<subseteq> ?ps"
    by (auto simp: available_ports_def)
  ultimately have "ports_in ?ps (assign_rest links
      (sort (map alloc_Port (filter (\<lambda>a. alloc_Port a \<notin> set used) ?as))) assigned)"
    by (rule assign_rest_ports)
  then show ?thesis by (simp add: assignPortsToLinks_def Let_def m)
qed

lemma resolved_typed:
  assumes "typed_map is_int32 al" "r \<in> set (buildResolvedLinks links (fst (assignPortsToLinks links mps al)))"
  shows "is_int32 (rl_Port r)"
proof -
  obtain l p where "r = resolve_link l p" "map_of (fst (assignPortsToLinks links mps al)) (lk_uid l) = Some p"
    using assms(2) by (auto simp: set_buildResolvedLinks)
  then have "p \<in> set (available_ports mps al)" "rl_Port r = p"
    using assignPortsToLinks_ports [of mps al links] by (auto simp: ports_in_def)
  then show ?thesis using assms(1) by (auto simp: set_available_ports dest: typed_map_lookup)
qed

section \<open>The objects that are written\<close>

lemma typed_group_meta [simp]: "typed_group (mg\<lparr>mg_meta := m\<rparr>) = typed_group mg"
  by (simp add: typed_group_def)

lemma typed_finalizer [simp]:
  "typed_group (with_finalizer L mg) = typed_group mg" "typed_group (without_finalizer L mg) = typed_group mg"
  by (simp_all add: with_finalizer_def without_finalizer_def)

lemma typed_group_condition [simp]: "typed_group (set_group_condition L st reason msg now mg) = typed_group mg"
  by (simp add: set_group_condition_def typed_group_def typed_status_def)

lemma typed_pruned:
  assumes "pruned_group mg base" "typed_group mg"
  shows "typed_group base"
proof -
  from assms(1) obtain ms where base: "base = mg\<lparr>mg_Status := (mg_Status mg)\<lparr>st_Machines := ms\<rparr>\<rparr>"
    and ms: "\<And>kept. ms = Some kept \<Longrightarrow> \<exists>machines P. st_Machines (mg_Status mg) = Some machines \<and> kept = filter P machines"
    unfolding pruned_group_def by blast
  have "typed_option (typed_map (\<lambda>m. is_int64 (mst_ObservedGeneration m))) ms"
  proof (cases ms)
    case (Some kept)
    from ms [OF this] assms(2) show ?thesis
      by (auto simp: Some typed_option_def typed_group_def typed_status_def typed_map_filter)
  qed (simp add: typed_option_def)
  then show ?thesis using assms(2) by (simp add: base typed_group_def typed_status_def)
qed

lemma typed_group_status:
  assumes "typed_group base" "typed_meta (mg_meta base)" "typed_map is_int32 al"
    and "\<And>r. r \<in> set resolved \<Longrightarrow> is_int32 (rl_Port r)"
  shows "typed_group (group_status L now al resolved cs err errs n base)"
  using assms by (auto simp: group_status_def Let_def split: option.split)
    (auto simp: typed_group_def typed_status_def typed_meta_def)

lemma typed_status_patch:
  assumes "status_patch L mg links mps al res base obj" "typed_group mg" "typed_meta (mg_meta mg)"
    and "typed_map is_int32 al"
  shows "typed_group base \<and> typed_group obj"
proof -
  have base: "typed_group base" "typed_meta (mg_meta base)"
    using assms typed_pruned by (auto simp: status_patch_unfold)
  from assms(1) obtain now pruned where "obj = group_status L now al
      (buildResolvedLinks links (fst (assignPortsToLinks links mps al))) (fst res) (snd (snd res))
      (snd (assignPortsToLinks links mps al)) pruned base" unfolding status_patch_def by blast
  with base assms(4) show ?thesis by (auto intro: typed_group_status resolved_typed)
qed

lemma typed_port_updates [simp]:
  "typed_port (set_port_condition L t st reason msg now p) = typed_port p"
  "typed_port (set_port_phase ph p) = typed_port p" "typed_port (set_port_cloud c p) = typed_port p"
  by (simp_all add: typed_port_def set_port_condition_def set_port_phase_def set_port_cloud_def)

lemma typed_port_assigned:
  "typed_port p \<Longrightarrow> typed_option is_int32 a \<Longrightarrow> typed_port (set_port_assigned a p)"
  by (simp add: typed_port_def set_port_assigned_def)

lemma typed_port_observed: "typed_port p \<Longrightarrow> typed_meta (mp_meta p) \<Longrightarrow> typed_port (set_port_observed p)"
  by (simp add: typed_port_def set_port_observed_def typed_meta_def)

lemma typed_port_exposure [simp]: "typed_port (port_exposure L now lbs a cloud err q) = typed_port q"
  by (simp add: port_exposure_def Let_def split: option.split)

lemma typed_port_assignment:
  "typed_port p \<Longrightarrow> typed_option is_int32 a \<Longrightarrow> typed_port (port_assignment L now a p)"
  by (auto simp: port_assignment_def typed_port_assigned typed_option_def split: option.split)

lemma typed_updated_port:
  assumes "typed_port p" "typed_meta (mp_meta p)" "typed_map is_int32 al"
  shows "typed_port (updated_port L now lbs al cloud err p)"
proof -
  let ?q = "port_exposure L now lbs (map_of al (mp_uid p)) cloud err (port_assignment L now (map_of al (mp_uid p)) p)"
  have "typed_option is_int32 (map_of al (mp_uid p))"
    using assms(3) by (auto simp: typed_option_def typed_map_def split: option.split)
  then have "typed_port ?q" using assms(1) by (simp add: typed_port_assignment)
  moreover have "mp_meta ?q = mp_meta p" by (simp add: status_simps)
  ultimately show ?thesis using assms(2) by (simp add: updated_port_def Let_def typed_port_observed)
qed

lemma typed_failed_port: "typed_port p \<Longrightarrow> typed_meta (mp_meta p) \<Longrightarrow> typed_port (failed_port L now msg p)"
  by (simp add: failed_port_def typed_port_assigned typed_port_observed typed_option_def)

lemma typed_updated_link: "typed_meta (lk_meta l) \<Longrightarrow> typed_link (updated_link L now assigned errs d l)"
  by (simp add: updated_link_def Let_def set_link_condition_def typed_link_def typed_meta_def)

section \<open>Every call of a run\<close>

definition typed_lists :: "machine_group \<Rightarrow> pool_link list \<Rightarrow> machine_port list \<Rightarrow> bool" where
  "typed_lists mg links mps \<longleftrightarrow> typed_group mg \<and> typed_meta (mg_meta mg) \<and>
     (\<forall>l \<in> set links. typed_link l \<and> typed_meta (lk_meta l)) \<and> (\<forall>p \<in> set mps. typed_port p \<and> typed_meta (mp_meta p))"

fun typed_phase :: "phase \<Rightarrow> bool" where
  "typed_phase (Start n) = True"
| "typed_phase (Fetched mg) = typed_lists mg [] []"
| "typed_phase (Removed mg) = typed_lists mg [] []"
| "typed_phase (HaveLinks mg links) = typed_lists mg links []"
| "typed_phase (HavePorts mg links mps) = typed_lists mg links mps"
| "typed_phase (Refusing mg links mps) = typed_lists mg links mps"
| "typed_phase (Ensured mg links mps al res) = (typed_lists mg links mps \<and> typed_map is_int32 al)"
| "typed_phase (Reported mg links mps al res) = (typed_lists mg links mps \<and> typed_map is_int32 al)"
| "typed_phase Halted = True"

lemma typed_managed:
  "typed_lists mg [] [] \<Longrightarrow> \<forall>l \<in> set items. typed_link l \<and> typed_meta (lk_meta l) \<Longrightarrow>
     typed_lists mg (managed_links mg items) []"
  "typed_lists mg links [] \<Longrightarrow> \<forall>p \<in> set items'. typed_port p \<and> typed_meta (mp_meta p) \<Longrightarrow>
     typed_lists mg links (managed_ports mg items')"
  by (auto simp: typed_lists_def managed_links_def managed_ports_def)

lemma typed_on_success: "typed_phase p \<Longrightarrow> typed_phase (on_success answer p)"
  by (cases answer) simp_all

lemma typed_step:
  "ctl_step L p ev p' \<Longrightarrow> typed_phase p \<Longrightarrow> typed_answer ev \<Longrightarrow> typed_phase p' \<and> typed_call ev"
proof (induction rule: ctl_step.induct)
  case (ensure mg mps al links res)
  then show ?case using allocates_typed [OF ensure(1)] by (simp add: typed_lists_def)
next
  case (report mg links mps al res base obj)
  then show ?case using typed_status_patch [OF report(1)] by (simp add: typed_lists_def typed_on_success)
next
  case (report_noop mg mps al res links base obj)
  then show ?case
    using typed_status_patch [OF report_noop(4)] allocates_typed [OF report_noop(1)]
    by (simp add: typed_lists_def typed_on_success)
next
  case (list_links mg items)
  then show ?case by (simp add: typed_managed)
next
  case (list_ports mg links items)
  then show ?case by (simp add: typed_managed)
qed (simp_all add: typed_lists_def typed_on_success typed_updated_port typed_updated_link typed_failed_port)

lemma typed_run:
  "ctl_run L p es p' \<Longrightarrow> typed_phase p \<Longrightarrow> \<forall>ev \<in> set es. typed_answer ev \<Longrightarrow>
     typed_phase p' \<and> (\<forall>ev \<in> set es. typed_call ev)"
proof (induction rule: ctl_run.induct)
  case (run_snoc s es s' ev s'')
  then have "typed_phase s'" "\<forall>ev \<in> set es. typed_call ev" by simp_all
  with run_snoc typed_step [OF run_snoc(2)] show ?case by simp
qed simp

text \<open>
  C20: Type soundness of the reconciler. If every object that the API server answers with is typed, then every
  object of a patch and every argument of the provider is: integers within \<^verbatim>\<open>int32\<close> and \<^verbatim>\<open>int64\<close>, maps
  with distinct keys. This includes the ports computed by the allocator for ranges that end at the largest
  \<^verbatim>\<open>int32\<close>, where its counter wraps.
\<close>

theorem Reconcile_keeps_types:
  assumes "Reconcile (recorded_reconciler r) req (w, []) = Some (out, (w', log))"
    and "\<forall>ev \<in> set log. typed_answer ev"
  shows "\<forall>ev \<in> set log. typed_call ev"
proof -
  obtain s where "ctl_run (r_Lib r) (Start req) log s" using log_run [OF assms(1)] .
  from typed_run [OF this] assms(2) show ?thesis by simp
qed

lemma run_log_typed: "\<forall>ev \<in> set run_log. typed_answer ev"
  by (simp add: run_log_def run_mg_def run_link_def run_port_def sample_group typed_defs typed_spec_def
      typed_status_def typed_option_def is_int32_def is_int64_def)

theorem Reconcile_keeps_types_witness: "typed_group run_group \<and> typed_map is_int32 [(''p2'', 10000)]"
proof -
  have "PatchGroupStatus run_mg run_group None \<in> set run_log"
    "CloudEnsure run_mg [run_port] [(''p2'', 10000)] (run_cloud, [], None) \<in> set run_log"
    by (simp_all add: run_log_def)
  with Reconcile_keeps_types [OF run_run run_log_typed] show ?thesis by fastforce
qed

end
