(* ===== verification/Spec2Isabelle.thy ===== *)
theory Spec2Isabelle
  imports Prelude Go_Strings Unicode_Print Go_Quote Sha256 Api_Types Exposure Port_Allocator Controller_Properties
    Tiproxy_Config Agent_Env Agent Status_Writers Aws_Properties Aws_Settled
    Manager_Command Agent_Command Go_Heap Deep_Copy Lifecycle Machine_Pruning Machine_Integers
begin

text \<open>
  A model of \<^verbatim>\<open>tiproxy-machine-operator\<close>: a Kubernetes controller that runs groups of machines with TiProxy,
  and the agent on each of these machines.

  \<^bold>\<open>The program.\<close> The controller (\<^verbatim>\<open>internal/controller\<close>) reconciles a \<^verbatim>\<open>TiProxyMachineGroup\<close>: it validates the
  spec, lists the group's \<^verbatim>\<open>TiDBResourcePoolLink\<close>s and \<^verbatim>\<open>TiProxyMachinePort\<close>s, gives every machine port a port
  (\<^verbatim>\<open>internal/portallocator\<close>), assigns ports to links, calls a cloud provider (\<^verbatim>\<open>internal/cloud\<close>, with the
  providers \<^verbatim>\<open>noop\<close> and \<^verbatim>\<open>aws\<close>) and writes what came out to the status of all three kinds of objects. An agent
  (\<^verbatim>\<open>internal/agent\<close>) reads the resolved links from the group's status, renders TiProxy's configuration, starts
  or updates TiProxy and reports its machine in the same status.

  \<^bold>\<open>Shared theories.\<close> \<open>Prelude\<close>: results, errors as \<^verbatim>\<open>fmt.Errorf\<close> builds them, Go maps as association lists
  (\<open>gomap\<close>), \<^verbatim>\<open>int32\<close> wrap-around, lemmas on lists and sorting. \<open>Go_Strings\<close>: the functions of \<^verbatim>\<open>strings\<close>,
  \<^verbatim>\<open>strconv\<close> and \<^verbatim>\<open>fmt\<close> the code uses, on byte strings. \<open>Go_Quote\<close>: the verb \<^verbatim>\<open>%q\<close>, rune by rune, with the
  printable runes of \<open>Unicode_Print\<close>, and reading it back. \<open>Sha256\<close>: the hash, executable. \<open>Io_Steps\<close>: steps with
  an environment and an error, with rules for invariants (\<open>keeps\<close>), results (\<open>returns\<close>) and conditions before
  and after (\<open>triple\<close>). \<open>Sample_Objects\<close>: the objects of the witnesses.

  \<^bold>\<open>The controller.\<close> \<open>Api_Types\<close> has the structs of \<^verbatim>\<open>api/v1alpha1\<close> as records and their methods, \<open>Exposure\<close>
  \<^verbatim>\<open>NormalizeLoadBalancers\<close>, \<open>Port_Allocator\<close> \<^verbatim>\<open>ReconcilePorts\<close>, \<open>Link_Assignment\<close> \<^verbatim>\<open>assignPortsToLinks\<close>,
  \<^verbatim>\<open>buildResolvedLinks\<close> and \<^verbatim>\<open>resolvedLinkHash\<close>, \<open>Cloud_Manager\<close> the provider interface (a record of operations and
  the locale \<open>cloud_provider\<close> of its laws) and the provider without a cloud, \<open>Kube_Client\<close> the Kubernetes
  client and libraries as parameters, \<open>Controller\<close> every function of \<^verbatim>\<open>machinegroup_controller.go\<close>.
  \<open>Controller_Status\<close> says what the written statuses contain; \<open>Controller_Protocol\<close> has the state machine
  \<open>ctl_step\<close> of the calls of one \<^verbatim>\<open>Reconcile\<close>, which \<open>Reconcile\<close> with recorded calls refines;
  \<open>Controller_Properties\<close> draws the safety properties from it by rule induction.

  \<^bold>\<open>The AWS provider.\<close> \<open>Aws_Api\<close> has the data and calls of the SDK as a parameter, and the recording of the
  changing calls; \<open>Aws_Names\<close> resource names, hashes, tags; \<open>Aws_Placement\<close> the choice of subnets;
  \<open>Aws_Machines\<close> user data, launch template, auto scaling group, rolling refresh; \<open>Aws_Exposure\<close> load
  balancers, target groups, listeners, their deletion, and \<^verbatim>\<open>EnsureMachineGroup\<close> and \<^verbatim>\<open>DeleteMachineGroup\<close>.
  \<open>Aws_Recording\<close> shows that recording changes nothing, \<open>Aws_Provider\<close> that the provider satisfies
  \<open>cloud_provider\<close>, \<open>Aws_Ownership\<close> which resources each of its calls is about, \<open>Aws_Properties\<close> and
  \<open>Aws_Settled\<close> the properties.

  \<^bold>\<open>The agent.\<close> \<open>Tiproxy_Config\<close> is \<^verbatim>\<open>internal/agent/config\<close>, \<open>Agent_Env\<close> Docker (\<^verbatim>\<open>internal/agent/docker\<close>), the
  machine's identity (\<^verbatim>\<open>internal/agent/imds\<close>) and the environment of an agent, \<open>Agent\<close> \<^verbatim>\<open>agent.go\<close>.
  \<open>Status_Writers\<close> interleaves the reads and merge patches of many agents on one group.

  \<^bold>\<open>The processes.\<close> \<open>Manager_Command\<close> is \<^verbatim>\<open>cmd/manager\<close> with \<^verbatim>\<open>NewManager\<close> of the AWS provider, the
  registered API types (\<^verbatim>\<open>groupversion_info.go\<close>) and the watches of \<^verbatim>\<open>SetupWithManager\<close>; \<open>Agent_Command\<close> is
  \<^verbatim>\<open>cmd/tiproxy-machine-agent\<close>, and what it does with the environment that the user data of a group sets up.

  \<^bold>\<open>Across the model.\<close> \<open>Go_Heap\<close> is Go data with references, \<open>Deep_Copy\<close> the generated copies of
  \<^verbatim>\<open>zz_generated.deepcopy.go\<close> on it, which justify objects as values elsewhere. \<open>Lifecycle\<close> puts the runs of
  \<open>Reconcile\<close> into a system with the API server, a stale cache and other writers. \<open>Convergence\<close> runs it
  twice on a quiet API server, \<open>Machine_Pruning\<close> once on a group with entries of machines that are gone. \<open>Machine_Integers\<close> types the API objects, with every integer in the range of
  its width.

  This theory has the properties that span the parts: what an agent makes of the status the controller
  wrote, and what the controller does with the AWS provider.

  \<^bold>\<open>What the properties show.\<close> Of the controller (\<open>Controller_Properties\<close>): the order and the guards of its
  calls, what \<^verbatim>\<open>Ready\<close> means, and that it returns. Of the allocator and the assignment (\<open>Port_Allocator\<close>,
  \<open>Link_Assignment\<close>): when they succeed, that the ports are valid, exclusive and stable. Of the AWS provider
  (the \<open>Aws\<close> theories): what it reports, that its calls stay with the group's own resources, the order of
  deletion, that a settled account is left alone, names, placement, rolling refresh. Of the agents: when
  rendering succeeds and that the text reads back, that only an applied configuration is remembered, and
  what is left of each agent's entry in every interleaving. Of the processes: which provider a group gets,
  that no wake-up is missed, that the environment of a group's user data starts the agent of that group. Of the whole: that a group
  object which is gone leaves no resources, that a reconciled group is settled, that deep copies share nothing, that typed objects stay typed.
  Some theorems describe behaviour that is hardly meant: resources left behind by an edit of the provider or
  the names, target groups left behind, a launch template version per call, a deletion blocked by the
  exposure, a \<^verbatim>\<open>Ready\<close> group no agent renders, pruning that is never stored, the wrapping counter of the
  allocator, ambiguous names and hashes.

  \<^bold>\<open>Bounds.\<close> \<open>ReconcilePorts\<close> returns an option, \<open>None\<close> if the search for a free port did not end: the search
  is a \<open>partial_function\<close>, and it is shown to end for every \<^verbatim>\<open>int32\<close> range, so that \<^verbatim>\<open>Reconcile\<close> always
  returns. Ports are integers with \<^verbatim>\<open>int32\<close> wrap-around where the code computes with them. There is no other
  fuel; all loops are structural or have a measure. A group has at most 50 machine ports.

  \<^bold>\<open>Assumptions.\<close> What is not under \<^verbatim>\<open>src/\<close> is a parameter: the Kubernetes client and \<^verbatim>\<open>apimachinery\<close>
  (under the documented laws of conditions and finalizers), the merge
  patch of the API server (under the law of RFC 7386), the AWS SDK, Docker, HTTP, the file
  system, the clock, the deep copies of library types. The iteration order of Go maps is a parameter where it can be observed.
  \<^verbatim>\<open>slices.SortFunc\<close> is a stable sort here.

  \<^bold>\<open>Not modelled.\<close> Logging, metrics, timeouts and cancellation inside a call; what the libraries do with what
  they are given: the parsing of flag texts, kubeconfigs and SDK configuration, the work queue and leader
  election of controller-runtime, the scheme.
\<close>

section \<open>The controller and the agents\<close>

lemma render_settings [simp]:
  "opt_ResolvedLinks (render_options_for (runtimeSettings a mg) mg) = st_ResolvedLinks (mg_Status mg)"
  "opt_PortRangeStart (render_options_for (runtimeSettings a mg) mg) = range_start (sp_PortRange (mg_Spec mg))"
  "opt_PortRangeEnd (render_options_for (runtimeSettings a mg) mg) = range_end (sp_PortRange (mg_Spec mg))"
  "0 \<le> opt_APIPort (render_options_for (runtimeSettings a mg) mg) \<longleftrightarrow> 0 \<le> rt_APIPort (sp_TiProxy (mg_Spec mg))"
  by (simp_all add: render_options_for_def runtimeSettings_def Let_def)

lemma active_range_ordered:
  "active L mg \<Longrightarrow> range_start (sp_PortRange (mg_Spec mg)) \<le> range_end (sp_PortRange (mg_Spec mg))"
  by (auto simp: active_def valid_spec_def Validate_def split: if_splits)

text \<open>
  C5: What the controller publishes as \<^verbatim>\<open>Ready\<close> the machines can serve: from every group patched with
  \<^verbatim>\<open>Ready=True\<close> an agent takes the group's port range as the range TiProxy listens on, which contains the
  port of every resolved link, and rendering can fail only because of a negative API port, two links with
  one cluster name, or a link without a PD address; never because of a port.
\<close>

theorem ready_groups_are_served:
  assumes "Reconcile (recorded_reconciler r) req (w, []) =
      Some (out, (w', pre @ PatchGroupStatus base obj answer # post))"
    "set_condition_law (r_Lib r)" "group_status_of ConditionReady obj = Some ConditionTrue"
    "\<forall>ns sel items. ListLinks ns sel (Inr items) \<in> set pre \<longrightarrow> distinct (map lk_uid items)"
    "\<forall>ns items. ListPorts ns (Inr items) \<in> set pre \<longrightarrow> distinct (map mp_uid items)"
    "range_end (sp_PortRange (mg_Spec obj)) < max_int32"
    "opts = render_options_for (runtimeSettings a obj) obj"
  shows "listen_range opts = (range_start (sp_PortRange (mg_Spec obj)), range_end (sp_PortRange (mg_Spec obj))) \<and>
    (\<forall>l \<in> set (opt_ResolvedLinks opts). fst (listen_range opts) \<le> rl_Port l \<and> rl_Port l \<le> snd (listen_range opts)) \<and>
    (is_ok (BuildTiProxyConfig opts) \<longleftrightarrow> 0 \<le> rt_APIPort (sp_TiProxy (mg_Spec obj)) \<and>
       (\<forall>l \<in> set (opt_ResolvedLinks opts). pd_addresses l \<noteq> []) \<and> distinct (map ClusterName (opt_ResolvedLinks opts)))"
proof -
  from assms(1) show ?thesis
  proof (cases rule: patch_of_run)
    case (error reason msg now)
    then show ?thesis using assms(3) by (simp add: group_status_of_set [OF assms(2)])
  next
    case (report mg links mps al res)
    let ?start = "range_start (sp_PortRange (mg_Spec obj))" and ?last = "range_end (sp_PortRange (mg_Spec obj))"
    from report(1) have spec: "mg_Spec obj = mg_Spec mg" and links: "opt_ResolvedLinks opts =
        buildResolvedLinks links (fst (assignPortsToLinks links mps al))"
      by (auto simp: status_patch_unfold group_status_fields assms(7))
    have range: "0 < ?start" "?start \<le> ?last"
      using report(2) active_range active_range_ordered unfolding reported_by_def spec by blast+
    have ports: "?start \<le> rl_Port l \<and> rl_Port l \<le> ?last" if "l \<in> set (opt_ResolvedLinks opts)" for l
      using reported_links_ports(2) [OF report(2) assms(4,5), of l] that assms(6) unfolding links spec by simp
    have "listen_range opts = (?start, ?last)" using range by (simp add: listen_range_def assms(7))
    moreover have "is_ok (BuildTiProxyConfig opts) \<longleftrightarrow> 0 \<le> opt_APIPort opts \<and> renderable (opt_ResolvedLinks opts)"
      by (auto simp: is_ok_iff BuildTiProxyConfig_iff)
    ultimately show ?thesis
      using ports range(1) by (fastforce simp: renderable_def assms(7))
  qed
qed

theorem ready_groups_are_served_witness:
  "let opts = render_options_for (runtimeSettings (sample_agent ''a'') run_group) run_group in
   listen_range opts = (10000, 10010) \<and> map rl_Port (opt_ResolvedLinks opts) = [10000] \<and> is_ok (BuildTiProxyConfig opts)"
proof -
  let ?opts = "render_options_for (runtimeSettings (sample_agent ''a'') run_group) run_group"
  have spec: "mg_Spec run_group = mg_Spec run_mg" by (simp add: run_group_def group_status_fields)
  have links: "opt_ResolvedLinks ?opts = buildResolvedLinks [run_link] [(''l1'', 10000)]"
    by (simp add: run_group_def group_status_fields)
  have ready: "group_status_of ConditionReady run_group = Some ConditionTrue"
    by (simp add: run_group_def group_status_ready [OF sample_set_condition_law])
  have "\<forall>ns sel items. ListLinks ns sel (Inr items) \<in> set (take 4 run_log) \<longrightarrow> distinct (map lk_uid items)"
    "\<forall>ns items. ListPorts ns (Inr items) \<in> set (take 4 run_log) \<longrightarrow> distinct (map mp_uid items)"
    "range_end (sp_PortRange (mg_Spec run_group)) < max_int32"
    by (simp_all add: run_log_def spec run_mg_def sample_group max_int32_def)
  note served = ready_groups_are_served [OF run_run_at [OF run_at_status] run_law ready this refl, of "sample_agent ''a''"]
  moreover have "map rl_Port (opt_ResolvedLinks ?opts) = [10000]"
    "distinct (map ClusterName (opt_ResolvedLinks ?opts))" "0 \<le> rt_APIPort (sp_TiProxy (mg_Spec run_group))"
    "\<forall>l \<in> set (opt_ResolvedLinks ?opts). pd_addresses l \<noteq> []"
  proof -
    have "pd_addresses (resolve_link run_link 10000) = [''pd:2379'']"
    proof -
      have "trim_space ''pd:2379'' = ''pd:2379''" by code_simp
      then show ?thesis by (simp add: pd_addresses_def resolve_link_def run_link_def sample_group Let_def)
    qed
    moreover have "opt_ResolvedLinks ?opts = [resolve_link run_link 10000]"
      unfolding links by (simp add: buildResolvedLinks_def map_filter_simps run_link_def sample_group)
    moreover have "rl_Port (resolve_link run_link 10000) = 10000" by (simp add: resolve_link_def Let_def)
    ultimately show "map rl_Port (opt_ResolvedLinks ?opts) = [10000]"
      "distinct (map ClusterName (opt_ResolvedLinks ?opts))" "0 \<le> rt_APIPort (sp_TiProxy (mg_Spec run_group))"
      "\<forall>l \<in> set (opt_ResolvedLinks ?opts). pd_addresses l \<noteq> []"
      by (simp_all add: spec run_mg_def sample_group)
  qed
  ultimately show ?thesis by (simp add: Let_def spec run_mg_def sample_group)
qed

text \<open>Two machine ports and two links with one cluster name, in the group of \<open>run_mg\<close>.\<close>

definition same_cluster :: "string \<Rightarrow> string \<Rightarrow> string \<Rightarrow> pool_link" where
  "same_cluster c uid name =
     (sample_link uid name)\<lparr>lk_Spec := (lk_Spec (sample_link uid name))\<lparr>lks_ClusterName := c\<rparr>\<rparr>"

definition clash_links :: "string \<Rightarrow> pool_link list" where
  "clash_links c = [same_cluster c ''l1'' ''a'', same_cluster c ''l2'' ''b'']"

definition clash_reconciler :: "string \<Rightarrow> unit reconciler" where
  "clash_reconciler c = run_reconciler\<lparr>r_Client := (r_Client run_reconciler)\<lparr>
     k_list_links := (\<lambda>_ _ w. (Inr (clash_links c), w)), k_list_ports := (\<lambda>_ w. (Inr sample_ports, w))\<rparr>\<rparr>"

definition clash_group :: "string \<Rightarrow> machine_group" where
  "clash_group c = group_status sample_lib 1000 sample_allocation
     [resolve_link (same_cluster c ''l1'' ''a'') 10000, resolve_link (same_cluster c ''l2'' ''b'') 10001] run_cloud None [] 0 run_mg"

lemma clash_assignment:
  "assignPortsToLinks (clash_links c) sample_ports sample_allocation = ([(''l1'', 10000), (''l2'', 10001)], [])"
  by code_simp

lemma clash_allocation: "ReconcilePorts [] (port_requests sample_ports) 10000 10010 = Some (Inr sample_allocation)"
  by (simp add: port_requests_def sample_group ReconcilePorts_def prepare_requests_def
      named_request_def request_key_def find_next.simps wrap32_def meta_key_def)

lemma clash_lists: "managed_links run_mg (clash_links c) = clash_links c" "managed_ports run_mg sample_ports = sample_ports"
  by (simp_all add: managed_links_def managed_ports_def clash_links_def same_cluster_def run_mg_def sample_group
      refers_to_def NamespacedName_def Let_def meta_key_def)
  

lemma clash_resolved: "buildResolvedLinks (clash_links c) [(''l1'', 10000), (''l2'', 10001)] =
    [resolve_link (same_cluster c ''l1'' ''a'') 10000, resolve_link (same_cluster c ''l2'' ''b'') 10001]"
  by (simp add: buildResolvedLinks_def map_filter_simps clash_links_def) (simp add: same_cluster_def sample_group)

lemma clash_client [simp]:
  "k_get_group (r_Client (clash_reconciler c)) n w = (Inr run_mg, w)"
  "k_list_links (r_Client (clash_reconciler c)) ns sel w = (Inr (clash_links c), w)"
  "k_list_ports (r_Client (clash_reconciler c)) ns w = (Inr sample_ports, w)"
  "k_patch_group_status (r_Client (clash_reconciler c)) b g w = (None, w)"
  "k_patch_port_status (r_Client (clash_reconciler c)) p q w = (None, w)"
  "k_patch_link_status (r_Client (clash_reconciler c)) l m w = (None, w)"
  "k_now (r_Client (clash_reconciler c)) w = 1000" "r_Lib (clash_reconciler c) = sample_lib"
  by (simp_all add: clash_reconciler_def run_reconciler_def sample_reconciler_def sample_client_def
      act_skip_def)

lemma clash_manager: "cloudManagerFor (recorded_reconciler (clash_reconciler c)) run_mg = Inr (recorded_manager noop_manager)"
proof -
  have "to_lower (trim_space ''aws'') = ''aws''" by code_simp
  then show ?thesis by (simp add: cloudManagerFor_def clash_reconciler_def run_reconciler_def run_mg_def Let_def)
qed

lemma clash_statuses:
  "\<exists>post. syncMachinePortStatuses (recorded_reconciler (clash_reconciler c)) lbs ps al cloud err ((), es) = (None, ((), es @ post))"
  "\<exists>post. syncLinkStatuses (recorded_reconciler (clash_reconciler c)) ls assigned errs d ((), es) = (None, ((), es @ post))"
proof -
  show "\<exists>post. syncMachinePortStatuses (recorded_reconciler (clash_reconciler c)) lbs ps al cloud err ((), es) = (None, ((), es @ post))"
    unfolding syncMachinePortStatuses_def
  proof (induction ps arbitrary: es)
    case (Cons p ps)
    show ?case using Cons [of "es @ [ev]" for ev] by (simp add: log_call_eq) (metis append_assoc)
  qed simp
  show "\<exists>post. syncLinkStatuses (recorded_reconciler (clash_reconciler c)) ls assigned errs d ((), es) = (None, ((), es @ post))"
    unfolding syncLinkStatuses_def
  proof (induction ls arbitrary: es)
    case (Cons l ls)
    show ?case using Cons [of "es @ [ev]" for ev] by (simp add: log_call_eq) (metis append_assoc)
  qed simp
qed

lemma clash_run:
  obtains pre post where "Reconcile (recorded_reconciler (clash_reconciler c)) run_name ((), []) =
    Some ((no_requeue, None), ((), pre @ PatchGroupStatus run_mg (clash_group c) None # post))"
proof -
  let ?r = "recorded_reconciler (clash_reconciler c)"
  let ?pre = "[GetGroup run_name (Inr run_mg), ListLinks ''ns'' None (Inr (clash_links c)), ListPorts ''ns'' (Inr sample_ports),
     CloudEnsure run_mg sample_ports sample_allocation (run_cloud, [], None)]"
  have meta: "meta_deletion_timestamp (mg_meta run_mg) = None" "meta_namespace (mg_meta run_mg) = ''ns''"
    "sp_LinkSelector (mg_Spec run_mg) = None" "st_AllocatedPorts (mg_Status run_mg) = []"
    "sp_PortRange (mg_Spec run_mg) = \<lparr>range_start = 10000, range_end = 10010\<rparr>"
    by (simp_all add: run_mg_def sample_group)
  have fin: "lib_contains_finalizer sample_lib (mg_meta run_mg) machineGroupFinalizer"
    by (simp add: sample_lib_def run_mg_def)
  have spec: "Validate \<lparr>range_start = 10000, range_end = 10010\<rparr> = Inr ()"
    "NormalizeLoadBalancers (sp_Exposure (mg_Spec run_mg)) = Inr []"
    by (simp_all add: Validate_def run_mg_def sample_group NormalizeLoadBalancers_def)
  have ensure: "noop_Ensure run_mg sample_ports al w = ((run_cloud, [], None), w)" for al and w :: unit
    by (simp add: noop_Ensure_def run_mg_def sample_group NormalizeLoadBalancers_def ResolveNames_def run_cloud_def Let_def)
  have few: "length sample_ports = 2" by (simp add: sample_ports_def)
  let ?es = "?pre @ [PatchGroupStatus run_mg (clash_group c) None]"
  obtain post1 where post1: "syncMachinePortStatuses ?r [] sample_ports sample_allocation [] None ((), ?es) = (None, ((), ?es @ post1))"
    using clash_statuses(1) by blast
  obtain post2 where post2: "syncLinkStatuses ?r (clash_links c) [(''l1'', 10000), (''l2'', 10001)] []
      ''no allocated TiProxyMachinePort is available for this link'' ((), ?es @ post1) = (None, ((), (?es @ post1) @ post2))"
    using clash_statuses(2) by blast
  have rest: "reconcile_allocated ?r run_mg [] (clash_links c) sample_ports sample_allocation ((), take 3 ?pre) =
      ((no_requeue, None), ((), ?pre @ PatchGroupStatus run_mg (clash_group c) None # post1 @ post2))"
    using post1 post2
    by (simp add: reconcile_allocated_eq clash_manager noop_manager_def log_call_eq ensure after_ensure_def run_prune clash_assignment
        clash_resolved clash_group_def)
  show thesis
    by (rule that [of ?pre "post1 @ post2"], simp add: Reconcile_def reconcile_group_def is_zero_time_def meta fin spec reconcile_ports_def
        list_links_recorded list_ports_recorded on_items_def log_call_eq clash_lists few
        maxMachinePortsPerGroup_def clash_allocation Let_def rest [simplified])
qed

text \<open>
  C36: \<^verbatim>\<open>Ready\<close> does not mean that the machines can serve. For every cluster name there are two links that carry
  it and a \<^verbatim>\<open>Reconcile\<close> that ends without an error or a retry, has patched the group's status with
  \<^verbatim>\<open>Ready=True\<close>, and leaves a group whose configuration no agent can render: nothing on the way rejects the
  name that is used twice, and the agents reject the whole configuration for it.
\<close>

theorem ready_group_no_agent_renders:
  assumes "trim_space c \<noteq> []"
  shows "\<exists>pre base obj post. Reconcile (recorded_reconciler (clash_reconciler c)) run_name ((), []) =
      Some ((no_requeue, None), ((), pre @ PatchGroupStatus base obj None # post)) \<and>
    group_status_of ConditionReady obj = Some ConditionTrue \<and>
    (\<forall>a. \<not> is_ok (BuildTiProxyConfig (render_options_for (runtimeSettings a obj) obj)))"
proof -
  obtain pre post where run: "Reconcile (recorded_reconciler (clash_reconciler c)) run_name ((), []) =
      Some ((no_requeue, None), ((), pre @ PatchGroupStatus run_mg (clash_group c) None # post))"
    by (rule clash_run)
  have name: "ClusterName (resolve_link (same_cluster c u n) p) = trim_space c" for u n p
    using assms by (simp add: ClusterName_def resolve_link_def same_cluster_def Let_def)
  have "\<not> renderable (opt_ResolvedLinks (render_options_for (runtimeSettings a (clash_group c)) (clash_group c)))" for a
    by (simp add: renderable_def clash_group_def group_status_fields name)
  moreover have "group_status_of ConditionReady (clash_group c) = Some ConditionTrue"
    by (simp add: clash_group_def group_status_ready [OF sample_set_condition_law])
  ultimately show ?thesis using run by (fastforce simp: is_ok_iff BuildTiProxyConfig_iff)
qed

theorem ready_group_no_agent_renders_witness:
  "\<exists>pre base obj post. Reconcile (recorded_reconciler (clash_reconciler ''prod'')) run_name ((), []) =
      Some ((no_requeue, None), ((), pre @ PatchGroupStatus base obj None # post)) \<and>
    group_status_of ConditionReady obj = Some ConditionTrue \<and>
    \<not> is_ok (BuildTiProxyConfig (render_options_for (runtimeSettings (sample_agent ''a'') obj) obj))"
proof -
  have "trim_space ''prod'' \<noteq> []" by code_simp
  from ready_group_no_agent_renders [OF this] show ?thesis by blast
qed

section \<open>The controller and the AWS provider\<close>

text \<open>
  C37: A group on AWS whose exposure was edited into an invalid one cannot be deleted: \<open>reconcileDelete\<close>
  makes no call, keeps the finalizer and returns the error.
\<close>

theorem invalid_exposure_blocks_deletion:
  assumes "cloudManagerFor r mg = Inr (aws_manager A)"
    "lib_contains_finalizer (r_Lib r) (mg_meta mg) machineGroupFinalizer"
    "NormalizeLoadBalancers (sp_Exposure (mg_Spec mg)) = Inl e"
  shows "reconcileDelete r mg w = ((requeue_after (seconds 20), Some e), w)"
  using assms(2,3) by (simp add: reconcileDelete_def assms(1) aws_manager_def aws_Delete_invalid)

theorem invalid_exposure_blocks_deletion_witness:
  "\<exists>e. reconcileDelete (run_reconciler\<lparr>r_CloudManager := Some (aws_manager (sample_aws sample_asg))\<rparr>)
     (run_mg\<lparr>mg_Spec := (mg_Spec run_mg)\<lparr>sp_Exposure := bad_exposure\<rparr>\<rparr>) () = ((requeue_after (seconds 20), Some e), ())"
proof -
  let ?r = "run_reconciler\<lparr>r_CloudManager := Some (aws_manager (sample_aws sample_asg))\<rparr>"
  let ?mg = "run_mg\<lparr>mg_Spec := (mg_Spec run_mg)\<lparr>sp_Exposure := bad_exposure\<rparr>\<rparr>"
  have "\<not> is_ok (NormalizeLoadBalancers bad_exposure)" by code_simp
  then obtain e where "NormalizeLoadBalancers (sp_Exposure (mg_Spec ?mg)) = Inl e"
    by (cases "NormalizeLoadBalancers bad_exposure") auto
  moreover have "cloudManagerFor ?r ?mg = Inr (aws_manager (sample_aws sample_asg))"
  proof -
    have "to_lower (trim_space ''aws'') = ''aws''" by code_simp
    then show ?thesis by (simp add: cloudManagerFor_def run_reconciler_def run_mg_def Let_def)
  qed
  moreover have "lib_contains_finalizer (r_Lib ?r) (mg_meta ?mg) machineGroupFinalizer"
    by (simp add: sample_lib_def run_mg_def)
  ultimately show ?thesis
    using invalid_exposure_blocks_deletion [of ?r ?mg] by blast
qed

text \<open>
  When the machines of a group on AWS cannot be ensured, the patched status has no load balancers any more,
  and from such a status no load balancer is ever stale: one that has left the spec is not deleted.
\<close>

theorem failed_ensure_forgets_load_balancers:
  assumes "NormalizeLoadBalancers (sp_Exposure (mg_Spec mg)) = Inr lbs" "ensure_machines A mg w = (Inl e, w')"
    "aws_Ensure A mg mps al w = ((cs, ports, err), w1)" "obj = group_status L now al rls cs err errs n mg"
  shows "err = Some e \<and> cs_LoadBalancers (st_Cloud (mg_Status obj)) = [] \<and>
    ensureStaleLoadBalancersDeleted A obj desired = io_return ()"
proof -
  have "cs = empty_cloud_status \<and> err = Some e"
    using assms(1-3) by (auto simp: aws_Ensure_def split: prod.splits)
  then show ?thesis
    by (simp add: assms(4) ensureStaleLoadBalancersDeleted_def group_status_fields empty_cloud_status_def)
qed

end
